theory Spec2Isabelle
  imports Complex_Main "HOL-Library.Product_Lexorder"
begin

section \<open>The hosted store behind \<^verbatim>\<open>SupabaseDB\<close>\<close>

text \<open>
  \<^verbatim>\<open>db.js\<close> talks to four PostgreSQL tables through the Supabase client. The tables are
  lists of rows in insertion order, one record per table with the columns of the SQL
  schema. A timestamp is an instant counted in milliseconds, which orders exactly as the
  ISO strings of \<^verbatim>\<open>new Date().toISOString()\<close> do; each operation receives the clock
  reading \<open>now\<close> of its call, shared by the client's \<^verbatim>\<open>new Date()\<close> and the store's
  \<^verbatim>\<open>default now()\<close>. A \<^verbatim>\<open>decimal\<close> column is an exact rational and a \<^verbatim>\<open>jsonb\<close>
  column an association list.
\<close>

type_synonym instant = nat

record stage =
  st_id :: nat
  st_agent_id :: string
  st_name :: string
  st_position :: int
  st_color :: "string option"
  st_created_at :: instant

record contact =
  c_id :: nat
  c_agent_id :: string
  c_name :: string
  c_email :: "string option"
  c_phone :: "string option"
  c_company :: "string option"
  c_role :: "string option"
  c_stage_id :: "nat option"
  c_stage_entered_at :: "instant option"
  c_source :: "string option"
  c_source_detail :: "string option"
  c_assigned_to :: "string option"
  c_tags :: "string list"
  c_custom_fields :: "(string \<times> string) list"
  c_deal_value :: "rat option"
  c_currency :: string
  c_is_active :: bool
  c_lost_reason :: "string option"
  c_created_at :: instant
  c_updated_at :: instant
  c_last_contact_at :: "instant option"

record interaction =
  i_id :: nat
  i_agent_id :: string
  i_contact_id :: "nat option"
  i_type :: string
  i_subject :: "string option"
  i_content :: "string option"
  i_created_by :: string
  i_created_by_type :: string
  i_scheduled_at :: "instant option"
  i_completed_at :: "instant option"
  i_metadata :: "(string \<times> string) list"
  i_created_at :: instant

record task =
  t_id :: nat
  t_agent_id :: string
  t_contact_id :: "nat option"
  t_title :: string
  t_description :: "string option"
  t_due_at :: "instant option"
  t_assigned_to :: "string option"
  t_priority :: string
  t_completed :: bool
  t_completed_at :: "instant option"
  t_created_at :: instant

text \<open>
  Every call of the client is one request. The store keeps the serial counter of each
  table, the trace of the requests it was sent (an update with the columns of its
  payload), and the schedule of the transport: the head of \<open>outages\<close> is \<open>True\<close> when the
  next request ends in the client's \<^verbatim>\<open>error\<close> without reaching the tables.
\<close>

datatype request =
    Select string
  | Insert string
  | Update string "string list"
  | Delete string

record store =
  crm_stages :: "stage list"
  crm_contacts :: "contact list"
  crm_interactions :: "interaction list"
  crm_tasks :: "task list"
  stage_seq :: nat
  contact_seq :: nat
  interaction_seq :: nat
  task_seq :: nat
  outages :: "bool list"
  requests :: "request list"

datatype store_error =
    Unavailable
  | NoSingleRow
  | NotNullViolation string
  | ForeignKeyViolation string
  | UniqueViolation string
  | UndefinedColumn string

text \<open>
  What a method throws: an \<^verbatim>\<open>Error\<close> of the facade with its message, or the \<^verbatim>\<open>error\<close>
  of the client rethrown by \<^verbatim>\<open>if (error) throw error\<close>.
\<close>

datatype error =
    Failure string
  | StoreError store_error

definition empty_store :: store where
  "empty_store =
     \<lparr>crm_stages = [], crm_contacts = [], crm_interactions = [], crm_tasks = [],
      stage_seq = 1, contact_seq = 1, interaction_seq = 1, task_seq = 1,
      outages = [], requests = []\<rparr>"

definition transport :: "request \<Rightarrow> store \<Rightarrow> bool \<times> store" where
  "transport r s =
     (case outages s of
        [] \<Rightarrow> (True, s\<lparr>requests := requests s @ [r]\<rparr>)
      | down # later \<Rightarrow> (\<not> down, s\<lparr>outages := later, requests := requests s @ [r]\<rparr>))"

subsection \<open>JavaScript truthiness of the optional arguments\<close>

text \<open>
  A field of an argument object is absent (\<open>None\<close>) or holds a value; \<^verbatim>\<open>x || null\<close>
  also turns the empty string and the number zero into \<^verbatim>\<open>null\<close>.
\<close>

definition truthy_str :: "string option \<Rightarrow> bool" where
  "truthy_str x = (case x of None \<Rightarrow> False | Some v \<Rightarrow> v \<noteq> [])"

definition truthy_nat :: "nat option \<Rightarrow> bool" where
  "truthy_nat x = (case x of None \<Rightarrow> False | Some v \<Rightarrow> v \<noteq> 0)"

definition str_or_null :: "string option \<Rightarrow> string option" where
  "str_or_null x = (if truthy_str x then x else None)"

definition nat_or_null :: "nat option \<Rightarrow> nat option" where
  "nat_or_null x = (if truthy_nat x then x else None)"

definition rat_or_null :: "rat option \<Rightarrow> rat option" where
  "rat_or_null x = (case x of None \<Rightarrow> None | Some v \<Rightarrow> if v = 0 then None else Some v)"

section \<open>Stages\<close>

record stage_in =
  stage_name :: "string option"
  stage_position :: "int option"
  stage_color :: "string option"

text \<open>
  \<^verbatim>\<open>updateStage\<close> hands its \<^verbatim>\<open>updates\<close> object to \<^verbatim>\<open>update()\<close> as it is, so its keys are
  taken as column names: any of the six columns of \<^verbatim>\<open>crm_stages\<close> with a value, \<^verbatim>\<open>id\<close> and
  \<^verbatim>\<open>agent_id\<close> among them, or any other key. The entries are in the order of the object's
  keys.
\<close>

datatype stage_entry =
    S_id nat
  | S_agent_id string
  | S_name string
  | S_position int
  | S_color "string option"
  | S_created_at instant
  | S_other string

fun stage_column :: "stage_entry \<Rightarrow> string" where
  "stage_column (S_id _) = ''id''"
| "stage_column (S_agent_id _) = ''agent_id''"
| "stage_column (S_name _) = ''name''"
| "stage_column (S_position _) = ''position''"
| "stage_column (S_color _) = ''color''"
| "stage_column (S_created_at _) = ''created_at''"
| "stage_column (S_other key) = key"

fun stage_assign :: "stage_entry \<Rightarrow> stage \<Rightarrow> stage" where
  "stage_assign (S_id v) r = r\<lparr>st_id := v\<rparr>"
| "stage_assign (S_agent_id v) r = r\<lparr>st_agent_id := v\<rparr>"
| "stage_assign (S_name v) r = r\<lparr>st_name := v\<rparr>"
| "stage_assign (S_position v) r = r\<lparr>st_position := v\<rparr>"
| "stage_assign (S_color v) r = r\<lparr>st_color := v\<rparr>"
| "stage_assign (S_created_at v) r = r\<lparr>st_created_at := v\<rparr>"
| "stage_assign (S_other _) r = r"

text \<open>
  The store refuses a payload that names a column the table does not have, before it
  looks at any row.
\<close>

definition stage_table :: "string list" where
  "stage_table = [''id'', ''agent_id'', ''name'', ''position'', ''color'', ''created_at'']"

definition undefined_column :: "string list \<Rightarrow> string list \<Rightarrow> string option" where
  "undefined_column table columns = find (\<lambda>col. col \<notin> set table) columns"

definition db_listStages :: "string \<Rightarrow> store \<Rightarrow> (error + stage list) \<times> store" where
  "db_listStages agentId s =
     (case transport (Select ''crm_stages'') s of
        (ok, s') \<Rightarrow>
          if \<not> ok then (Inl (StoreError Unavailable), s')
          else (Inr (sort_key st_position
                   (filter (\<lambda>r. st_agent_id r = agentId) (crm_stages s'))), s'))"

text \<open>
  An insert draws the next serial id before the row is checked, so a rejected row still
  uses one up.
\<close>

definition db_createStage ::
  "string \<Rightarrow> instant \<Rightarrow> stage_in \<Rightarrow> store \<Rightarrow> (error + stage) \<times> store" where
  "db_createStage agentId now stage s =
     (case transport (Insert ''crm_stages'') s of
        (ok, s') \<Rightarrow>
          if \<not> ok then (Inl (StoreError Unavailable), s')
          else
            (let s'' = s'\<lparr>stage_seq := Suc (stage_seq s')\<rparr> in
             case stage_name stage of
               None \<Rightarrow> (Inl (StoreError (NotNullViolation ''name'')), s'')
             | Some n \<Rightarrow>
                 (case stage_position stage of
                    None \<Rightarrow> (Inl (StoreError (NotNullViolation ''position'')), s'')
                  | Some p \<Rightarrow>
                      (let row = \<lparr>st_id = stage_seq s', st_agent_id = agentId, st_name = n,
                                  st_position = p, st_color = str_or_null (stage_color stage),
                                  st_created_at = now\<rparr>
                       in (Inr row, s''\<lparr>crm_stages := crm_stages s' @ [row]\<rparr>)))))"

text \<open>
  \<^verbatim>\<open>.update(..).eq('id', id).eq('agent_id', ..).select().single()\<close>: the request fails
  unless exactly one row matches, and then nothing is written. The row is matched on its
  values before the update. \<^verbatim>\<open>id\<close> is the primary key, and the reference
  \<^verbatim>\<open>crm_contacts.stage_id\<close> names no action on update: a new id that another stage has, or
  a change of an id that a contact references, is refused.
\<close>

definition db_updateStage ::
  "string \<Rightarrow> nat \<Rightarrow> stage_entry list \<Rightarrow> store \<Rightarrow> (error + stage) \<times> store" where
  "db_updateStage agentId rid updates s =
     (case transport (Update ''crm_stages'' (map stage_column updates)) s of
        (ok, s') \<Rightarrow>
          if \<not> ok then (Inl (StoreError Unavailable), s')
          else
            (case undefined_column stage_table (map stage_column updates) of
               Some col \<Rightarrow> (Inl (StoreError (UndefinedColumn col)), s')
             | None \<Rightarrow>
            (case filter (\<lambda>r. st_id r = rid \<and> st_agent_id r = agentId) (crm_stages s') of
               [r] \<Rightarrow>
                 if st_id (fold stage_assign updates r) \<noteq> rid \<and>
                    list_ex (\<lambda>x. st_id x = st_id (fold stage_assign updates r)) (crm_stages s')
                 then (Inl (StoreError (UniqueViolation ''id'')), s')
                 else if st_id (fold stage_assign updates r) \<noteq> rid \<and>
                    list_ex (\<lambda>c. c_stage_id c = Some rid) (crm_contacts s')
                 then (Inl (StoreError (ForeignKeyViolation ''stage_id'')), s')
                 else
                 (Inr (fold stage_assign updates r),
                  s'\<lparr>crm_stages :=
                       map (\<lambda>x. if st_id x = rid \<and> st_agent_id x = agentId
                                then fold stage_assign updates x else x) (crm_stages s')\<rparr>)
             | _ \<Rightarrow> (Inl (StoreError NoSingleRow), s'))))"

text \<open>
  \<^verbatim>\<open>stage_id integer references crm_stages(id) on delete set null\<close>: deleting a stage
  clears the reference of every contact that pointed to it.
\<close>

definition db_deleteStage :: "string \<Rightarrow> nat \<Rightarrow> store \<Rightarrow> (error + unit) \<times> store" where
  "db_deleteStage agentId rid s =
     (case transport (Delete ''crm_stages'') s of
        (ok, s') \<Rightarrow>
          if \<not> ok then (Inl (StoreError Unavailable), s')
          else if list_ex (\<lambda>r. st_id r = rid \<and> st_agent_id r = agentId) (crm_stages s')
          then (Inr (),
                s'\<lparr>crm_stages :=
                     filter (\<lambda>r. \<not> (st_id r = rid \<and> st_agent_id r = agentId)) (crm_stages s'),
                   crm_contacts :=
                     map (\<lambda>c. if c_stage_id c = Some rid then c\<lparr>c_stage_id := None\<rparr> else c)
                       (crm_contacts s')\<rparr>)
          else (Inr (), s'))"

text \<open>
  \<^verbatim>\<open>reorderStages\<close>: the updates \<^verbatim>\<open>{id, position: index + 1}\<close> are awaited one after the
  other; the first that throws ends the loop.
\<close>

fun reorder_loop :: "string \<Rightarrow> (nat \<times> int) list \<Rightarrow> store \<Rightarrow> (error + unit) \<times> store" where
  "reorder_loop agentId [] s = (Inr (), s)"
| "reorder_loop agentId ((rid, pos) # rest) s =
     (case db_updateStage agentId rid [S_position pos] s of
        (Inl e, s') \<Rightarrow> (Inl e, s')
      | (Inr _, s') \<Rightarrow> reorder_loop agentId rest s')"

definition reorder_updates :: "nat list \<Rightarrow> (nat \<times> int) list" where
  "reorder_updates stageIds = map (\<lambda>(index, rid). (rid, int index + 1)) (enumerate 0 stageIds)"

definition db_reorderStages ::
  "string \<Rightarrow> nat list \<Rightarrow> store \<Rightarrow> (error + stage list) \<times> store" where
  "db_reorderStages agentId stageIds s =
     (case reorder_loop agentId (reorder_updates stageIds) s of
        (Inl e, s') \<Rightarrow> (Inl e, s')
      | (Inr _, s') \<Rightarrow> db_listStages agentId s')"

subsection \<open>The facade \<^verbatim>\<open>CRM\<close> over the stages\<close>

definition crm_listStages :: "string \<Rightarrow> store \<Rightarrow> (error + stage list) \<times> store" where
  "crm_listStages agentId s = db_listStages agentId s"

definition crm_createStage ::
  "string \<Rightarrow> instant \<Rightarrow> stage_in \<Rightarrow> store \<Rightarrow> (error + stage) \<times> store" where
  "crm_createStage agentId now stage s =
     (if \<not> truthy_str (stage_name stage) then (Inl (Failure ''Stage name is required''), s)
      else
        (case stage_position stage of
           None \<Rightarrow>
             (case db_listStages agentId s of
                (Inl e, s') \<Rightarrow> (Inl e, s')
              | (Inr existing, s') \<Rightarrow>
                  db_createStage agentId now
                    (stage\<lparr>stage_position := Some (int (length existing) + 1)\<rparr>) s')
         | Some _ \<Rightarrow> db_createStage agentId now stage s))"

definition crm_reorderStages ::
  "string \<Rightarrow> nat list \<Rightarrow> store \<Rightarrow> (error + stage list) \<times> store" where
  "crm_reorderStages agentId stageIds s = db_reorderStages agentId stageIds s"

datatype init_status = already_initialized | initialized

definition defaultStages :: "stage_in list" where
  "defaultStages =
     [\<lparr>stage_name = Some ''Lead'', stage_position = Some 1, stage_color = Some ''#6366f1''\<rparr>,
      \<lparr>stage_name = Some ''Contacted'', stage_position = Some 2, stage_color = Some ''#8b5cf6''\<rparr>,
      \<lparr>stage_name = Some ''Qualified'', stage_position = Some 3, stage_color = Some ''#a855f7''\<rparr>,
      \<lparr>stage_name = Some ''Proposal'', stage_position = Some 4, stage_color = Some ''#d946ef''\<rparr>,
      \<lparr>stage_name = Some ''Negotiation'', stage_position = Some 5, stage_color = Some ''#ec4899''\<rparr>,
      \<lparr>stage_name = Some ''Won'', stage_position = Some 6, stage_color = Some ''#22c55e''\<rparr>]"

fun seed_loop ::
  "string \<Rightarrow> instant \<Rightarrow> stage_in list \<Rightarrow> stage list \<Rightarrow> store \<Rightarrow> (error + stage list) \<times> store"
where
  "seed_loop agentId now [] created s = (Inr created, s)"
| "seed_loop agentId now (stage # rest) created s =
     (case crm_createStage agentId now stage s of
        (Inl e, s') \<Rightarrow> (Inl e, s')
      | (Inr row, s') \<Rightarrow> seed_loop agentId now rest (created @ [row]) s')"

definition initializeDefaultStages ::
  "string \<Rightarrow> instant \<Rightarrow> store \<Rightarrow> (error + init_status \<times> stage list) \<times> store" where
  "initializeDefaultStages agentId now s =
     (case crm_listStages agentId s of
        (Inl e, s') \<Rightarrow> (Inl e, s')
      | (Inr existing, s') \<Rightarrow>
          if length existing > 0 then (Inr (already_initialized, existing), s')
          else
            (case seed_loop agentId now defaultStages [] s' of
               (Inl e, s'') \<Rightarrow> (Inl e, s'')
             | (Inr created, s'') \<Rightarrow> (Inr (initialized, created), s'')))"


section \<open>Contacts\<close>

text \<open>
  A contact is returned with the embedded resource \<^verbatim>\<open>crm_stages(name, color)\<close>: the stage
  its \<^verbatim>\<open>stage_id\<close> references, looked up by the foreign key alone.
\<close>

type_synonym contact_view = "contact \<times> (string \<times> string option) option"

definition with_stage :: "store \<Rightarrow> contact \<Rightarrow> contact_view" where
  "with_stage s c =
     (c, case c_stage_id c of
           None \<Rightarrow> None
         | Some sid \<Rightarrow>
             map_option (\<lambda>r. (st_name r, st_color r))
               (find (\<lambda>r. st_id r = sid) (crm_stages s)))"

definition stage_exists :: "store \<Rightarrow> nat option \<Rightarrow> bool" where
  "stage_exists s ref =
     (case ref of None \<Rightarrow> True | Some sid \<Rightarrow> list_ex (\<lambda>r. st_id r = sid) (crm_stages s))"

record contact_in =
  contact_name :: "string option"
  contact_email :: "string option"
  contact_phone :: "string option"
  contact_company :: "string option"
  contact_role :: "string option"
  contact_stageId :: "nat option"
  contact_source :: "string option"
  contact_sourceDetail :: "string option"
  contact_assignedTo :: "string option"
  contact_tags :: "string list option"
  contact_customFields :: "(string \<times> string) list option"
  contact_dealValue :: "rat option"
  contact_currency :: "string option"
  contact_isActive :: "bool option"

record contact_options =
  options_stageId :: "nat option"
  options_isActive :: "bool option"
  options_assignedTo :: "string option"
  options_tags :: "string list option"
  options_limit :: "nat option"
  options_offset :: "nat option"

definition page :: "nat option \<Rightarrow> nat option \<Rightarrow> 'a list \<Rightarrow> 'a list" where
  "page limit offset rows =
     (if truthy_nat offset
      then take (if truthy_nat limit then the limit else 20) (drop (the offset) rows)
      else if truthy_nat limit then take (the limit) rows
      else rows)"

text \<open>The query \<^verbatim>\<open>listContacts\<close> builds, over the rows of \<^verbatim>\<open>crm_contacts\<close>.\<close>

definition contact_query :: "string \<Rightarrow> contact_options \<Rightarrow> contact list \<Rightarrow> contact list" where
  "contact_query agentId options rows =
     (let q0 = filter (\<lambda>c. c_agent_id c = agentId) rows;
          q1 = (if truthy_nat (options_stageId options)
                then filter (\<lambda>c. c_stage_id c = options_stageId options) q0 else q0);
          q2 = (case options_isActive options of
                  None \<Rightarrow> q1
                | Some b \<Rightarrow> filter (\<lambda>c. c_is_active c = b) q1);
          q3 = (if truthy_str (options_assignedTo options)
                then filter (\<lambda>c. c_assigned_to c = options_assignedTo options) q2
                else q2);
          q4 = (case options_tags options of
                  None \<Rightarrow> q3
                | Some ts \<Rightarrow>
                    if length ts > 0
                    then filter (\<lambda>c. list_ex (\<lambda>x. x \<in> set ts) (c_tags c)) q3
                    else q3);
          q5 = sort_key (\<lambda>c. - int (c_updated_at c)) q4
      in page (options_limit options) (options_offset options) q5)"

definition db_listContacts ::
  "string \<Rightarrow> contact_options \<Rightarrow> store \<Rightarrow> (error + contact_view list) \<times> store" where
  "db_listContacts agentId options s =
     (case transport (Select ''crm_contacts'') s of
        (ok, s') \<Rightarrow>
          if \<not> ok then (Inl (StoreError Unavailable), s')
          else (Inr (map (with_stage s') (contact_query agentId options (crm_contacts s'))), s'))"

definition db_getContact :: "string \<Rightarrow> nat \<Rightarrow> store \<Rightarrow> (error + contact_view) \<times> store" where
  "db_getContact agentId rid s =
     (case transport (Select ''crm_contacts'') s of
        (ok, s') \<Rightarrow>
          if \<not> ok then (Inl (StoreError Unavailable), s')
          else
            (case filter (\<lambda>c. c_id c = rid \<and> c_agent_id c = agentId) (crm_contacts s') of
               [c] \<Rightarrow> (Inr (with_stage s' c), s')
             | _ \<Rightarrow> (Inl (StoreError NoSingleRow), s')))"

definition db_createContact ::
  "string \<Rightarrow> instant \<Rightarrow> contact_in \<Rightarrow> store \<Rightarrow> (error + contact_view) \<times> store" where
  "db_createContact agentId now contact s =
     (case transport (Insert ''crm_contacts'') s of
        (ok, s') \<Rightarrow>
          if \<not> ok then (Inl (StoreError Unavailable), s')
          else
            (let s'' = s'\<lparr>contact_seq := Suc (contact_seq s')\<rparr> in
             case contact_name contact of
               None \<Rightarrow> (Inl (StoreError (NotNullViolation ''name'')), s'')
             | Some n \<Rightarrow>
                 (let row =
                    \<lparr>c_id = contact_seq s',
                     c_agent_id = agentId,
                     c_name = n,
                     c_email = str_or_null (contact_email contact),
                     c_phone = str_or_null (contact_phone contact),
                     c_company = str_or_null (contact_company contact),
                     c_role = str_or_null (contact_role contact),
                     c_stage_id = nat_or_null (contact_stageId contact),
                     c_stage_entered_at =
                       (if truthy_nat (contact_stageId contact) then Some now else None),
                     c_source = str_or_null (contact_source contact),
                     c_source_detail = str_or_null (contact_sourceDetail contact),
                     c_assigned_to = str_or_null (contact_assignedTo contact),
                     c_tags = (case contact_tags contact of None \<Rightarrow> [] | Some ts \<Rightarrow> ts),
                     c_custom_fields =
                       (case contact_customFields contact of None \<Rightarrow> [] | Some m \<Rightarrow> m),
                     c_deal_value = rat_or_null (contact_dealValue contact),
                     c_currency =
                       (if truthy_str (contact_currency contact)
                        then the (contact_currency contact) else ''AUD''),
                     c_is_active = (contact_isActive contact \<noteq> Some False),
                     c_lost_reason = None,
                     c_created_at = now,
                     c_updated_at = now,
                     c_last_contact_at = None\<rparr>
                  in if \<not> stage_exists s' (c_stage_id row)
                     then (Inl (StoreError (ForeignKeyViolation ''stage_id'')), s'')
                     else (Inr (with_stage s' row),
                           s''\<lparr>crm_contacts := crm_contacts s' @ [row]\<rparr>))))"

text \<open>
  \<^verbatim>\<open>fieldMap\<close> is an object literal, and the loop tests \<^verbatim>\<open>fieldMap[key]\<close>: the lookup also
  finds the properties that every object inherits from \<^verbatim>\<open>Object.prototype\<close>. For such a
  key the value found is a function (for \<^verbatim>\<open>__proto__\<close> the prototype object), which is
  truthy, and \<^verbatim>\<open>updateData[fieldMap[key]] = value\<close> stores the value under the text of that
  function as the column name.
\<close>

definition inherited :: "string \<Rightarrow> string option" where
  "inherited key =
     (if key = ''constructor'' then Some ''function Object() { [native code] }''
      else if key = ''__proto__'' then Some ''[object Object]''
      else if key \<in> set [''__defineGetter__'', ''__defineSetter__'', ''hasOwnProperty'',
                            ''__lookupGetter__'', ''__lookupSetter__'', ''isPrototypeOf'',
                            ''propertyIsEnumerable'', ''toString'', ''valueOf'',
                            ''toLocaleString'']
      then Some (''function '' @ key @ ''() { [native code] }'')
      else None)"

text \<open>
  The entries of the \<^verbatim>\<open>updates\<close> object of \<^verbatim>\<open>updateContact\<close>, in the order of
  \<^verbatim>\<open>Object.entries\<close>: the sixteen keys of \<^verbatim>\<open>fieldMap\<close> with a value of the column's type,
  and any other key.
\<close>

datatype contact_entry =
    E_name string
  | E_email "string option"
  | E_phone "string option"
  | E_company "string option"
  | E_role "string option"
  | E_stageId "nat option"
  | E_source "string option"
  | E_sourceDetail "string option"
  | E_assignedTo "string option"
  | E_tags "string list"
  | E_customFields "(string \<times> string) list"
  | E_dealValue "rat option"
  | E_currency string
  | E_isActive bool
  | E_lostReason "string option"
  | E_lastContactAt "instant option"
  | E_other string

fun fieldMap :: "contact_entry \<Rightarrow> string option" where
  "fieldMap (E_name _) = Some ''name''"
| "fieldMap (E_email _) = Some ''email''"
| "fieldMap (E_phone _) = Some ''phone''"
| "fieldMap (E_company _) = Some ''company''"
| "fieldMap (E_role _) = Some ''role''"
| "fieldMap (E_stageId _) = Some ''stage_id''"
| "fieldMap (E_source _) = Some ''source''"
| "fieldMap (E_sourceDetail _) = Some ''source_detail''"
| "fieldMap (E_assignedTo _) = Some ''assigned_to''"
| "fieldMap (E_tags _) = Some ''tags''"
| "fieldMap (E_customFields _) = Some ''custom_fields''"
| "fieldMap (E_dealValue _) = Some ''deal_value''"
| "fieldMap (E_currency _) = Some ''currency''"
| "fieldMap (E_isActive _) = Some ''is_active''"
| "fieldMap (E_lostReason _) = Some ''lost_reason''"
| "fieldMap (E_lastContactAt _) = Some ''last_contact_at''"
| "fieldMap (E_other key) = inherited key"

fun assign :: "contact_entry \<Rightarrow> contact \<Rightarrow> contact" where
  "assign (E_name v) c = c\<lparr>c_name := v\<rparr>"
| "assign (E_email v) c = c\<lparr>c_email := v\<rparr>"
| "assign (E_phone v) c = c\<lparr>c_phone := v\<rparr>"
| "assign (E_company v) c = c\<lparr>c_company := v\<rparr>"
| "assign (E_role v) c = c\<lparr>c_role := v\<rparr>"
| "assign (E_stageId v) c = c\<lparr>c_stage_id := v\<rparr>"
| "assign (E_source v) c = c\<lparr>c_source := v\<rparr>"
| "assign (E_sourceDetail v) c = c\<lparr>c_source_detail := v\<rparr>"
| "assign (E_assignedTo v) c = c\<lparr>c_assigned_to := v\<rparr>"
| "assign (E_tags v) c = c\<lparr>c_tags := v\<rparr>"
| "assign (E_customFields v) c = c\<lparr>c_custom_fields := v\<rparr>"
| "assign (E_dealValue v) c = c\<lparr>c_deal_value := v\<rparr>"
| "assign (E_currency v) c = c\<lparr>c_currency := v\<rparr>"
| "assign (E_isActive v) c = c\<lparr>c_is_active := v\<rparr>"
| "assign (E_lostReason v) c = c\<lparr>c_lost_reason := v\<rparr>"
| "assign (E_lastContactAt v) c = c\<lparr>c_last_contact_at := v\<rparr>"
| "assign (E_other _) c = c"

text \<open>
  \<^verbatim>\<open>updateData\<close> starts from \<^verbatim>\<open>{ updated_at: new Date().toISOString() }\<close> and gains the
  mapped entries; the one update request carries it. The store refuses it when it names
  a column that \<^verbatim>\<open>crm_contacts\<close> does not have.
\<close>

definition contact_table :: "string list" where
  "contact_table =
     [''id'', ''agent_id'', ''name'', ''email'', ''phone'', ''company'', ''role'', ''stage_id'',
      ''stage_entered_at'', ''source'', ''source_detail'', ''assigned_to'', ''tags'',
      ''custom_fields'', ''deal_value'', ''currency'', ''is_active'', ''lost_reason'',
      ''created_at'', ''updated_at'', ''last_contact_at'']"

definition updateData_columns :: "contact_entry list \<Rightarrow> string list" where
  "updateData_columns updates = ''updated_at'' # List.map_filter fieldMap updates"

definition updateData :: "instant \<Rightarrow> contact_entry list \<Rightarrow> contact \<Rightarrow> contact" where
  "updateData now updates c = fold assign updates (c\<lparr>c_updated_at := now\<rparr>)"

definition db_updateContact ::
  "string \<Rightarrow> instant \<Rightarrow> nat \<Rightarrow> contact_entry list \<Rightarrow> store \<Rightarrow> (error + contact_view) \<times> store"
where
  "db_updateContact agentId now rid updates s =
     (case transport (Update ''crm_contacts'' (updateData_columns updates)) s of
        (ok, s') \<Rightarrow>
          if \<not> ok then (Inl (StoreError Unavailable), s')
          else
            (case undefined_column contact_table (updateData_columns updates) of
               Some col \<Rightarrow> (Inl (StoreError (UndefinedColumn col)), s')
             | None \<Rightarrow>
            (case filter (\<lambda>c. c_id c = rid \<and> c_agent_id c = agentId) (crm_contacts s') of
               [c] \<Rightarrow>
                 if c_stage_id (updateData now updates c) \<noteq> c_stage_id c \<and>
                    \<not> stage_exists s' (c_stage_id (updateData now updates c))
                 then (Inl (StoreError (ForeignKeyViolation ''stage_id'')), s')
                 else (Inr (with_stage s' (updateData now updates c)),
                       s'\<lparr>crm_contacts :=
                            map (\<lambda>x. if c_id x = rid \<and> c_agent_id x = agentId
                                     then updateData now updates x else x) (crm_contacts s')\<rparr>)
             | _ \<Rightarrow> (Inl (StoreError NoSingleRow), s'))))"

definition move_payload :: "instant \<Rightarrow> nat option \<Rightarrow> contact \<Rightarrow> contact" where
  "move_payload now stageId c =
     c\<lparr>c_stage_id := stageId, c_stage_entered_at := Some now, c_updated_at := now\<rparr>"

definition db_moveContactStage ::
  "string \<Rightarrow> instant \<Rightarrow> nat \<Rightarrow> nat option \<Rightarrow> store \<Rightarrow> (error + contact_view) \<times> store" where
  "db_moveContactStage agentId now rid stageId s =
     (case transport
             (Update ''crm_contacts'' [''stage_id'', ''stage_entered_at'', ''updated_at'']) s of
        (ok, s') \<Rightarrow>
          if \<not> ok then (Inl (StoreError Unavailable), s')
          else
            (case filter (\<lambda>c. c_id c = rid \<and> c_agent_id c = agentId) (crm_contacts s') of
               [c] \<Rightarrow>
                 if stageId \<noteq> c_stage_id c \<and> \<not> stage_exists s' stageId
                 then (Inl (StoreError (ForeignKeyViolation ''stage_id'')), s')
                 else (Inr (with_stage s' (move_payload now stageId c)),
                       s'\<lparr>crm_contacts :=
                            map (\<lambda>x. if c_id x = rid \<and> c_agent_id x = agentId
                                     then move_payload now stageId x else x) (crm_contacts s')\<rparr>)
             | _ \<Rightarrow> (Inl (StoreError NoSingleRow), s')))"

text \<open>
  \<^verbatim>\<open>contact_id integer references crm_contacts(id) on delete cascade\<close>: deleting a contact
  deletes the interactions and tasks that reference it.
\<close>

definition db_deleteContact :: "string \<Rightarrow> nat \<Rightarrow> store \<Rightarrow> (error + unit) \<times> store" where
  "db_deleteContact agentId rid s =
     (case transport (Delete ''crm_contacts'') s of
        (ok, s') \<Rightarrow>
          if \<not> ok then (Inl (StoreError Unavailable), s')
          else if list_ex (\<lambda>c. c_id c = rid \<and> c_agent_id c = agentId) (crm_contacts s')
          then (Inr (),
                s'\<lparr>crm_contacts :=
                     filter (\<lambda>c. \<not> (c_id c = rid \<and> c_agent_id c = agentId)) (crm_contacts s'),
                   crm_interactions :=
                     filter (\<lambda>i. i_contact_id i \<noteq> Some rid) (crm_interactions s'),
                   crm_tasks := filter (\<lambda>t. t_contact_id t \<noteq> Some rid) (crm_tasks s')\<rparr>)
          else (Inr (), s'))"


text \<open>
  \<^verbatim>\<open>searchContacts\<close> sends the pattern \<^verbatim>\<open>%query%\<close> to the store's \<^verbatim>\<open>ilike\<close> over four
  columns. The operator is the store's own and is a parameter here: \<open>ilike pattern text\<close>;
  a \<^verbatim>\<open>null\<close> column matches nothing.
\<close>

definition column_ilike :: "(string \<Rightarrow> string \<Rightarrow> bool) \<Rightarrow> string \<Rightarrow> string option \<Rightarrow> bool" where
  "column_ilike ilike pattern col = (case col of None \<Rightarrow> False | Some v \<Rightarrow> ilike pattern v)"

definition search_query ::
  "(string \<Rightarrow> string \<Rightarrow> bool) \<Rightarrow> string \<Rightarrow> string \<Rightarrow> nat option \<Rightarrow> contact list \<Rightarrow>
     contact list" where
  "search_query ilike agentId query limit rows =
     (let searchTerm = ''%'' @ query @ ''%'';
          q0 = filter (\<lambda>c. c_agent_id c = agentId) rows;
          q1 = filter (\<lambda>c. ilike searchTerm (c_name c) \<or>
                             column_ilike ilike searchTerm (c_email c) \<or>
                             column_ilike ilike searchTerm (c_company c) \<or>
                             column_ilike ilike searchTerm (c_phone c)) q0;
          q2 = sort_key (\<lambda>c. - int (c_updated_at c)) q1
      in if truthy_nat limit then take (the limit) q2 else q2)"

definition db_searchContacts ::
  "(string \<Rightarrow> string \<Rightarrow> bool) \<Rightarrow> string \<Rightarrow> string \<Rightarrow> nat option \<Rightarrow> store \<Rightarrow>
     (error + contact_view list) \<times> store" where
  "db_searchContacts ilike agentId query limit s =
     (case transport (Select ''crm_contacts'') s of
        (ok, s') \<Rightarrow>
          if \<not> ok then (Inl (StoreError Unavailable), s')
          else (Inr (map (with_stage s')
                       (search_query ilike agentId query limit (crm_contacts s'))), s'))"

section \<open>Interactions\<close>

text \<open>
  An interaction and a task are returned with the embedded resource
  \<^verbatim>\<open>crm_contacts(name, email, company)\<close> of the contact they reference.
\<close>

type_synonym contact_ref = "(string \<times> string option \<times> string option) option"

definition contact_of :: "store \<Rightarrow> nat option \<Rightarrow> contact_ref" where
  "contact_of s ref =
     (case ref of
        None \<Rightarrow> None
      | Some cid \<Rightarrow>
          map_option (\<lambda>c. (c_name c, c_email c, c_company c))
            (find (\<lambda>c. c_id c = cid) (crm_contacts s)))"

definition contact_exists :: "store \<Rightarrow> nat option \<Rightarrow> bool" where
  "contact_exists s ref =
     (case ref of None \<Rightarrow> True | Some cid \<Rightarrow> list_ex (\<lambda>c. c_id c = cid) (crm_contacts s))"

type_synonym interaction_view = "interaction \<times> contact_ref"

definition with_contact :: "store \<Rightarrow> interaction \<Rightarrow> interaction_view" where
  "with_contact s i = (i, contact_of s (i_contact_id i))"

record interaction_in =
  interaction_contactId :: "nat option"
  interaction_type :: "string option"
  interaction_subject :: "string option"
  interaction_content :: "string option"
  interaction_createdBy :: "string option"
  interaction_createdByType :: "string option"
  interaction_scheduledAt :: "instant option"
  interaction_completedAt :: "instant option"
  interaction_metadata :: "(string \<times> string) list option"

record interaction_options =
  ioptions_contactId :: "nat option"
  ioptions_type :: "string option"
  ioptions_limit :: "nat option"

definition interaction_query ::
  "string \<Rightarrow> interaction_options \<Rightarrow> interaction list \<Rightarrow> interaction list" where
  "interaction_query agentId options rows =
     (let q0 = filter (\<lambda>i. i_agent_id i = agentId) rows;
          q1 = (if truthy_nat (ioptions_contactId options)
                then filter (\<lambda>i. i_contact_id i = ioptions_contactId options) q0 else q0);
          q2 = (if truthy_str (ioptions_type options)
                then filter (\<lambda>i. Some (i_type i) = ioptions_type options) q1 else q1);
          q3 = sort_key (\<lambda>i. - int (i_created_at i)) q2
      in if truthy_nat (ioptions_limit options)
         then take (the (ioptions_limit options)) q3 else q3)"

definition db_listInteractions ::
  "string \<Rightarrow> interaction_options \<Rightarrow> store \<Rightarrow> (error + interaction_view list) \<times> store" where
  "db_listInteractions agentId options s =
     (case transport (Select ''crm_interactions'') s of
        (ok, s') \<Rightarrow>
          if \<not> ok then (Inl (StoreError Unavailable), s')
          else (Inr (map (with_contact s')
                       (interaction_query agentId options (crm_interactions s'))), s'))"

text \<open>The first request of \<^verbatim>\<open>addInteraction\<close>: the insert.\<close>

definition insert_interaction ::
  "string \<Rightarrow> instant \<Rightarrow> interaction_in \<Rightarrow> store \<Rightarrow> (error + interaction_view) \<times> store" where
  "insert_interaction agentId now interaction s =
     (case transport (Insert ''crm_interactions'') s of
        (ok, s') \<Rightarrow>
          if \<not> ok then (Inl (StoreError Unavailable), s')
          else
            (let s'' = s'\<lparr>interaction_seq := Suc (interaction_seq s')\<rparr> in
             case interaction_type interaction of
               None \<Rightarrow> (Inl (StoreError (NotNullViolation ''type'')), s'')
             | Some ty \<Rightarrow>
                 (case interaction_createdBy interaction of
                    None \<Rightarrow> (Inl (StoreError (NotNullViolation ''created_by'')), s'')
                  | Some by \<Rightarrow>
                      (let row =
                         \<lparr>i_id = interaction_seq s',
                          i_agent_id = agentId,
                          i_contact_id = interaction_contactId interaction,
                          i_type = ty,
                          i_subject = str_or_null (interaction_subject interaction),
                          i_content = str_or_null (interaction_content interaction),
                          i_created_by = by,
                          i_created_by_type =
                            (if truthy_str (interaction_createdByType interaction)
                             then the (interaction_createdByType interaction) else ''agent''),
                          i_scheduled_at = interaction_scheduledAt interaction,
                          i_completed_at = interaction_completedAt interaction,
                          i_metadata =
                            (case interaction_metadata interaction of
                               None \<Rightarrow> [] | Some m \<Rightarrow> m),
                          i_created_at = now\<rparr>
                       in if \<not> contact_exists s' (i_contact_id row)
                          then (Inl (StoreError (ForeignKeyViolation ''contact_id'')), s'')
                          else (Inr (with_contact s' row),
                                s''\<lparr>crm_interactions := crm_interactions s' @ [row]\<rparr>)))))"

text \<open>
  The second request of \<^verbatim>\<open>addInteraction\<close>: \<^verbatim>\<open>updateContact(interaction.contactId,
  { lastContactAt })\<close>. Without a contact id the filter \<^verbatim>\<open>eq('id', undefined)\<close> selects no
  row.
\<close>

definition touch_contact ::
  "string \<Rightarrow> instant \<Rightarrow> nat option \<Rightarrow> store \<Rightarrow> (error + contact_view) \<times> store" where
  "touch_contact agentId now contactId s =
     (case contactId of
        Some cid \<Rightarrow> db_updateContact agentId now cid [E_lastContactAt (Some now)] s
      | None \<Rightarrow>
          (case transport
                  (Update ''crm_contacts'' (updateData_columns [E_lastContactAt (Some now)])) s of
             (ok, s') \<Rightarrow>
               (Inl (StoreError (if ok then NoSingleRow else Unavailable)), s')))"

definition db_addInteraction ::
  "string \<Rightarrow> instant \<Rightarrow> interaction_in \<Rightarrow> store \<Rightarrow> (error + interaction_view) \<times> store" where
  "db_addInteraction agentId now interaction s =
     (case insert_interaction agentId now interaction s of
        (Inl e, s') \<Rightarrow> (Inl e, s')
      | (Inr data, s') \<Rightarrow>
          (case touch_contact agentId now (interaction_contactId interaction) s' of
             (Inl e, s'') \<Rightarrow> (Inl e, s'')
           | (Inr _, s'') \<Rightarrow> (Inr data, s'')))"

datatype interaction_entry =
    I_type string
  | I_subject "string option"
  | I_content "string option"
  | I_scheduledAt "instant option"
  | I_completedAt "instant option"
  | I_metadata "(string \<times> string) list"
  | I_other string

fun interaction_fieldMap :: "interaction_entry \<Rightarrow> string option" where
  "interaction_fieldMap (I_type _) = Some ''type''"
| "interaction_fieldMap (I_subject _) = Some ''subject''"
| "interaction_fieldMap (I_content _) = Some ''content''"
| "interaction_fieldMap (I_scheduledAt _) = Some ''scheduled_at''"
| "interaction_fieldMap (I_completedAt _) = Some ''completed_at''"
| "interaction_fieldMap (I_metadata _) = Some ''metadata''"
| "interaction_fieldMap (I_other key) = inherited key"

fun interaction_assign :: "interaction_entry \<Rightarrow> interaction \<Rightarrow> interaction" where
  "interaction_assign (I_type v) i = i\<lparr>i_type := v\<rparr>"
| "interaction_assign (I_subject v) i = i\<lparr>i_subject := v\<rparr>"
| "interaction_assign (I_content v) i = i\<lparr>i_content := v\<rparr>"
| "interaction_assign (I_scheduledAt v) i = i\<lparr>i_scheduled_at := v\<rparr>"
| "interaction_assign (I_completedAt v) i = i\<lparr>i_completed_at := v\<rparr>"
| "interaction_assign (I_metadata v) i = i\<lparr>i_metadata := v\<rparr>"
| "interaction_assign (I_other _) i = i"

definition interaction_table :: "string list" where
  "interaction_table =
     [''id'', ''agent_id'', ''contact_id'', ''type'', ''subject'', ''content'', ''created_by'',
      ''created_by_type'', ''scheduled_at'', ''completed_at'', ''metadata'', ''created_at'']"

definition db_updateInteraction ::
  "string \<Rightarrow> nat \<Rightarrow> interaction_entry list \<Rightarrow> store \<Rightarrow> (error + interaction_view) \<times> store"
where
  "db_updateInteraction agentId rid updates s =
     (case transport
             (Update ''crm_interactions'' (List.map_filter interaction_fieldMap updates)) s of
        (ok, s') \<Rightarrow>
          if \<not> ok then (Inl (StoreError Unavailable), s')
          else
            (case undefined_column interaction_table
                    (List.map_filter interaction_fieldMap updates) of
               Some col \<Rightarrow> (Inl (StoreError (UndefinedColumn col)), s')
             | None \<Rightarrow>
            (case filter (\<lambda>i. i_id i = rid \<and> i_agent_id i = agentId) (crm_interactions s') of
               [i] \<Rightarrow>
                 (Inr (with_contact s' (fold interaction_assign updates i)),
                  s'\<lparr>crm_interactions :=
                       map (\<lambda>x. if i_id x = rid \<and> i_agent_id x = agentId
                                then fold interaction_assign updates x else x)
                         (crm_interactions s')\<rparr>)
             | _ \<Rightarrow> (Inl (StoreError NoSingleRow), s'))))"

definition db_deleteInteraction :: "string \<Rightarrow> nat \<Rightarrow> store \<Rightarrow> (error + unit) \<times> store" where
  "db_deleteInteraction agentId rid s =
     (case transport (Delete ''crm_interactions'') s of
        (ok, s') \<Rightarrow>
          if \<not> ok then (Inl (StoreError Unavailable), s')
          else (Inr (),
                s'\<lparr>crm_interactions :=
                     filter (\<lambda>i. \<not> (i_id i = rid \<and> i_agent_id i = agentId))
                       (crm_interactions s')\<rparr>))"


section \<open>Tasks\<close>

type_synonym task_view = "task \<times> contact_ref"

definition task_with_contact :: "store \<Rightarrow> task \<Rightarrow> task_view" where
  "task_with_contact s t = (t, contact_of s (t_contact_id t))"

record task_in =
  task_contactId :: "nat option"
  task_title :: "string option"
  task_description :: "string option"
  task_dueAt :: "instant option"
  task_assignedTo :: "string option"
  task_priority :: "string option"

record task_options =
  toptions_contactId :: "nat option"
  toptions_completed :: "bool option"
  toptions_assignedTo :: "string option"
  toptions_priority :: "string option"
  toptions_dueBefore :: "instant option"
  toptions_limit :: "nat option"

text \<open>
  \<^verbatim>\<open>.order('completed').order('due_at', { nullsFirst: false })\<close>: open tasks first, then by
  due date with the tasks without one last.
\<close>

definition task_order :: "task \<Rightarrow> bool \<times> bool \<times> nat" where
  "task_order t =
     (t_completed t, t_due_at t = None, case t_due_at t of None \<Rightarrow> 0 | Some d \<Rightarrow> d)"

definition due_by :: "instant \<Rightarrow> task \<Rightarrow> bool" where
  "due_by limit t = (case t_due_at t of None \<Rightarrow> False | Some d \<Rightarrow> d \<le> limit)"

definition task_query :: "string \<Rightarrow> task_options \<Rightarrow> task list \<Rightarrow> task list" where
  "task_query agentId options rows =
     (let q0 = filter (\<lambda>t. t_agent_id t = agentId) rows;
          q1 = (if truthy_nat (toptions_contactId options)
                then filter (\<lambda>t. t_contact_id t = toptions_contactId options) q0 else q0);
          q2 = (case toptions_completed options of
                  None \<Rightarrow> q1
                | Some b \<Rightarrow> filter (\<lambda>t. t_completed t = b) q1);
          q3 = (if truthy_str (toptions_assignedTo options)
                then filter (\<lambda>t. t_assigned_to t = toptions_assignedTo options) q2
                else q2);
          q4 = (if truthy_str (toptions_priority options)
                then filter (\<lambda>t. Some (t_priority t) = toptions_priority options) q3
                else q3);
          q5 = (case toptions_dueBefore options of
                  None \<Rightarrow> q4
                | Some d \<Rightarrow> filter (due_by d) q4);
          q6 = sort_key task_order q5
      in if truthy_nat (toptions_limit options)
         then take (the (toptions_limit options)) q6 else q6)"

definition db_listTasks ::
  "string \<Rightarrow> task_options \<Rightarrow> store \<Rightarrow> (error + task_view list) \<times> store" where
  "db_listTasks agentId options s =
     (case transport (Select ''crm_tasks'') s of
        (ok, s') \<Rightarrow>
          if \<not> ok then (Inl (StoreError Unavailable), s')
          else (Inr (map (task_with_contact s')
                       (task_query agentId options (crm_tasks s'))), s'))"

definition db_addTask ::
  "string \<Rightarrow> instant \<Rightarrow> task_in \<Rightarrow> store \<Rightarrow> (error + task_view) \<times> store" where
  "db_addTask agentId now task s =
     (case transport (Insert ''crm_tasks'') s of
        (ok, s') \<Rightarrow>
          if \<not> ok then (Inl (StoreError Unavailable), s')
          else
            (let s'' = s'\<lparr>task_seq := Suc (task_seq s')\<rparr> in
             case task_title task of
               None \<Rightarrow> (Inl (StoreError (NotNullViolation ''title'')), s'')
             | Some title \<Rightarrow>
                 (let row =
                    \<lparr>t_id = task_seq s',
                     t_agent_id = agentId,
                     t_contact_id = nat_or_null (task_contactId task),
                     t_title = title,
                     t_description = str_or_null (task_description task),
                     t_due_at = task_dueAt task,
                     t_assigned_to = str_or_null (task_assignedTo task),
                     t_priority =
                       (if truthy_str (task_priority task)
                        then the (task_priority task) else ''medium''),
                     t_completed = False,
                     t_completed_at = None,
                     t_created_at = now\<rparr>
                  in if \<not> contact_exists s' (t_contact_id row)
                     then (Inl (StoreError (ForeignKeyViolation ''contact_id'')), s'')
                     else (Inr (task_with_contact s' row),
                           s''\<lparr>crm_tasks := crm_tasks s' @ [row]\<rparr>))))"

text \<open>
  \<^verbatim>\<open>completeTask\<close>, \<^verbatim>\<open>uncompleteTask\<close> and \<^verbatim>\<open>updateTask\<close> send one update of the row
  with the given id and the bound agent id.
\<close>

definition task_table :: "string list" where
  "task_table =
     [''id'', ''agent_id'', ''contact_id'', ''title'', ''description'', ''due_at'',
      ''assigned_to'', ''priority'', ''completed'', ''completed_at'', ''created_at'']"

definition update_task ::
  "string \<Rightarrow> nat \<Rightarrow> string list \<Rightarrow> (task \<Rightarrow> task) \<Rightarrow> store \<Rightarrow> (error + task_view) \<times> store"
where
  "update_task agentId rid columns payload s =
     (case transport (Update ''crm_tasks'' columns) s of
        (ok, s') \<Rightarrow>
          if \<not> ok then (Inl (StoreError Unavailable), s')
          else
            (case undefined_column task_table columns of
               Some col \<Rightarrow> (Inl (StoreError (UndefinedColumn col)), s')
             | None \<Rightarrow>
            (case filter (\<lambda>t. t_id t = rid \<and> t_agent_id t = agentId) (crm_tasks s') of
               [t] \<Rightarrow>
                 if t_contact_id (payload t) \<noteq> t_contact_id t \<and>
                    \<not> contact_exists s' (t_contact_id (payload t))
                 then (Inl (StoreError (ForeignKeyViolation ''contact_id'')), s')
                 else (Inr (task_with_contact s' (payload t)),
                       s'\<lparr>crm_tasks :=
                            map (\<lambda>x. if t_id x = rid \<and> t_agent_id x = agentId
                                     then payload x else x) (crm_tasks s')\<rparr>)
             | _ \<Rightarrow> (Inl (StoreError NoSingleRow), s'))))"

definition db_completeTask ::
  "string \<Rightarrow> instant \<Rightarrow> nat \<Rightarrow> store \<Rightarrow> (error + task_view) \<times> store" where
  "db_completeTask agentId now rid s =
     update_task agentId rid [''completed'', ''completed_at'']
       (\<lambda>t. t\<lparr>t_completed := True, t_completed_at := Some now\<rparr>) s"

definition db_uncompleteTask :: "string \<Rightarrow> nat \<Rightarrow> store \<Rightarrow> (error + task_view) \<times> store" where
  "db_uncompleteTask agentId rid s =
     update_task agentId rid [''completed'', ''completed_at'']
       (\<lambda>t. t\<lparr>t_completed := False, t_completed_at := None\<rparr>) s"

datatype task_entry =
    T_title string
  | T_description "string option"
  | T_dueAt "instant option"
  | T_assignedTo "string option"
  | T_priority string
  | T_contactId "nat option"
  | T_other string

fun task_fieldMap :: "task_entry \<Rightarrow> string option" where
  "task_fieldMap (T_title _) = Some ''title''"
| "task_fieldMap (T_description _) = Some ''description''"
| "task_fieldMap (T_dueAt _) = Some ''due_at''"
| "task_fieldMap (T_assignedTo _) = Some ''assigned_to''"
| "task_fieldMap (T_priority _) = Some ''priority''"
| "task_fieldMap (T_contactId _) = Some ''contact_id''"
| "task_fieldMap (T_other key) = inherited key"

fun task_assign :: "task_entry \<Rightarrow> task \<Rightarrow> task" where
  "task_assign (T_title v) t = t\<lparr>t_title := v\<rparr>"
| "task_assign (T_description v) t = t\<lparr>t_description := v\<rparr>"
| "task_assign (T_dueAt v) t = t\<lparr>t_due_at := v\<rparr>"
| "task_assign (T_assignedTo v) t = t\<lparr>t_assigned_to := v\<rparr>"
| "task_assign (T_priority v) t = t\<lparr>t_priority := v\<rparr>"
| "task_assign (T_contactId v) t = t\<lparr>t_contact_id := v\<rparr>"
| "task_assign (T_other _) t = t"

definition db_updateTask ::
  "string \<Rightarrow> nat \<Rightarrow> task_entry list \<Rightarrow> store \<Rightarrow> (error + task_view) \<times> store" where
  "db_updateTask agentId rid updates s =
     update_task agentId rid (List.map_filter task_fieldMap updates)
       (fold task_assign updates) s"

definition db_deleteTask :: "string \<Rightarrow> nat \<Rightarrow> store \<Rightarrow> (error + unit) \<times> store" where
  "db_deleteTask agentId rid s =
     (case transport (Delete ''crm_tasks'') s of
        (ok, s') \<Rightarrow>
          if \<not> ok then (Inl (StoreError Unavailable), s')
          else (Inr (),
                s'\<lparr>crm_tasks :=
                     filter (\<lambda>t. \<not> (t_id t = rid \<and> t_agent_id t = agentId)) (crm_tasks s')\<rparr>))"

definition overdue :: "instant \<Rightarrow> task \<Rightarrow> bool" where
  "overdue now t = (case t_due_at t of None \<Rightarrow> False | Some d \<Rightarrow> d < now)"

definition overdue_query :: "string \<Rightarrow> instant \<Rightarrow> task list \<Rightarrow> task list" where
  "overdue_query agentId now rows =
     sort_key (\<lambda>t. case t_due_at t of None \<Rightarrow> 0 | Some d \<Rightarrow> d)
       (filter (\<lambda>t. t_agent_id t = agentId \<and> \<not> t_completed t \<and> overdue now t) rows)"

definition db_getOverdueTask ::
  "string \<Rightarrow> instant \<Rightarrow> store \<Rightarrow> (error + task_view list) \<times> store" where
  "db_getOverdueTask agentId now s =
     (case transport (Select ''crm_tasks'') s of
        (ok, s') \<Rightarrow>
          if \<not> ok then (Inl (StoreError Unavailable), s')
          else (Inr (map (task_with_contact s') (overdue_query agentId now (crm_tasks s'))), s'))"

section \<open>Statistics\<close>

text \<open>
  \<^verbatim>\<open>parseFloat(c.deal_value) || 0\<close>: a \<^verbatim>\<open>null\<close> deal value counts as zero. The sums are
  taken here over the exact values of the \<^verbatim>\<open>decimal\<close> column. \<^verbatim>\<open>db.js\<close> adds doubles, from
  the left and from zero, separately for each bucket and for the total: its sums are these
  exact sums as long as no addition rounds, and can differ from them, and a total from the
  sum of its buckets, in the last digits otherwise.
\<close>

definition deal :: "contact \<Rightarrow> rat" where
  "deal c = (case c_deal_value c of None \<Rightarrow> 0 | Some v \<Rightarrow> v)"

definition sum_deals :: "contact list \<Rightarrow> rat" where
  "sum_deals cs = foldl (\<lambda>sum c. sum + deal c) 0 cs"

record bucket =
  b_id :: "nat option"
  b_name :: string
  b_color :: "string option"
  b_position :: int
  b_count :: nat
  b_value :: rat

record pipeline_stats =
  stages :: "bucket list"
  totalContacts :: nat
  totalValue :: rat

definition stage_bucket :: "contact list \<Rightarrow> stage \<Rightarrow> bucket" where
  "stage_bucket contacts stage =
     (let stageContacts = filter (\<lambda>c. c_stage_id c = Some (st_id stage)) contacts
      in \<lparr>b_id = Some (st_id stage), b_name = st_name stage, b_color = st_color stage,
          b_position = st_position stage, b_count = length stageContacts,
          b_value = sum_deals stageContacts\<rparr>)"

definition db_getPipelineStats :: "string \<Rightarrow> store \<Rightarrow> (error + pipeline_stats) \<times> store" where
  "db_getPipelineStats agentId s =
     (case db_listStages agentId s of
        (Inl e, s1) \<Rightarrow> (Inl e, s1)
      | (Inr stage_rows, s1) \<Rightarrow>
          (case transport (Select ''crm_contacts'') s1 of
             (ok, s2) \<Rightarrow>
               if \<not> ok then (Inl (StoreError Unavailable), s2)
               else
                 (let contacts = filter (\<lambda>c. c_agent_id c = agentId \<and> c_is_active c)
                                   (crm_contacts s2);
                      pipeline = map (stage_bucket contacts) stage_rows;
                      unstagedContacts = filter (\<lambda>c. \<not> truthy_nat (c_stage_id c)) contacts
                  in (Inr \<lparr>stages =
                             (if length unstagedContacts > 0
                              then \<lparr>b_id = None, b_name = ''Unstaged'',
                                    b_color = Some ''#888888'', b_position = 0,
                                    b_count = length unstagedContacts,
                                    b_value = sum_deals unstagedContacts\<rparr> # pipeline
                              else pipeline),
                           totalContacts = length contacts,
                           totalValue = sum_deals contacts\<rparr>, s2))))"

text \<open>
  \<^verbatim>\<open>getActivityStats\<close> sends three selects and reads \<^verbatim>\<open>data || []\<close> from each, so a failed
  one counts as empty. The cutoff is \<open>days\<close> days of 86400000 milliseconds before \<open>now\<close>.
\<close>

record activity_stats =
  period_days :: int
  interactions_total :: nat
  interactions_byType :: "(string \<times> nat) list"
  tasks_created :: nat
  tasks_completed :: nat
  contacts_created :: nat
  contacts_active :: nat

fun count_type :: "string \<Rightarrow> (string \<times> nat) list \<Rightarrow> (string \<times> nat) list" where
  "count_type ty [] = [(ty, 1)]"
| "count_type ty ((k, n) # rest) =
     (if k = ty then (k, n + 1) # rest else (k, n) # count_type ty rest)"

definition since :: "instant \<Rightarrow> int \<Rightarrow> instant \<Rightarrow> bool" where
  "since now days created = (int now - days * 86400000 \<le> int created)"

definition db_getActivityStats ::
  "string \<Rightarrow> instant \<Rightarrow> int \<Rightarrow> store \<Rightarrow> (error + activity_stats) \<times> store" where
  "db_getActivityStats agentId now days s =
     (case transport (Select ''crm_interactions'') s of
        (ok1, s1) \<Rightarrow>
     (case transport (Select ''crm_tasks'') s1 of
        (ok2, s2) \<Rightarrow>
     (case transport (Select ''crm_contacts'') s2 of
        (ok3, s3) \<Rightarrow>
          (let interactions =
                 (if ok1
                  then filter (\<lambda>i. i_agent_id i = agentId \<and> since now days (i_created_at i))
                         (crm_interactions s3)
                  else []);
               tasks =
                 (if ok2
                  then filter (\<lambda>t. t_agent_id t = agentId \<and> since now days (t_created_at t))
                         (crm_tasks s3)
                  else []);
               contacts =
                 (if ok3
                  then filter (\<lambda>c. c_agent_id c = agentId \<and> since now days (c_created_at c))
                         (crm_contacts s3)
                  else [])
           in (Inr \<lparr>period_days = days,
                    interactions_total = length interactions,
                    interactions_byType = fold (\<lambda>i. count_type (i_type i)) interactions [],
                    tasks_created = length tasks,
                    tasks_completed = length (filter t_completed tasks),
                    contacts_created = length contacts,
                    contacts_active = length (filter c_is_active contacts)\<rparr>, s3)))))"

section \<open>The facade \<^verbatim>\<open>CRM\<close>\<close>

definition crm_createContact ::
  "string \<Rightarrow> instant \<Rightarrow> contact_in \<Rightarrow> store \<Rightarrow> (error + contact_view) \<times> store" where
  "crm_createContact agentId now contact s =
     (if \<not> truthy_str (contact_name contact)
      then (Inl (Failure ''Contact name is required''), s)
      else db_createContact agentId now contact s)"

definition crm_updateContact ::
  "string \<Rightarrow> instant \<Rightarrow> nat \<Rightarrow> contact_entry list \<Rightarrow> store \<Rightarrow> (error + contact_view) \<times> store"
where
  "crm_updateContact agentId now rid updates s = db_updateContact agentId now rid updates s"

definition moveStage ::
  "string \<Rightarrow> instant \<Rightarrow> nat \<Rightarrow> nat option \<Rightarrow> store \<Rightarrow> (error + contact_view) \<times> store" where
  "moveStage agentId now rid stageId s = db_moveContactStage agentId now rid stageId s"

definition markLost ::
  "string \<Rightarrow> instant \<Rightarrow> nat \<Rightarrow> string option \<Rightarrow> store \<Rightarrow> (error + contact_view) \<times> store" where
  "markLost agentId now rid reason s =
     db_updateContact agentId now rid [E_isActive False, E_lostReason reason] s"

definition reactivate ::
  "string \<Rightarrow> instant \<Rightarrow> nat \<Rightarrow> store \<Rightarrow> (error + contact_view) \<times> store" where
  "reactivate agentId now rid s =
     db_updateContact agentId now rid [E_isActive True, E_lostReason None] s"

text \<open>\<^verbatim>\<open>query.trim().length === 0\<close>, over the ASCII white space.\<close>

definition blank :: "string \<Rightarrow> bool" where
  "blank q = list_all (\<lambda>c. c \<in> set [CHR '' '', CHR 0x09, CHR 0x0A, CHR 0x0B, CHR 0x0C, CHR 0x0D]) q"

definition crm_searchContacts ::
  "(string \<Rightarrow> string \<Rightarrow> bool) \<Rightarrow> string \<Rightarrow> string option \<Rightarrow> nat option \<Rightarrow> store \<Rightarrow>
     (error + contact_view list) \<times> store" where
  "crm_searchContacts ilike agentId query limit s =
     (case query of
        None \<Rightarrow> (Inr [], s)
      | Some q \<Rightarrow> if blank q then (Inr [], s) else db_searchContacts ilike agentId q limit s)"

definition crm_addInteraction ::
  "string \<Rightarrow> instant \<Rightarrow> interaction_in \<Rightarrow> store \<Rightarrow> (error + interaction_view) \<times> store" where
  "crm_addInteraction agentId now interaction s =
     (if \<not> truthy_nat (interaction_contactId interaction)
      then (Inl (Failure ''Contact ID is required''), s)
      else if \<not> truthy_str (interaction_type interaction)
      then (Inl (Failure ''Interaction type is required''), s)
      else if \<not> truthy_str (interaction_createdBy interaction)
      then (Inl (Failure ''Created by is required''), s)
      else db_addInteraction agentId now interaction s)"

definition crm_addTask ::
  "string \<Rightarrow> instant \<Rightarrow> task_in \<Rightarrow> store \<Rightarrow> (error + task_view) \<times> store" where
  "crm_addTask agentId now task s =
     (if \<not> truthy_str (task_title task) then (Inl (Failure ''Task title is required''), s)
      else db_addTask agentId now task s)"

definition crm_completeTask ::
  "string \<Rightarrow> instant \<Rightarrow> nat \<Rightarrow> store \<Rightarrow> (error + task_view) \<times> store" where
  "crm_completeTask agentId now rid s = db_completeTask agentId now rid s"

definition crm_uncompleteTask :: "string \<Rightarrow> nat \<Rightarrow> store \<Rightarrow> (error + task_view) \<times> store" where
  "crm_uncompleteTask agentId rid s = db_uncompleteTask agentId rid s"

definition crm_getPipelineStats :: "string \<Rightarrow> store \<Rightarrow> (error + pipeline_stats) \<times> store" where
  "crm_getPipelineStats agentId s = db_getPipelineStats agentId s"


section \<open>The empty argument object\<close>

text \<open>The object \<^verbatim>\<open>{}\<close> at each argument type: every field absent.\<close>

definition empty_contact :: contact_in where
  "empty_contact =
     \<lparr>contact_name = None, contact_email = None, contact_phone = None, contact_company = None,
      contact_role = None, contact_stageId = None, contact_source = None,
      contact_sourceDetail = None, contact_assignedTo = None, contact_tags = None,
      contact_customFields = None, contact_dealValue = None, contact_currency = None,
      contact_isActive = None\<rparr>"

definition empty_options :: contact_options where
  "empty_options =
     \<lparr>options_stageId = None, options_isActive = None, options_assignedTo = None,
      options_tags = None, options_limit = None, options_offset = None\<rparr>"

definition empty_interaction :: interaction_in where
  "empty_interaction =
     \<lparr>interaction_contactId = None, interaction_type = None, interaction_subject = None,
      interaction_content = None, interaction_createdBy = None,
      interaction_createdByType = None, interaction_scheduledAt = None,
      interaction_completedAt = None, interaction_metadata = None\<rparr>"

definition empty_task :: task_in where
  "empty_task =
     \<lparr>task_contactId = None, task_title = None, task_description = None, task_dueAt = None,
      task_assignedTo = None, task_priority = None\<rparr>"

section \<open>A scenario\<close>

text \<open>
  The store after the calls of the scenario of the specification on the empty store: tenant
  \<^verbatim>\<open>t1\<close> creates the stages Lead and Won, then the contacts A in Lead with deal value 100,
  B in Won with 50, C without a stage with 25, and D in Lead, inactive, with 1000.
\<close>

definition scenario :: store where
  "scenario =
     (let s1 = snd (crm_createStage ''t1'' 1
                  \<lparr>stage_name = Some ''Lead'', stage_position = None, stage_color = None\<rparr>
                  empty_store);
          s2 = snd (crm_createStage ''t1'' 2
                  \<lparr>stage_name = Some ''Won'', stage_position = None, stage_color = None\<rparr> s1);
          s3 = snd (crm_createContact ''t1'' 3
                  (empty_contact\<lparr>contact_name := Some ''A'', contact_stageId := Some 1,
                     contact_dealValue := Some 100\<rparr>) s2);
          s4 = snd (crm_createContact ''t1'' 4
                  (empty_contact\<lparr>contact_name := Some ''B'', contact_stageId := Some 2,
                     contact_dealValue := Some 50\<rparr>) s3);
          s5 = snd (crm_createContact ''t1'' 5
                  (empty_contact\<lparr>contact_name := Some ''C'', contact_dealValue := Some 25\<rparr>) s4);
          s6 = snd (crm_createContact ''t1'' 6
                  (empty_contact\<lparr>contact_name := Some ''D'', contact_stageId := Some 1,
                     contact_dealValue := Some 1000, contact_isActive := Some False\<rparr>) s5)
      in s6)"

section \<open>Notions used in the statements\<close>

text \<open>
  The stage row after a run of position updates \<open>(id, position)\<close> sent for one agent, the
  later update of a stage winning.
\<close>

definition moved :: "string \<Rightarrow> (nat \<times> int) list \<Rightarrow> stage \<Rightarrow> stage" where
  "moved a ups r =
     (if st_agent_id r = a
      then (case map_of (rev ups) (st_id r) of None \<Rightarrow> r | Some p \<Rightarrow> r\<lparr>st_position := p\<rparr>)
      else r)"



text \<open>
  Deal values that are whole numbers with absolute values adding up to at most two to the power 53:
  every partial sum of such values is a whole number of that size, which a double holds
  exactly, so the sums of \<^verbatim>\<open>getPipelineStats\<close> in doubles are the exact sums.
\<close>

definition whole_amounts :: "contact list \<Rightarrow> bool" where
  "whole_amounts cs =
     (list_all (\<lambda>c. deal c = of_int \<lfloor>deal c\<rfloor>) cs \<and>
      sum_list (map (\<lambda>c. \<bar>deal c\<bar>) cs) \<le> 2 ^ 53)"


section \<open>Tenants and the rows they own\<close>

text \<open>
  The store as one tenant sees it keeps the rows stamped with its agent id; the rows of the
  others are what is left. An operation run by tenant \<open>a\<close> is isolated at a store when it
  returns, and does to the rows of \<open>a\<close>, what it would on the store holding the rows of \<open>a\<close>
  alone, and leaves the rows of every other tenant as they were. The serial counters, the
  schedule of the transport and the trace of the requests belong to no tenant and are the
  same in both stores: the id an insert hands out does depend on the inserts of the other
  tenants.
\<close>

definition own :: "string \<Rightarrow> store \<Rightarrow> store" where
  "own a s =
     s\<lparr>crm_stages := filter (\<lambda>r. st_agent_id r = a) (crm_stages s),
       crm_contacts := filter (\<lambda>c. c_agent_id c = a) (crm_contacts s),
       crm_interactions := filter (\<lambda>i. i_agent_id i = a) (crm_interactions s),
       crm_tasks := filter (\<lambda>t. t_agent_id t = a) (crm_tasks s)\<rparr>"

definition others ::
  "string \<Rightarrow> store \<Rightarrow> stage list \<times> contact list \<times> interaction list \<times> task list" where
  "others a s =
     (filter (\<lambda>r. st_agent_id r \<noteq> a) (crm_stages s),
      filter (\<lambda>c. c_agent_id c \<noteq> a) (crm_contacts s),
      filter (\<lambda>i. i_agent_id i \<noteq> a) (crm_interactions s),
      filter (\<lambda>t. t_agent_id t \<noteq> a) (crm_tasks s))"

definition isolated :: "string \<Rightarrow> (store \<Rightarrow> ('e + 'r) \<times> store) \<Rightarrow> store \<Rightarrow> bool" where
  "isolated a f s =
     (fst (f s) = fst (f (own a s)) \<and>
      own a (snd (f s)) = snd (f (own a s)) \<and>
      others a (snd (f s)) = others a s)"

text \<open>
  A reference stays within tenant \<open>a\<close> when no row of another tenant has the referenced id.
  A store is sealed when every reference it holds stays within the tenant of the row that
  holds it.
\<close>

definition stage_ref_within :: "string \<Rightarrow> store \<Rightarrow> nat option \<Rightarrow> bool" where
  "stage_ref_within a s ref =
     (\<forall>r\<in>set (crm_stages s). Some (st_id r) = ref \<longrightarrow> st_agent_id r = a)"

definition contact_ref_within :: "string \<Rightarrow> store \<Rightarrow> nat option \<Rightarrow> bool" where
  "contact_ref_within a s ref =
     (\<forall>c\<in>set (crm_contacts s). Some (c_id c) = ref \<longrightarrow> c_agent_id c = a)"

definition sealed :: "store \<Rightarrow> bool" where
  "sealed s =
     ((\<forall>c\<in>set (crm_contacts s). stage_ref_within (c_agent_id c) s (c_stage_id c)) \<and>
      (\<forall>i\<in>set (crm_interactions s). contact_ref_within (i_agent_id i) s (i_contact_id i)) \<and>
      (\<forall>t\<in>set (crm_tasks s). contact_ref_within (t_agent_id t) s (t_contact_id t)))"


section \<open>The transport and the stage updates\<close>

lemma transport_ok: "outages s = [] \<Longrightarrow> transport r s = (True, s\<lparr>requests := requests s @ [r]\<rparr>)"
  by (simp add: transport_def)

lemma transport_tables:
  "transport r s = (ok, s') \<Longrightarrow>
     crm_stages s' = crm_stages s \<and> crm_contacts s' = crm_contacts s \<and>
     crm_interactions s' = crm_interactions s \<and> crm_tasks s' = crm_tasks s \<and>
     stage_seq s' = stage_seq s \<and> contact_seq s' = contact_seq s \<and>
     interaction_seq s' = interaction_seq s \<and> task_seq s' = task_seq s \<and>
     requests s' = requests s @ [r]"
  by (auto simp: transport_def split: list.splits)

lemma moved_Nil: "moved a [] r = r"
  by (simp add: moved_def)

lemma moved_keys: "st_id (moved a ups r) = st_id r" "st_agent_id (moved a ups r) = st_agent_id r"
  by (auto simp: moved_def split: option.splits)

lemma position_column: "undefined_column stage_table [''position''] = None"
  by (simp add: undefined_column_def stage_table_def)

lemma db_updateStage_position:
  assumes "db_updateStage a i [S_position p] s = (Inr r, s')"
  shows "crm_stages s' = map (moved a [(i, p)]) (crm_stages s)"
    and "length (filter (\<lambda>r. st_id r = i \<and> st_agent_id r = a) (crm_stages s)) = 1"
    and "crm_contacts s' = crm_contacts s"
proof -
  obtain ok s1 where t: "transport (Update ''crm_stages'' [''position'']) s = (ok, s1)"
    by (cases "transport (Update ''crm_stages'' [''position'']) s") auto
  note tt = transport_tables [OF t]
  from assms t have ok: ok
    by (auto simp: db_updateStage_def split: if_splits)
  from assms t ok obtain x where x: "filter (\<lambda>r. st_id r = i \<and> st_agent_id r = a) (crm_stages s1) = [x]"
    by (auto simp: db_updateStage_def position_column split: list.splits)
  then have "x \<in> set (filter (\<lambda>r. st_id r = i \<and> st_agent_id r = a) (crm_stages s1))" by simp
  then have xi: "st_id x = i" by simp
  from tt x show "length (filter (\<lambda>r. st_id r = i \<and> st_agent_id r = a) (crm_stages s)) = 1"
    by simp
  from assms t ok x xi have "s' = s1\<lparr>crm_stages := map (\<lambda>x. if st_id x = i \<and> st_agent_id x = a
       then x\<lparr>st_position := p\<rparr> else x) (crm_stages s1)\<rparr>"
    by (auto simp: db_updateStage_def position_column)
  with tt show "crm_stages s' = map (moved a [(i, p)]) (crm_stages s)" "crm_contacts s' = crm_contacts s"
    by (auto simp: moved_def)
qed

lemma moved_Cons: "moved a ups (moved a [(i, p)] r) = moved a ((i, p) # ups) r"
  by (auto simp: moved_def map_add_def split: option.splits)

lemma reorder_loop_effect:
  "reorder_loop a ups s = (Inr u, s') \<Longrightarrow>
     crm_stages s' = map (moved a ups) (crm_stages s) \<and>
     (\<forall>(i, p) \<in> set ups. length (filter (\<lambda>r. st_id r = i \<and> st_agent_id r = a) (crm_stages s)) = 1)"
proof (induction ups arbitrary: s)
  case Nil
  then show ?case by (simp add: moved_Nil)
next
  case (Cons ip ups)
  obtain i p where ip: "ip = (i, p)" by (cases ip)
  from Cons.prems ip obtain r s1 where
    u: "db_updateStage a i [S_position p] s = (Inr r, s1)"
    and l: "reorder_loop a ups s1 = (Inr u, s')"
    by (auto split: prod.splits sum.splits)
  note e = db_updateStage_position [OF u]
  note ih = Cons.IH [OF l]
  have keep: "filter (\<lambda>r. st_id r = j \<and> st_agent_id r = a) (map (moved a [(i, p)]) xs) =
      map (moved a [(i, p)]) (filter (\<lambda>r. st_id r = j \<and> st_agent_id r = a) xs)" for j xs
    by (induction xs) (auto simp: moved_keys)
  from ih e show ?case
    by (auto simp: ip moved_Cons keep)
qed


lemma distinct_if_single:
  "(\<forall>x\<in>set xs. length (filter (\<lambda>y. y = x) xs) = 1) \<Longrightarrow> distinct xs"
proof (induction xs)
  case Nil
  then show ?case by simp
next
  case (Cons a xs)
  from Cons.prems have "length (filter (\<lambda>y. y = a) (a # xs)) = 1" by simp
  then have a: "a \<notin> set xs" by (auto simp: filter_empty_conv)
  have "\<forall>x\<in>set xs. length (filter (\<lambda>y. y = x) xs) = 1"
  proof
    fix x assume x: "x \<in> set xs"
    with a have "x \<noteq> a" by auto
    moreover from Cons.prems x have "length (filter (\<lambda>y. y = x) (a # xs)) = 1" by simp
    ultimately show "length (filter (\<lambda>y. y = x) xs) = 1" by simp
  qed
  with Cons.IH a show ?case by simp
qed

lemma reorder_updates_ids: "map fst (reorder_updates ids) = ids"
proof -
  have "fst \<circ> (\<lambda>(index, rid). (rid, int index + 1)) = (snd :: nat \<times> nat \<Rightarrow> nat)"
    by (auto simp: fun_eq_iff)
  then show ?thesis by (simp add: reorder_updates_def)
qed

lemma reorder_updates_lookup:
  assumes "distinct ids" "k < length ids"
  shows "map_of (rev (reorder_updates ids)) (ids ! k) = Some (int k + 1)"
proof -
  note fst = reorder_updates_ids [of ids]
  have "(ids ! k, int k + 1) \<in> set (reorder_updates ids)"
    using assms(2) by (force simp: reorder_updates_def in_set_enumerate_eq)
  moreover have "distinct (map fst (rev (reorder_updates ids)))"
    using assms(1) fst by (simp add: rev_map [symmetric])
  ultimately show ?thesis by simp
qed

lemma db_reorderStages_result:
  assumes d: "distinct ids"
      and run: "db_reorderStages a ids s = (Inr result, s')"
  shows "map st_id (filter (\<lambda>r. st_id r \<in> set ids) result) = ids \<and>
         map st_position (filter (\<lambda>r. st_id r \<in> set ids) result) = [1..int (length ids)]"
proof -
  define ups where "ups = reorder_updates ids"
  define n where "n = length ids"
  from run obtain u s1 where loop: "reorder_loop a ups s = (Inr u, s1)"
    and list: "db_listStages a s1 = (Inr result, s')"
    by (auto simp: db_reorderStages_def ups_def split: prod.splits sum.splits)
  note eff = reorder_loop_effect [OF loop]
  obtain ok s2 where t: "transport (Select ''crm_stages'') s1 = (ok, s2)"
    by (cases "transport (Select ''crm_stages'') s1") auto
  from list t have res: "result = sort_key st_position (filter (\<lambda>r. st_agent_id r = a) (crm_stages s1))"
    using transport_tables [OF t] by (auto simp: db_listStages_def split: if_splits)
  define L where "L = filter (\<lambda>r. st_id r \<in> set ids) (filter (\<lambda>r. st_agent_id r = a) (crm_stages s1))"
  define T where "T = sort_key st_position L"
  have T: "filter (\<lambda>r. st_id r \<in> set ids) result = T"
    by (simp add: res T_def L_def filter_sort)
  have fstups: "fst ` set ups = set ids"
  proof -
    have "map fst ups = ids"
      by (simp add: ups_def reorder_updates_ids)
    then show ?thesis by (metis set_map)
  qed
  have keep: "filter (\<lambda>r. st_id r = j \<and> st_agent_id r = a) (map (moved a ups) xs) =
      map (moved a ups) (filter (\<lambda>r. st_id r = j \<and> st_agent_id r = a) xs)" for j xs
    by (induction xs) (auto simp: moved_keys)
  have F1: "length (filter (\<lambda>r. st_id r = i) L) = 1" if "i \<in> set ids" for i
  proof -
    from that fstups obtain p where "(i, p) \<in> set ups" by force
    with eff have "length (filter (\<lambda>r. st_id r = i \<and> st_agent_id r = a) (crm_stages s)) = 1"
      by auto
    then have "length (filter (\<lambda>r. st_id r = i \<and> st_agent_id r = a) (crm_stages s1)) = 1"
      using eff by (simp add: keep)
    moreover have "filter (\<lambda>r. st_id r = i) L =
        filter (\<lambda>r. st_id r = i \<and> st_agent_id r = a) (crm_stages s1)"
      using that unfolding L_def filter_filter by (intro filter_cong) auto
    ultimately show ?thesis by simp
  qed
  have F2: "\<exists>k<n. ids ! k = st_id r \<and> st_position r = int k + 1" if "r \<in> set L" for r
  proof -
    from that have r: "r \<in> set (crm_stages s1)" "st_agent_id r = a" "st_id r \<in> set ids"
      by (auto simp: L_def)
    from r(1) eff obtain r0 where r0: "r0 \<in> set (crm_stages s)" "r = moved a ups r0"
      by auto
    from r0 r have r0a: "st_agent_id r0 = a" "st_id r0 \<in> set ids"
      by (simp_all add: moved_keys)
    from r0a(2) obtain k where k: "k < n" "ids ! k = st_id r0"
      by (auto simp: in_set_conv_nth n_def)
    with d have "map_of (rev ups) (st_id r0) = Some (int k + 1)"
      using reorder_updates_lookup [of ids k] by (simp add: ups_def n_def)
    with r0 r0a k show ?thesis
      by (auto simp: moved_def moved_keys)
  qed
  have idsL: "set (map st_id L) = set ids"
  proof
    show "set (map st_id L) \<subseteq> set ids" by (auto simp: L_def)
    show "set ids \<subseteq> set (map st_id L)"
    proof
      fix i assume "i \<in> set ids"
      from F1 [OF this] have "filter (\<lambda>r. st_id r = i) L \<noteq> []" by auto
      then obtain r where "r \<in> set L" "st_id r = i"
        by (auto simp: filter_empty_conv)
      then show "i \<in> set (map st_id L)" by force
    qed
  qed
  have dL: "distinct (map st_id L)"
  proof (rule distinct_if_single, rule ballI)
    fix x assume "x \<in> set (map st_id L)"
    with idsL have "x \<in> set ids" by simp
    from F1 [OF this] show "length (filter (\<lambda>y. y = x) (map st_id L)) = 1"
      by (simp add: filter_map comp_def)
  qed
  have setT: "set T = set L" by (simp add: T_def)
  have dT: "distinct (map st_id T)"
    using dL by (simp add: distinct_map T_def)
  have posT: "map st_position T = [1..int n]"
  proof (rule sorted_distinct_set_unique)
    show "sorted (map st_position T)" by (simp add: T_def)
    show "sorted [1..int n]" by simp
    show "distinct [1..int n]" by simp
    show "distinct (map st_position T)"
    proof -
      have "inj_on st_position (set T)"
      proof (rule inj_onI)
        fix x y assume xy: "x \<in> set T" "y \<in> set T" "st_position x = st_position y"
        from xy setT F2 obtain k l where "k < n" "ids ! k = st_id x" "st_position x = int k + 1"
          "l < n" "ids ! l = st_id y" "st_position y = int l + 1" by metis
        with xy(3) have "st_id x = st_id y" by simp
        with dT xy(1,2) show "x = y" by (auto simp: distinct_map inj_on_def)
      qed
      moreover from dT have "distinct T" by (simp add: distinct_map)
      ultimately show ?thesis by (simp add: distinct_map)
    qed
    show "set (map st_position T) = set [1..int n]"
    proof
      show "set (map st_position T) \<subseteq> set [1..int n]"
        using F2 setT by force
      show "set [1..int n] \<subseteq> set (map st_position T)"
      proof
        fix p assume "p \<in> set [1..int n]"
        then have p: "1 \<le> p" "p \<le> int n" by auto
        define k where "k = nat (p - 1)"
        from p have k: "k < n" "p = int k + 1" by (auto simp: k_def)
        then have "ids ! k \<in> set ids" by (simp add: n_def)
        with idsL obtain r where r: "r \<in> set L" "st_id r = ids ! k" by force
        from F2 [OF r(1)] obtain l where l: "l < n" "ids ! l = st_id r" "st_position r = int l + 1"
          by auto
        with r k d have "l = k" by (simp add: nth_eq_iff_index_eq n_def)
        with l k r setT show "p \<in> set (map st_position T)" by force
      qed
    qed
  qed
  have idT: "map st_id T = ids"
  proof -
    have "map st_id T = map (\<lambda>p. ids ! nat (p - 1)) (map st_position T)"
    proof -
      have "st_id r = ids ! nat (st_position r - 1)" if "r \<in> set T" for r
        using F2 [of r] that setT by auto
      then show ?thesis by simp
    qed
    also have "\<dots> = ids"
      unfolding posT by (rule nth_equalityI) (simp_all add: n_def)
    finally show ?thesis .
  qed
  from idT posT T show ?thesis by (simp add: n_def)
qed


section \<open>Seeding the default stages\<close>

lemma db_listStages_ok:
  "outages s = [] \<Longrightarrow>
     db_listStages a s =
       (Inr (sort_key st_position (filter (\<lambda>r. st_agent_id r = a) (crm_stages s))),
        s\<lparr>requests := requests s @ [Select ''crm_stages'']\<rparr>)"
  by (simp add: db_listStages_def transport_ok)

text \<open>
  Claim C3. While the store answers, \<^verbatim>\<open>initializeDefaultStages\<close> on a tenant that has a stage
  returns the tenant's stages as \<^verbatim>\<open>listStages\<close> gives them with the status
  \<^verbatim>\<open>already_initialized\<close>, having sent one select and no write. On a tenant without stages it
  inserts the six stages Lead, Contacted, Qualified, Proposal, Negotiation, Won at the
  positions 1 to 6 with their colours, returns them with the status \<^verbatim>\<open>initialized\<close>, and a
  second call then returns the same six rows with \<^verbatim>\<open>already_initialized\<close> and writes nothing.
\<close>

theorem initializeDefaultStages_idempotent:
  assumes "outages s = []"
  shows "(filter (\<lambda>r. st_agent_id r = agentId) (crm_stages s) \<noteq> [] \<longrightarrow>
            initializeDefaultStages agentId now s =
              (Inr (already_initialized,
                    sort_key st_position (filter (\<lambda>r. st_agent_id r = agentId) (crm_stages s))),
               s\<lparr>requests := requests s @ [Select ''crm_stages'']\<rparr>)) \<and>
         (filter (\<lambda>r. st_agent_id r = agentId) (crm_stages s) = [] \<longrightarrow>
            (\<exists>created s1.
               initializeDefaultStages agentId now s = (Inr (initialized, created), s1) \<and>
               map (\<lambda>r. (st_name r, st_position r, st_color r)) created =
                 [(''Lead'', 1, Some ''#6366f1''), (''Contacted'', 2, Some ''#8b5cf6''),
                  (''Qualified'', 3, Some ''#a855f7''), (''Proposal'', 4, Some ''#d946ef''),
                  (''Negotiation'', 5, Some ''#ec4899''), (''Won'', 6, Some ''#22c55e'')] \<and>
               list_all (\<lambda>r. st_agent_id r = agentId) created \<and>
               crm_stages s1 = crm_stages s @ created \<and>
               initializeDefaultStages agentId later s1 =
                 (Inr (already_initialized, created),
                  s1\<lparr>requests := requests s1 @ [Select ''crm_stages'']\<rparr>)))"
proof (intro conjI impI)
  assume "filter (\<lambda>r. st_agent_id r = agentId) (crm_stages s) \<noteq> []"
  with assms show "initializeDefaultStages agentId now s =
      (Inr (already_initialized,
            sort_key st_position (filter (\<lambda>r. st_agent_id r = agentId) (crm_stages s))),
       s\<lparr>requests := requests s @ [Select ''crm_stages'']\<rparr>)"
    by (simp add: initializeDefaultStages_def crm_listStages_def db_listStages_ok)
next
  assume fresh: "filter (\<lambda>r. st_agent_id r = agentId) (crm_stages s) = []"
  define row where "row k n p c =
     \<lparr>st_id = stage_seq s + k, st_agent_id = agentId, st_name = n, st_position = p,
      st_color = Some c, st_created_at = now\<rparr>" for k n p c
  define created where "created =
     [row 0 ''Lead'' 1 ''#6366f1'', row 1 ''Contacted'' 2 ''#8b5cf6'',
      row 2 ''Qualified'' 3 ''#a855f7'', row 3 ''Proposal'' 4 ''#d946ef'',
      row 4 ''Negotiation'' 5 ''#ec4899'', row 5 ''Won'' 6 ''#22c55e'']"
  define s1 where "s1 =
     s\<lparr>crm_stages := crm_stages s @ created, stage_seq := stage_seq s + 6,
       requests := requests s @ Select ''crm_stages'' # replicate 6 (Insert ''crm_stages'')\<rparr>"
  have first: "initializeDefaultStages agentId now s = (Inr (initialized, created), s1)"
    using assms fresh
    by (simp add: initializeDefaultStages_def crm_listStages_def db_listStages_ok transport_ok
         defaultStages_def crm_createStage_def db_createStage_def truthy_str_def str_or_null_def
         created_def row_def s1_def Let_def numeral_eq_Suc)
  have out: "outages s1 = []" using assms by (simp add: s1_def)
  have mine: "filter (\<lambda>r. st_agent_id r = agentId) (crm_stages s1) = created"
    using fresh by (simp add: s1_def created_def row_def)
  have ordered: "sort_key st_position created = created"
    by (simp add: created_def row_def)
  have second: "initializeDefaultStages agentId later s1 =
      (Inr (already_initialized, created), s1\<lparr>requests := requests s1 @ [Select ''crm_stages'']\<rparr>)"
    using out mine ordered
    by (simp add: initializeDefaultStages_def crm_listStages_def db_listStages_ok)
       (simp add: created_def)
  show "\<exists>created s1.
       initializeDefaultStages agentId now s = (Inr (initialized, created), s1) \<and>
       map (\<lambda>r. (st_name r, st_position r, st_color r)) created =
         [(''Lead'', 1, Some ''#6366f1''), (''Contacted'', 2, Some ''#8b5cf6''),
          (''Qualified'', 3, Some ''#a855f7''), (''Proposal'', 4, Some ''#d946ef''),
          (''Negotiation'', 5, Some ''#ec4899''), (''Won'', 6, Some ''#22c55e'')] \<and>
       list_all (\<lambda>r. st_agent_id r = agentId) created \<and>
       crm_stages s1 = crm_stages s @ created \<and>
       initializeDefaultStages agentId later s1 =
         (Inr (already_initialized, created),
          s1\<lparr>requests := requests s1 @ [Select ''crm_stages'']\<rparr>)"
  proof (intro exI conjI)
    show "initializeDefaultStages agentId now s = (Inr (initialized, created), s1)" by (rule first)
    show "initializeDefaultStages agentId later s1 =
         (Inr (already_initialized, created),
          s1\<lparr>requests := requests s1 @ [Select ''crm_stages'']\<rparr>)" by (rule second)
  qed (simp_all add: created_def row_def s1_def)
qed

theorem initializeDefaultStages_idempotent_witness:
  "outages empty_store = [] \<and>
   filter (\<lambda>r. st_agent_id r = ''t1'') (crm_stages empty_store) = [] \<and>
   (\<exists>created s1.
      initializeDefaultStages ''t1'' 5 empty_store = (Inr (initialized, created), s1) \<and>
      map (\<lambda>r. (st_name r, st_position r, st_color r)) created =
        [(''Lead'', 1, Some ''#6366f1''), (''Contacted'', 2, Some ''#8b5cf6''),
         (''Qualified'', 3, Some ''#a855f7''), (''Proposal'', 4, Some ''#d946ef''),
         (''Negotiation'', 5, Some ''#ec4899''), (''Won'', 6, Some ''#22c55e'')] \<and>
      list_all (\<lambda>r. st_agent_id r = ''t1'') created \<and>
      crm_stages s1 = crm_stages empty_store @ created \<and>
      initializeDefaultStages ''t1'' 9 s1 =
        (Inr (already_initialized, created),
         s1\<lparr>requests := requests s1 @ [Select ''crm_stages'']\<rparr>))"
proof -
  have o: "outages empty_store = []" by (simp add: empty_store_def)
  have f: "filter (\<lambda>r. st_agent_id r = ''t1'') (crm_stages empty_store) = []"
    by (simp add: empty_store_def)
  from initializeDefaultStages_idempotent [OF o, of "''t1''" 5 9] f o show ?thesis
    by simp
qed


section \<open>Reordering the stages\<close>

lemma db_updateStage_ok:
  assumes "outages s = []"
      and "length (filter (\<lambda>r. st_id r = i \<and> st_agent_id r = a) (crm_stages s)) = 1"
  shows "\<exists>r s'. db_updateStage a i [S_position p] s = (Inr r, s') \<and> outages s' = []"
proof -
  from assms(2) obtain x where x: "filter (\<lambda>r. st_id r = i \<and> st_agent_id r = a) (crm_stages s) = [x]"
    by (auto simp: length_Suc_conv)
  then have "x \<in> set (filter (\<lambda>r. st_id r = i \<and> st_agent_id r = a) (crm_stages s))" by simp
  then have "st_id x = i" by simp
  with assms(1) x show ?thesis
    by (simp add: db_updateStage_def transport_ok position_column)
qed

lemma reorder_loop_completes:
  "outages s = [] \<Longrightarrow>
   \<forall>(i, p)\<in>set ups. length (filter (\<lambda>r. st_id r = i \<and> st_agent_id r = a) (crm_stages s)) = 1 \<Longrightarrow>
   \<exists>s'. reorder_loop a ups s = (Inr (), s') \<and> outages s' = []"
proof (induction ups arbitrary: s)
  case Nil
  then show ?case by simp
next
  case (Cons ip ups)
  obtain i p where ip: "ip = (i, p)" by (cases ip)
  from Cons.prems ip have one: "length (filter (\<lambda>r. st_id r = i \<and> st_agent_id r = a) (crm_stages s)) = 1"
    by auto
  from db_updateStage_ok [OF Cons.prems(1) one] obtain r s1 where
    u: "db_updateStage a i [S_position p] s = (Inr r, s1)"
    and o: "outages s1 = []" by blast
  note e = db_updateStage_position [OF u]
  have keep: "filter (\<lambda>r. st_id r = j \<and> st_agent_id r = a) (map (moved a [(i, p)]) xs) =
      map (moved a [(i, p)]) (filter (\<lambda>r. st_id r = j \<and> st_agent_id r = a) xs)" for j xs
    by (induction xs) (auto simp: moved_keys)
  have "\<forall>(j, q)\<in>set ups. length (filter (\<lambda>r. st_id r = j \<and> st_agent_id r = a) (crm_stages s1)) = 1"
    using Cons.prems(2) e(1) by (auto simp: keep)
  from Cons.IH [OF o this] u ip show ?case by simp
qed

lemma db_reorderStages_completes:
  assumes "outages s = []"
      and "\<forall>i\<in>set ids. length (filter (\<lambda>r. st_id r = i \<and> st_agent_id r = a) (crm_stages s)) = 1"
  shows "\<exists>result s'. db_reorderStages a ids s = (Inr result, s')"
proof -
  have "\<forall>(i, p)\<in>set (reorder_updates ids).
      length (filter (\<lambda>r. st_id r = i \<and> st_agent_id r = a) (crm_stages s)) = 1"
  proof -
    have "fst ` set (reorder_updates ids) = set ids"
      using reorder_updates_ids [of ids] by (metis set_map)
    with assms(2) show ?thesis by force
  qed
  from reorder_loop_completes [OF assms(1) this] obtain s1 where
    "reorder_loop a (reorder_updates ids) s = (Inr (), s1)" "outages s1 = []" by blast
  then show ?thesis
    by (simp add: db_reorderStages_def db_listStages_ok)
qed

text \<open>
  Claim C7, amended. For every list of pairwise distinct stage ids, when \<^verbatim>\<open>reorderStages\<close>
  completes, the stages it returns (the tenant's stages as \<^verbatim>\<open>listStages\<close> gives them, which a
  following \<^verbatim>\<open>listStages\<close> returns again) hold the listed stages in the order of the list, at
  the positions 1 to n. It completes when the store answers and every listed id is the id
  of one stage of the tenant (\<open>db_reorderStages_completes\<close>).
\<close>

theorem reorderStages_then_listStages:
  assumes "distinct stageIds"
      and "crm_reorderStages agentId stageIds s = (Inr result, s')"
  shows "map st_id (filter (\<lambda>r. st_id r \<in> set stageIds) result) = stageIds \<and>
         map st_position (filter (\<lambda>r. st_id r \<in> set stageIds) result) =
           [1..int (length stageIds)] \<and>
         (outages s' = [] \<longrightarrow> fst (crm_listStages agentId s') = Inr result)"
proof -
  from assms(2) have run: "db_reorderStages agentId stageIds s = (Inr result, s')"
    by (simp add: crm_reorderStages_def)
  from run obtain s1 where "db_listStages agentId s1 = (Inr result, s')"
    by (auto simp: db_reorderStages_def split: prod.splits sum.splits)
  moreover obtain ok s2 where t: "transport (Select ''crm_stages'') s1 = (ok, s2)"
    by (cases "transport (Select ''crm_stages'') s1") auto
  ultimately have "result = sort_key st_position (filter (\<lambda>r. st_agent_id r = agentId) (crm_stages s'))"
    using transport_tables [OF t] by (auto simp: db_listStages_def split: if_splits)
  then have "outages s' = [] \<longrightarrow> fst (crm_listStages agentId s') = Inr result"
    by (simp add: crm_listStages_def db_listStages_ok)
  with db_reorderStages_result [OF assms(1) run] show ?thesis by simp
qed

theorem reorderStages_then_listStages_witness:
  "distinct [3, 1, 2 :: nat] \<and>
   (\<exists>result s'.
      crm_reorderStages ''t1'' [3, 1, 2] (snd (initializeDefaultStages ''t1'' 0 empty_store)) =
        (Inr result, s') \<and>
      map st_id result = [3, 1, 2, 4, 5, 6] \<and>
      map st_id (filter (\<lambda>r. st_id r \<in> set [3, 1, 2]) result) = [3, 1, 2] \<and>
      map st_position (filter (\<lambda>r. st_id r \<in> set [3, 1, 2]) result) = [1, 2, 3] \<and>
      fst (crm_listStages ''t1'' s') = Inr result)"
proof -
  define s where "s = snd (initializeDefaultStages ''t1'' 0 empty_store)"
  have s: "s = \<lparr>crm_stages = 
     [\<lparr>st_id = 1, st_agent_id = ''t1'', st_name = ''Lead'', st_position = 1, st_color = Some ''#6366f1'', st_created_at = 0\<rparr>,
      \<lparr>st_id = 2, st_agent_id = ''t1'', st_name = ''Contacted'', st_position = 2, st_color = Some ''#8b5cf6'', st_created_at = 0\<rparr>,
      \<lparr>st_id = 3, st_agent_id = ''t1'', st_name = ''Qualified'', st_position = 3, st_color = Some ''#a855f7'', st_created_at = 0\<rparr>,
      \<lparr>st_id = 4, st_agent_id = ''t1'', st_name = ''Proposal'', st_position = 4, st_color = Some ''#d946ef'', st_created_at = 0\<rparr>,
      \<lparr>st_id = 5, st_agent_id = ''t1'', st_name = ''Negotiation'', st_position = 5, st_color = Some ''#ec4899'', st_created_at = 0\<rparr>,
      \<lparr>st_id = 6, st_agent_id = ''t1'', st_name = ''Won'', st_position = 6, st_color = Some ''#22c55e'', st_created_at = 0\<rparr>],
     crm_contacts = [], crm_interactions = [], crm_tasks = [],
      stage_seq = 7, contact_seq = 1, interaction_seq = 1, task_seq = 1,
      outages = [],
      requests = [Select ''crm_stages'', Insert ''crm_stages'', Insert ''crm_stages'', Insert ''crm_stages'',
        Insert ''crm_stages'', Insert ''crm_stages'', Insert ''crm_stages'']\<rparr>"
    unfolding s_def
    by (simp add: initializeDefaultStages_def crm_listStages_def db_listStages_ok transport_ok
         defaultStages_def crm_createStage_def db_createStage_def truthy_str_def str_or_null_def
         Let_def empty_store_def)
  have d: "distinct [3, 1, 2 :: nat]" by simp
  have "\<exists>result s'. crm_reorderStages ''t1'' [3, 1, 2] s = (Inr result, s') \<and>
      map st_id result = [3, 1, 2, 4, 5, 6] \<and> outages s' = []"
    unfolding s
    by (simp add: crm_reorderStages_def db_reorderStages_def reorder_updates_def enumerate_eq_zip
          db_updateStage_def transport_ok position_column db_listStages_ok upt_rec)
  then obtain result s' where run: "crm_reorderStages ''t1'' [3, 1, 2] s = (Inr result, s')"
    and all: "map st_id result = [3, 1, 2, 4, 5, 6]" and o: "outages s' = []" by auto
  from reorderStages_then_listStages [OF d run] o all run d show ?thesis
    unfolding s_def [symmetric] by (simp add: upto_rec1)
qed

text \<open>
  As stated for every list, the claim fails on a list that names a stage twice: the later
  update wins, and the one stage with id 1 ends at position 2, not at position 1.
\<close>

theorem reorderStages_repeated_id_counterexample:
  "fst (crm_reorderStages ''t1'' [1, 1]
     \<lparr>crm_stages = [\<lparr>st_id = 1, st_agent_id = ''t1'', st_name = ''Lead'', st_position = 1,
                      st_color = None, st_created_at = 0\<rparr>],
      crm_contacts = [], crm_interactions = [], crm_tasks = [],
      stage_seq = 2, contact_seq = 1, interaction_seq = 1, task_seq = 1,
      outages = [], requests = []\<rparr>) =
   Inr [\<lparr>st_id = 1, st_agent_id = ''t1'', st_name = ''Lead'', st_position = 2,
         st_color = None, st_created_at = 0\<rparr>]"
  by (simp add: crm_reorderStages_def db_reorderStages_def reorder_updates_def enumerate_eq_zip
          db_updateStage_def transport_ok position_column db_listStages_ok upt_rec)


section \<open>The scenario, evaluated\<close>

lemma stage_exists_simps [simp]:
  "stage_exists (s\<lparr>requests := rq\<rparr>) ref = stage_exists s ref"
  "stage_exists (s\<lparr>outages := ou\<rparr>) ref = stage_exists s ref"
  "stage_exists (s\<lparr>crm_contacts := cs\<rparr>) ref = stage_exists s ref"
  "stage_exists (s\<lparr>contact_seq := n\<rparr>) ref = stage_exists s ref"
  by (simp_all add: stage_exists_def split: option.splits)

lemma with_stage_simps [simp]:
  "with_stage (s\<lparr>requests := rq\<rparr>) c = with_stage s c"
  "with_stage (s\<lparr>outages := ou\<rparr>) c = with_stage s c"
  "with_stage (s\<lparr>crm_contacts := cs\<rparr>) c = with_stage s c"
  "with_stage (s\<lparr>contact_seq := n\<rparr>) c = with_stage s c"
  by (simp_all add: with_stage_def split: option.splits)

lemma contact_exists_simps [simp]:
  "contact_exists (s\<lparr>requests := rq\<rparr>) ref = contact_exists s ref"
  "contact_exists (s\<lparr>outages := ou\<rparr>) ref = contact_exists s ref"
  "contact_exists (s\<lparr>crm_interactions := is\<rparr>) ref = contact_exists s ref"
  "contact_exists (s\<lparr>crm_tasks := ts\<rparr>) ref = contact_exists s ref"
  "contact_exists (s\<lparr>interaction_seq := n\<rparr>) ref = contact_exists s ref"
  "contact_exists (s\<lparr>task_seq := n\<rparr>) ref = contact_exists s ref"
  by (simp_all add: contact_exists_def split: option.splits)

lemma contact_of_simps [simp]:
  "contact_of (s\<lparr>requests := rq\<rparr>) ref = contact_of s ref"
  "contact_of (s\<lparr>outages := ou\<rparr>) ref = contact_of s ref"
  "contact_of (s\<lparr>crm_interactions := is\<rparr>) ref = contact_of s ref"
  "contact_of (s\<lparr>crm_tasks := ts\<rparr>) ref = contact_of s ref"
  "contact_of (s\<lparr>interaction_seq := n\<rparr>) ref = contact_of s ref"
  "contact_of (s\<lparr>task_seq := n\<rparr>) ref = contact_of s ref"
  by (simp_all add: contact_of_def split: option.splits)

lemma scenario_eq:
  "scenario =
   \<lparr>crm_stages =
      [\<lparr>st_id = 1, st_agent_id = ''t1'', st_name = ''Lead'', st_position = 1,
         st_color = None, st_created_at = 1\<rparr>,
       \<lparr>st_id = 2, st_agent_id = ''t1'', st_name = ''Won'', st_position = 2,
         st_color = None, st_created_at = 2\<rparr>],
    crm_contacts =
      [\<lparr>c_id = 1, c_agent_id = ''t1'', c_name = ''A'', c_email = None,
         c_phone = None, c_company = None, c_role = None,
         c_stage_id = Some 1, c_stage_entered_at = Some 3, c_source = None,
         c_source_detail = None, c_assigned_to = None, c_tags = [],
         c_custom_fields = [], c_deal_value = Some 100,
         c_currency = ''AUD'', c_is_active = True, c_lost_reason = None,
         c_created_at = 3, c_updated_at = 3, c_last_contact_at = None\<rparr>,
       \<lparr>c_id = 2, c_agent_id = ''t1'', c_name = ''B'', c_email = None,
         c_phone = None, c_company = None, c_role = None,
         c_stage_id = Some 2, c_stage_entered_at = Some 4, c_source = None,
         c_source_detail = None, c_assigned_to = None, c_tags = [],
         c_custom_fields = [], c_deal_value = Some 50,
         c_currency = ''AUD'', c_is_active = True, c_lost_reason = None,
         c_created_at = 4, c_updated_at = 4, c_last_contact_at = None\<rparr>,
       \<lparr>c_id = 3, c_agent_id = ''t1'', c_name = ''C'', c_email = None,
         c_phone = None, c_company = None, c_role = None,
         c_stage_id = None, c_stage_entered_at = None, c_source = None,
         c_source_detail = None, c_assigned_to = None, c_tags = [],
         c_custom_fields = [], c_deal_value = Some 25,
         c_currency = ''AUD'', c_is_active = True, c_lost_reason = None,
         c_created_at = 5, c_updated_at = 5, c_last_contact_at = None\<rparr>,
       \<lparr>c_id = 4, c_agent_id = ''t1'', c_name = ''D'', c_email = None,
         c_phone = None, c_company = None, c_role = None,
         c_stage_id = Some 1, c_stage_entered_at = Some 6, c_source = None,
         c_source_detail = None, c_assigned_to = None, c_tags = [],
         c_custom_fields = [], c_deal_value = Some 1000,
         c_currency = ''AUD'', c_is_active = False, c_lost_reason = None,
         c_created_at = 6, c_updated_at = 6, c_last_contact_at = None\<rparr>],
    crm_interactions = [], crm_tasks = [], stage_seq = 3, contact_seq = 5,
    interaction_seq = 1, task_seq = 1, outages = [],
    requests =
      [Select ''crm_stages'', Insert ''crm_stages'', Select ''crm_stages'',
       Insert ''crm_stages'', Insert ''crm_contacts'',
       Insert ''crm_contacts'', Insert ''crm_contacts'',
       Insert ''crm_contacts'']\<rparr>"
  by (simp add: scenario_def empty_store_def empty_contact_def crm_createStage_def
        db_listStages_ok db_createStage_def crm_createContact_def db_createContact_def
        transport_ok truthy_str_def truthy_nat_def str_or_null_def nat_or_null_def
        rat_or_null_def stage_exists_def with_stage_def Let_def)

section \<open>Moving a contact to a stage\<close>

text \<open>
  Claim C4, as it holds. When the store answers, the contact is the tenant's and the stage
  exists, \<^verbatim>\<open>moveStage\<close> sends exactly one request, an update of \<^verbatim>\<open>crm_contacts\<close> whose
  payload carries \<^verbatim>\<open>stage_id\<close> and \<^verbatim>\<open>stage_entered_at\<close> together, and the contact it returns
  and stores has the given stage id and the clock reading of the call as its stage-entry
  timestamp. No other contact row changes. The method writes the reading whatever the stamp
  was before: nothing in it makes the new stamp later than the old one.
\<close>

theorem moveStage_single_write:
  assumes "outages s = []"
      and "filter (\<lambda>c. c_id c = contactId \<and> c_agent_id c = agentId) (crm_contacts s) = [c]"
      and "stage_exists s stageId"
  shows "\<exists>row joined s'.
           moveStage agentId now contactId stageId s = (Inr (row, joined), s') \<and>
           row = c\<lparr>c_stage_id := stageId, c_stage_entered_at := Some now, c_updated_at := now\<rparr> \<and>
           c_stage_id row = stageId \<and>
           c_stage_entered_at row = Some now \<and>
           requests s' =
             requests s @
               [Update ''crm_contacts'' [''stage_id'', ''stage_entered_at'', ''updated_at'']] \<and>
           filter (\<lambda>c. c_id c = contactId \<and> c_agent_id c = agentId) (crm_contacts s') = [row] \<and>
           filter (\<lambda>c. \<not> (c_id c = contactId \<and> c_agent_id c = agentId)) (crm_contacts s') =
             filter (\<lambda>c. \<not> (c_id c = contactId \<and> c_agent_id c = agentId)) (crm_contacts s)"
proof -
  define row where "row = move_payload now stageId c"
  have keys: "c_id (move_payload now stageId x) = c_id x"
             "c_agent_id (move_payload now stageId x) = c_agent_id x" for x
    by (simp_all add: move_payload_def)
  have f1: "filter (\<lambda>c. c_id c = contactId \<and> c_agent_id c = agentId)
              (map (\<lambda>x. if c_id x = contactId \<and> c_agent_id x = agentId
                         then move_payload now stageId x else x) xs) =
            map (move_payload now stageId)
              (filter (\<lambda>c. c_id c = contactId \<and> c_agent_id c = agentId) xs)" for xs
    by (induction xs) (auto simp: keys)
  have f2: "filter (\<lambda>c. \<not> (c_id c = contactId \<and> c_agent_id c = agentId))
              (map (\<lambda>x. if c_id x = contactId \<and> c_agent_id x = agentId
                         then move_payload now stageId x else x) xs) =
            filter (\<lambda>c. \<not> (c_id c = contactId \<and> c_agent_id c = agentId)) xs" for xs
    by (induction xs) (auto simp: keys)
  have run: "moveStage agentId now contactId stageId s =
     (Inr (with_stage (s\<lparr>requests := requests s @
               [Update ''crm_contacts'' [''stage_id'', ''stage_entered_at'', ''updated_at'']]\<rparr>) row),
      s\<lparr>requests := requests s @
               [Update ''crm_contacts'' [''stage_id'', ''stage_entered_at'', ''updated_at'']],
        crm_contacts := map (\<lambda>x. if c_id x = contactId \<and> c_agent_id x = agentId
                         then move_payload now stageId x else x) (crm_contacts s)\<rparr>)"
    using assms
    by (simp add: moveStage_def db_moveContactStage_def transport_ok row_def)
  show ?thesis
    unfolding run
    using assms(2) f2 [of "crm_contacts s"]
    by (simp add: f1 row_def move_payload_def with_stage_def)
qed

theorem moveStage_single_write_witness:
  "outages scenario = [] \<and>
   filter (\<lambda>c. c_id c = 1 \<and> c_agent_id c = ''t1'') (crm_contacts scenario) =
     [hd (crm_contacts scenario)] \<and>
   stage_exists scenario (Some 2) \<and>
   c_stage_entered_at (hd (crm_contacts scenario)) = Some 3 \<and>
   (\<exists>row joined s'.
      moveStage ''t1'' 10 1 (Some 2) scenario = (Inr (row, joined), s') \<and>
      c_stage_id row = Some 2 \<and>
      c_stage_entered_at row = Some 10 \<and>
      requests s' =
        requests scenario @
          [Update ''crm_contacts'' [''stage_id'', ''stage_entered_at'', ''updated_at'']])"
proof -
  have h1: "outages scenario = []" by (simp add: scenario_eq)
  have h2: "filter (\<lambda>c. c_id c = 1 \<and> c_agent_id c = ''t1'') (crm_contacts scenario) =
     [hd (crm_contacts scenario)]" by (simp add: scenario_eq)
  have h3: "stage_exists scenario (Some 2)" by (simp add: scenario_eq stage_exists_def)
  have h4: "c_stage_entered_at (hd (crm_contacts scenario)) = Some 3" by (simp add: scenario_eq)
  from moveStage_single_write [OF h1 h2 h3, of 10] obtain row joined s' where
    "moveStage ''t1'' 10 1 (Some 2) scenario = (Inr (row, joined), s')"
    "c_stage_id row = Some 2" "c_stage_entered_at row = Some 10"
    "requests s' = requests scenario @
          [Update ''crm_contacts'' [''stage_id'', ''stage_entered_at'', ''updated_at'']]"
    by auto
  with h1 h2 h3 h4 show ?thesis by simp
qed

text \<open>
  Claim C4 as stated asks for a stage-entry timestamp strictly greater than before the call.
  Tenant \<^verbatim>\<open>t1\<close> creates the stages Lead and Won at the clock readings 1 and 2 and the
  contact A in Lead at the reading 3, which is its stage-entry timestamp. \<^verbatim>\<open>moveStage\<close>
  called before the clock ticks again, at the reading 3, moves A to Won and returns the
  timestamp 3: equal to the one before the call.
\<close>

theorem moveStage_same_reading_counterexample:
  "map_sum (\<lambda>e. e) (\<lambda>v. (c_id (fst v), c_stage_id (fst v), c_stage_entered_at (fst v)))
     (fst (crm_createContact ''t1'' 3
        (empty_contact\<lparr>contact_name := Some ''A'', contact_stageId := Some 1\<rparr>)
        (snd (crm_createStage ''t1'' 2
           \<lparr>stage_name = Some ''Won'', stage_position = None, stage_color = None\<rparr>
           (snd (crm_createStage ''t1'' 1
              \<lparr>stage_name = Some ''Lead'', stage_position = None, stage_color = None\<rparr>
              empty_store)))))) =
     Inr (1, Some 1, Some 3) \<and>
   map_sum (\<lambda>e. e) (\<lambda>v. (c_id (fst v), c_stage_id (fst v), c_stage_entered_at (fst v)))
     (fst (moveStage ''t1'' 3 1 (Some 2)
        (snd (crm_createContact ''t1'' 3
           (empty_contact\<lparr>contact_name := Some ''A'', contact_stageId := Some 1\<rparr>)
           (snd (crm_createStage ''t1'' 2
              \<lparr>stage_name = Some ''Won'', stage_position = None, stage_color = None\<rparr>
              (snd (crm_createStage ''t1'' 1
                 \<lparr>stage_name = Some ''Lead'', stage_position = None, stage_color = None\<rparr>
                 empty_store)))))))) =
     Inr (1, Some 2, Some 3)"
  by (simp add: crm_createStage_def db_createStage_def crm_createContact_def
        db_createContact_def moveStage_def db_moveContactStage_def move_payload_def
        transport_ok db_listStages_ok empty_store_def empty_contact_def truthy_str_def
        truthy_nat_def str_or_null_def nat_or_null_def rat_or_null_def stage_exists_def
        with_stage_def Let_def)

section \<open>Validation in the facade\<close>

text \<open>
  Claim C5. \<^verbatim>\<open>addInteraction\<close> of the facade throws an \<^verbatim>\<open>Error\<close> whose message names the
  missing field whenever \<^verbatim>\<open>contactId\<close>, \<^verbatim>\<open>type\<close> or \<^verbatim>\<open>createdBy\<close> is absent (or falsy),
  checked in this order, and the store is left as it was: no request is sent.
\<close>

theorem addInteraction_missing_field:
  "(\<not> truthy_nat (interaction_contactId interaction) \<longrightarrow>
      crm_addInteraction agentId now interaction s = (Inl (Failure ''Contact ID is required''), s)) \<and>
   (truthy_nat (interaction_contactId interaction) \<and>
    \<not> truthy_str (interaction_type interaction) \<longrightarrow>
      crm_addInteraction agentId now interaction s =
        (Inl (Failure ''Interaction type is required''), s)) \<and>
   (truthy_nat (interaction_contactId interaction) \<and>
    truthy_str (interaction_type interaction) \<and>
    \<not> truthy_str (interaction_createdBy interaction) \<longrightarrow>
      crm_addInteraction agentId now interaction s =
        (Inl (Failure ''Created by is required''), s)) \<and>
   (\<not> truthy_nat (interaction_contactId interaction) \<or>
    \<not> truthy_str (interaction_type interaction) \<or>
    \<not> truthy_str (interaction_createdBy interaction) \<longrightarrow>
      (\<exists>message. crm_addInteraction agentId now interaction s = (Inl (Failure message), s)))"
  by (simp add: crm_addInteraction_def)

theorem addInteraction_missing_field_witness:
  "\<not> truthy_str (interaction_createdBy
        \<lparr>interaction_contactId = Some 1, interaction_type = Some ''call'',
         interaction_subject = None, interaction_content = None,
         interaction_createdBy = None, interaction_createdByType = None,
         interaction_scheduledAt = None, interaction_completedAt = None,
         interaction_metadata = None\<rparr>) \<and>
   crm_addInteraction ''t1'' 7
        \<lparr>interaction_contactId = Some 1, interaction_type = Some ''call'',
         interaction_subject = None, interaction_content = None,
         interaction_createdBy = None, interaction_createdByType = None,
         interaction_scheduledAt = None, interaction_completedAt = None,
         interaction_metadata = None\<rparr> empty_store =
     (Inl (Failure ''Created by is required''), empty_store)"
  using addInteraction_missing_field [of
        "\<lparr>interaction_contactId = Some 1, interaction_type = Some ''call'',
         interaction_subject = None, interaction_content = None,
         interaction_createdBy = None, interaction_createdByType = None,
         interaction_scheduledAt = None, interaction_completedAt = None,
         interaction_metadata = None\<rparr>" "''t1''" 7 empty_store]
  by (simp add: truthy_str_def truthy_nat_def)

section \<open>A deal value of zero\<close>

text \<open>
  Claim C9. \<^verbatim>\<open>createContact\<close> with \<^verbatim>\<open>dealValue\<close> equal to 0 returns the same result and
  leaves the same store as with no \<^verbatim>\<open>dealValue\<close>; the row it stores has \<^verbatim>\<open>deal_value\<close>
  \<^verbatim>\<open>null\<close> and so counts as zero in the pipeline value sums.
\<close>

theorem createContact_zero_dealValue:
  "crm_createContact agentId now (contact\<lparr>contact_dealValue := Some 0\<rparr>) s =
     crm_createContact agentId now (contact\<lparr>contact_dealValue := None\<rparr>) s \<and>
   (\<forall>row joined s'.
      crm_createContact agentId now (contact\<lparr>contact_dealValue := Some 0\<rparr>) s =
        (Inr (row, joined), s') \<longrightarrow>
      c_deal_value row = None \<and> deal row = 0 \<and> crm_contacts s' = crm_contacts s @ [row])"
proof -
  have "crm_createContact agentId now (contact\<lparr>contact_dealValue := Some 0\<rparr>) s =
     crm_createContact agentId now (contact\<lparr>contact_dealValue := None\<rparr>) s"
    by (cases "transport (Insert ''crm_contacts'') s")
       (simp add: crm_createContact_def db_createContact_def rat_or_null_def Let_def
          split: option.splits)
  moreover have "c_deal_value row = None \<and> deal row = 0 \<and> crm_contacts s' = crm_contacts s @ [row]"
    if "crm_createContact agentId now (contact\<lparr>contact_dealValue := Some 0\<rparr>) s =
        (Inr (row, joined), s')" for row joined s'
  proof -
    obtain ok s1 where t: "transport (Insert ''crm_contacts'') s = (ok, s1)"
      by (cases "transport (Insert ''crm_contacts'') s") auto
    from that t transport_tables [OF t] show ?thesis
      by (auto simp: crm_createContact_def db_createContact_def rat_or_null_def deal_def
            with_stage_def Let_def split: if_splits option.splits)
  qed
  ultimately show ?thesis by blast
qed

theorem createContact_zero_dealValue_witness:
  "\<exists>row joined s'.
     crm_createContact ''t1'' 7
       (empty_contact\<lparr>contact_name := Some ''E'', contact_dealValue := Some 0\<rparr>) scenario =
       (Inr (row, joined), s') \<and>
     c_deal_value row = None \<and> deal row = 0 \<and> crm_contacts s' = crm_contacts scenario @ [row]"
proof -
  have "\<exists>row joined s'.
     crm_createContact ''t1'' 7
       (empty_contact\<lparr>contact_name := Some ''E'', contact_dealValue := Some 0\<rparr>) scenario =
       (Inr (row, joined), s')"
    by (simp add: crm_createContact_def db_createContact_def transport_ok scenario_eq
          empty_contact_def truthy_str_def truthy_nat_def nat_or_null_def stage_exists_def
          with_stage_def Let_def)
  then obtain row joined s' where run:
    "crm_createContact ''t1'' 7
       (empty_contact\<lparr>contact_name := Some ''E'', contact_dealValue := Some 0\<rparr>) scenario =
       (Inr (row, joined), s')" by auto
  from createContact_zero_dealValue [of "''t1''" 7
      "empty_contact\<lparr>contact_name := Some ''E''\<rparr>" scenario] run
  have "c_deal_value row = None \<and> deal row = 0 \<and> crm_contacts s' = crm_contacts scenario @ [row]"
    by simp
  with run show ?thesis by simp
qed


section \<open>Updating a contact and logging an interaction\<close>

lemma touch_columns:
  "undefined_column contact_table (updateData_columns [E_lastContactAt v]) = None"
  by (simp add: undefined_column_def contact_table_def updateData_columns_def
        List.map_filter_def)

lemma completion_columns: "undefined_column task_table [''completed'', ''completed_at''] = None"
  by (simp add: undefined_column_def task_table_def)

lemmas evaluation =
  transport_ok db_listStages_ok empty_store_def empty_contact_def empty_options_def
  empty_interaction_def empty_task_def truthy_str_def truthy_nat_def str_or_null_def
  nat_or_null_def rat_or_null_def stage_exists_def contact_exists_def with_stage_def
  contact_of_def with_contact_def task_with_contact_def Let_def touch_columns
  completion_columns

lemma with_stage_tables: "crm_stages s' = crm_stages s \<Longrightarrow> with_stage s' = with_stage s"
  by (simp add: fun_eq_iff with_stage_def split: option.splits)

lemma contact_of_tables: "crm_contacts s' = crm_contacts s \<Longrightarrow> contact_of s' = contact_of s"
  by (simp add: fun_eq_iff contact_of_def split: option.splits)

lemma stage_exists_tables: "crm_stages s' = crm_stages s \<Longrightarrow> stage_exists s' = stage_exists s"
  by (simp add: fun_eq_iff stage_exists_def split: option.splits)

lemma contact_exists_tables:
  "crm_contacts s' = crm_contacts s \<Longrightarrow> contact_exists s' = contact_exists s"
  by (simp add: fun_eq_iff contact_exists_def split: option.splits)

lemma assign_keys:
  "c_id (assign e c) = c_id c" "c_agent_id (assign e c) = c_agent_id c"
  "c_updated_at (assign e c) = c_updated_at c"
  by (cases e; simp)+

lemma fold_assign_keys:
  "c_id (fold assign es c) = c_id c \<and> c_agent_id (fold assign es c) = c_agent_id c \<and>
   c_updated_at (fold assign es c) = c_updated_at c"
  by (induction es arbitrary: c) (simp_all add: assign_keys)

lemma updateData_keys:
  "c_id (updateData now es c) = c_id c" "c_agent_id (updateData now es c) = c_agent_id c"
  "c_updated_at (updateData now es c) = now"
  using fold_assign_keys [of es "c\<lparr>c_updated_at := now\<rparr>"] by (simp_all add: updateData_def)


lemma filter_contact_update:
  assumes "\<And>x. c_id (f x) = c_id x" "\<And>x. c_agent_id (f x) = c_agent_id x"
  shows "filter (\<lambda>c. c_id c = rid \<and> c_agent_id c = a)
           (map (\<lambda>x. if c_id x = rid \<and> c_agent_id x = a then f x else x) xs) =
         map f (filter (\<lambda>c. c_id c = rid \<and> c_agent_id c = a) xs)"
  by (induction xs) (auto simp: assms)


lemma db_updateContact_Inr:
  assumes "db_updateContact a now rid updates s = (Inr v, s')"
  shows "\<exists>c. filter (\<lambda>c. c_id c = rid \<and> c_agent_id c = a) (crm_contacts s) = [c] \<and>
             v = with_stage s (updateData now updates c) \<and>
             crm_contacts s' = map (\<lambda>x. if c_id x = rid \<and> c_agent_id x = a
                                  then updateData now updates x else x) (crm_contacts s) \<and>
             crm_stages s' = crm_stages s \<and> crm_interactions s' = crm_interactions s \<and>
             crm_tasks s' = crm_tasks s \<and>
             requests s' = requests s @ [Update ''crm_contacts'' (updateData_columns updates)]"
proof -
  obtain ok s1 where t: "transport (Update ''crm_contacts'' (updateData_columns updates)) s = (ok, s1)"
    by (cases "transport (Update ''crm_contacts'' (updateData_columns updates)) s") auto
  note tt = transport_tables [OF t]
  from assms t have ok by (auto simp: db_updateContact_def split: if_splits)
  with assms t have u: "undefined_column contact_table (updateData_columns updates) = None"
    by (auto simp: db_updateContact_def split: option.splits)
  with assms t \<open>ok\<close> obtain c where c: "filter (\<lambda>c. c_id c = rid \<and> c_agent_id c = a) (crm_contacts s1) = [c]"
    by (auto simp: db_updateContact_def split: list.splits)
  with assms t \<open>ok\<close> u have "v = with_stage s1 (updateData now updates c) \<and>
     s' = s1\<lparr>crm_contacts := map (\<lambda>x. if c_id x = rid \<and> c_agent_id x = a
                                  then updateData now updates x else x) (crm_contacts s1)\<rparr>"
    by (auto simp: db_updateContact_def split: if_splits)
  with c tt with_stage_tables [of s1 s] show ?thesis by simp
qed

lemma db_updateContact_Inl:
  assumes "db_updateContact a now rid updates s = (Inl e, s')"
  shows "crm_contacts s' = crm_contacts s \<and> crm_stages s' = crm_stages s \<and>
         crm_interactions s' = crm_interactions s \<and> crm_tasks s' = crm_tasks s"
proof -
  obtain ok s1 where t: "transport (Update ''crm_contacts'' (updateData_columns updates)) s = (ok, s1)"
    by (cases "transport (Update ''crm_contacts'' (updateData_columns updates)) s") auto
  note tt = transport_tables [OF t]
  from assms t have "s' = s1"
    by (auto simp: db_updateContact_def split: if_splits list.splits option.splits)
  with tt show ?thesis by simp
qed

lemma touch_contact_Inl:
  assumes "touch_contact a now ref s = (Inl e, s')"
  shows "crm_contacts s' = crm_contacts s \<and> crm_stages s' = crm_stages s \<and>
         crm_interactions s' = crm_interactions s \<and> crm_tasks s' = crm_tasks s"
proof (cases ref)
  case None
  obtain ok s1 where t: "transport (Update ''crm_contacts''
        (updateData_columns [E_lastContactAt (Some now)])) s = (ok, s1)"
    by (cases "transport (Update ''crm_contacts'' (updateData_columns [E_lastContactAt (Some now)])) s") auto
  from assms None t have "s' = s1" by (simp add: touch_contact_def)
  with transport_tables [OF t] show ?thesis by simp
next
  case (Some cid)
  with assms db_updateContact_Inl show ?thesis by (simp add: touch_contact_def)
qed

lemma touch_contact_Inr:
  assumes "touch_contact a now ref s = (Inr v, s')"
  shows "\<exists>cid c. ref = Some cid \<and>
             filter (\<lambda>c. c_id c = cid \<and> c_agent_id c = a) (crm_contacts s) = [c] \<and>
             fst v = c\<lparr>c_updated_at := now, c_last_contact_at := Some now\<rparr> \<and>
             filter (\<lambda>c. c_id c = cid \<and> c_agent_id c = a) (crm_contacts s') = [fst v] \<and>
             crm_stages s' = crm_stages s \<and> crm_interactions s' = crm_interactions s \<and>
             crm_tasks s' = crm_tasks s \<and>
             requests s' = requests s @ [Update ''crm_contacts'' [''updated_at'', ''last_contact_at'']]"
proof (cases ref)
  case None
  with assms show ?thesis by (simp add: touch_contact_def split: prod.splits)
next
  case (Some cid)
  with assms have "db_updateContact a now cid [E_lastContactAt (Some now)] s = (Inr v, s')"
    by (simp add: touch_contact_def)
  from db_updateContact_Inr [OF this] obtain c where
    c: "filter (\<lambda>c. c_id c = cid \<and> c_agent_id c = a) (crm_contacts s) = [c]"
    and r: "v = with_stage s (updateData now [E_lastContactAt (Some now)] c)"
      "crm_contacts s' = map (\<lambda>x. if c_id x = cid \<and> c_agent_id x = a
          then updateData now [E_lastContactAt (Some now)] x else x) (crm_contacts s)"
      "crm_stages s' = crm_stages s" "crm_interactions s' = crm_interactions s"
      "crm_tasks s' = crm_tasks s"
      "requests s' = requests s @ [Update ''crm_contacts'' (updateData_columns [E_lastContactAt (Some now)])]"
    by blast
  have "filter (\<lambda>c. c_id c = cid \<and> c_agent_id c = a) (crm_contacts s') =
      [updateData now [E_lastContactAt (Some now)] c]"
    unfolding r(2) using c by (simp add: filter_contact_update updateData_keys)
  with Some c r show ?thesis
    by (simp add: with_stage_def updateData_def updateData_columns_def List.map_filter_def)
qed

lemma insert_interaction_Inr:
  assumes "insert_interaction a now i s = (Inr v, s')"
  shows "crm_interactions s' = crm_interactions s @ [fst v] \<and> crm_contacts s' = crm_contacts s \<and>
         crm_stages s' = crm_stages s \<and> crm_tasks s' = crm_tasks s \<and>
         requests s' = requests s @ [Insert ''crm_interactions''] \<and>
         i_agent_id (fst v) = a \<and> i_contact_id (fst v) = interaction_contactId i"
proof -
  obtain ok s1 where t: "transport (Insert ''crm_interactions'') s = (ok, s1)"
    by (cases "transport (Insert ''crm_interactions'') s") auto
  from assms t transport_tables [OF t] show ?thesis
    by (auto simp: insert_interaction_def with_contact_def Let_def split: if_splits option.splits)
qed

text \<open>
  Claim C6. After the insert of \<^verbatim>\<open>addInteraction\<close> has succeeded, the method sends a second
  request, the update of the parent contact by \<^verbatim>\<open>updateContact\<close> (\<open>touch_contact\<close>). When
  that update succeeds the contact's \<^verbatim>\<open>last_contact_at\<close> is the clock reading of the call
  and the inserted row is returned. When it fails, \<^verbatim>\<open>addInteraction\<close> fails with the same
  error, and the inserted interaction stays in the table.
\<close>

theorem addInteraction_second_write:
  assumes "insert_interaction agentId now interaction s = (Inr data, s1)"
  shows "(\<forall>e s2. touch_contact agentId now (interaction_contactId interaction) s1 = (Inl e, s2) \<longrightarrow>
            db_addInteraction agentId now interaction s = (Inl e, s2) \<and>
            crm_interactions s2 = crm_interactions s @ [fst data] \<and>
            crm_contacts s2 = crm_contacts s) \<and>
         (\<forall>touched s2. touch_contact agentId now (interaction_contactId interaction) s1 =
              (Inr touched, s2) \<longrightarrow>
            db_addInteraction agentId now interaction s = (Inr data, s2) \<and>
            crm_interactions s2 = crm_interactions s @ [fst data] \<and>
            c_last_contact_at (fst touched) = Some now \<and>
            (\<exists>cid. interaction_contactId interaction = Some cid \<and>
               filter (\<lambda>c. c_id c = cid \<and> c_agent_id c = agentId) (crm_contacts s2) =
                 [fst touched]) \<and>
            requests s2 =
              requests s @ [Insert ''crm_interactions'',
                            Update ''crm_contacts'' [''updated_at'', ''last_contact_at'']])"
proof (intro conjI allI impI)
  note ins = insert_interaction_Inr [OF assms]
  {
    fix e s2
    assume t: "touch_contact agentId now (interaction_contactId interaction) s1 = (Inl e, s2)"
    from assms t show "db_addInteraction agentId now interaction s = (Inl e, s2)"
      by (simp add: db_addInteraction_def)
    from touch_contact_Inl [OF t] ins
    show "crm_interactions s2 = crm_interactions s @ [fst data]" "crm_contacts s2 = crm_contacts s"
      by simp_all
  }
  {
    fix touched s2
    assume t: "touch_contact agentId now (interaction_contactId interaction) s1 = (Inr touched, s2)"
    from assms t show "db_addInteraction agentId now interaction s = (Inr data, s2)"
      by (simp add: db_addInteraction_def)
    from touch_contact_Inr [OF t] obtain cid c where
      r: "interaction_contactId interaction = Some cid"
         "fst touched = c\<lparr>c_updated_at := now, c_last_contact_at := Some now\<rparr>"
         "filter (\<lambda>c. c_id c = cid \<and> c_agent_id c = agentId) (crm_contacts s2) = [fst touched]"
         "crm_interactions s2 = crm_interactions s1"
         "requests s2 = requests s1 @ [Update ''crm_contacts'' [''updated_at'', ''last_contact_at'']]"
      by blast
    from r ins show "crm_interactions s2 = crm_interactions s @ [fst data]" by simp
    from r show "c_last_contact_at (fst touched) = Some now" by simp
    from r show "\<exists>cid. interaction_contactId interaction = Some cid \<and>
               filter (\<lambda>c. c_id c = cid \<and> c_agent_id c = agentId) (crm_contacts s2) =
                 [fst touched]" by simp
    from r ins show "requests s2 =
              requests s @ [Insert ''crm_interactions'',
                            Update ''crm_contacts'' [''updated_at'', ''last_contact_at'']]" by simp
  }
qed

theorem addInteraction_second_write_witness:
  "(\<exists>data s1 e s2.
      insert_interaction ''t1'' 9
        (empty_interaction\<lparr>interaction_contactId := Some 1, interaction_type := Some ''call'',
           interaction_createdBy := Some ''iris''\<rparr>)
        (scenario\<lparr>outages := [False, True]\<rparr>) = (Inr data, s1) \<and>
      touch_contact ''t1'' 9 (Some 1) s1 = (Inl e, s2) \<and>
      db_addInteraction ''t1'' 9
        (empty_interaction\<lparr>interaction_contactId := Some 1, interaction_type := Some ''call'',
           interaction_createdBy := Some ''iris''\<rparr>)
        (scenario\<lparr>outages := [False, True]\<rparr>) = (Inl e, s2) \<and>
      crm_interactions s2 = [fst data]) \<and>
   (\<exists>data s1 touched s2.
      insert_interaction ''t1'' 9
        (empty_interaction\<lparr>interaction_contactId := Some 1, interaction_type := Some ''call'',
           interaction_createdBy := Some ''iris''\<rparr>) scenario = (Inr data, s1) \<and>
      touch_contact ''t1'' 9 (Some 1) s1 = (Inr touched, s2) \<and>
      db_addInteraction ''t1'' 9
        (empty_interaction\<lparr>interaction_contactId := Some 1, interaction_type := Some ''call'',
           interaction_createdBy := Some ''iris''\<rparr>) scenario = (Inr data, s2) \<and>
      c_last_contact_at (fst touched) = Some 9)"
proof -
  define i where "i = empty_interaction\<lparr>interaction_contactId := Some 1,
     interaction_type := Some ''call'', interaction_createdBy := Some ''iris''\<rparr>"
  have cid: "interaction_contactId i = Some 1" by (simp add: i_def)
  have "\<exists>data s1. insert_interaction ''t1'' 9 i (scenario\<lparr>outages := [False, True]\<rparr>) = (Inr data, s1) \<and>
          (\<exists>e s2. touch_contact ''t1'' 9 (Some 1) s1 = (Inl e, s2))"
    by (simp add: i_def insert_interaction_def touch_contact_def db_updateContact_def
          transport_def scenario_eq evaluation)
  then obtain data s1 e s2 where
    ins: "insert_interaction ''t1'' 9 i (scenario\<lparr>outages := [False, True]\<rparr>) = (Inr data, s1)"
    and t: "touch_contact ''t1'' 9 (Some 1) s1 = (Inl e, s2)" by auto
  have empty: "crm_interactions (scenario\<lparr>outages := [False, True]\<rparr>) = []"
    by (simp add: scenario_eq)
  from addInteraction_second_write [OF ins, THEN conjunct1, rule_format, of e s2] t cid empty
  have fail: "db_addInteraction ''t1'' 9 i (scenario\<lparr>outages := [False, True]\<rparr>) = (Inl e, s2) \<and>
      crm_interactions s2 = [fst data]" by simp
  have "\<exists>data s1. insert_interaction ''t1'' 9 i scenario = (Inr data, s1) \<and>
          (\<exists>touched s2. touch_contact ''t1'' 9 (Some 1) s1 = (Inr touched, s2))"
    by (simp add: i_def insert_interaction_def touch_contact_def db_updateContact_def
          updateData_def scenario_eq evaluation)
  then obtain data' s1' touched s2' where
    ins': "insert_interaction ''t1'' 9 i scenario = (Inr data', s1')"
    and t': "touch_contact ''t1'' 9 (Some 1) s1' = (Inr touched, s2')" by auto
  from addInteraction_second_write [OF ins', THEN conjunct2, rule_format, of touched s2'] t' cid
  have ok: "db_addInteraction ''t1'' 9 i scenario = (Inr data', s2') \<and>
      c_last_contact_at (fst touched) = Some 9" by simp
  from ins t fail ins' t' ok show ?thesis unfolding i_def by blast
qed

section \<open>The update stamp of a contact\<close>










section \<open>Completing and reopening a task\<close>

lemma task_with_contact_simps [simp]:
  "task_with_contact (s\<lparr>requests := rq\<rparr>) t = task_with_contact s t"
  "task_with_contact (s\<lparr>crm_tasks := ts\<rparr>) t = task_with_contact s t"
  "task_with_contact (s\<lparr>task_seq := n\<rparr>) t = task_with_contact s t"
  by (simp_all add: task_with_contact_def)

lemma update_task_ok:
  assumes "outages s = []"
      and "filter (\<lambda>t. t_id t = rid \<and> t_agent_id t = a) (crm_tasks s) = [t]"
      and "t_contact_id (payload t) = t_contact_id t"
      and "undefined_column task_table columns = None"
  shows "update_task a rid columns payload s =
     (Inr (task_with_contact s (payload t)),
      s\<lparr>requests := requests s @ [Update ''crm_tasks'' columns],
        crm_tasks := map (\<lambda>x. if t_id x = rid \<and> t_agent_id x = a then payload x else x)
                       (crm_tasks s)\<rparr>)"
  using assms by (simp add: update_task_def transport_ok)

lemma filter_map_payload:
  assumes "\<And>x. k (f x) = k x"
  shows "filter (\<lambda>x. k x = v) (map (\<lambda>x. if k x = v then f x else x) xs) =
         map f (filter (\<lambda>x. k x = v) xs)"
  by (induction xs) (auto simp: assms)

lemma filter_task_update:
  assumes "\<And>x. t_id (f x) = t_id x" "\<And>x. t_agent_id (f x) = t_agent_id x"
  shows "filter (\<lambda>t. t_id t = rid \<and> t_agent_id t = a)
           (map (\<lambda>x. if t_id x = rid \<and> t_agent_id x = a then f x else x) xs) =
         map f (filter (\<lambda>t. t_id t = rid \<and> t_agent_id t = a) xs)"
  by (induction xs) (auto simp: assms)

lemma db_addTask_ok:
  assumes "outages s = []" "task_title task = Some title"
      and "contact_exists s (nat_or_null (task_contactId task))"
  shows "db_addTask a now task s =
     (Inr (task_with_contact s
        \<lparr>t_id = task_seq s, t_agent_id = a, t_contact_id = nat_or_null (task_contactId task),
         t_title = title, t_description = str_or_null (task_description task),
         t_due_at = task_dueAt task, t_assigned_to = str_or_null (task_assignedTo task),
         t_priority = (if truthy_str (task_priority task) then the (task_priority task)
                       else ''medium''),
         t_completed = False, t_completed_at = None, t_created_at = now\<rparr>),
      s\<lparr>requests := requests s @ [Insert ''crm_tasks''], task_seq := Suc (task_seq s),
        crm_tasks := crm_tasks s @
          [\<lparr>t_id = task_seq s, t_agent_id = a, t_contact_id = nat_or_null (task_contactId task),
         t_title = title, t_description = str_or_null (task_description task),
         t_due_at = task_dueAt task, t_assigned_to = str_or_null (task_assignedTo task),
         t_priority = (if truthy_str (task_priority task) then the (task_priority task)
                       else ''medium''),
         t_completed = False, t_completed_at = None, t_created_at = now\<rparr>]\<rparr>)"
  using assms by (simp add: db_addTask_def transport_ok Let_def)

text \<open>
  Claim C8. On a store that answers and has handed out its task ids from the serial counter,
  \<^verbatim>\<open>addTask\<close> with a title creates an open task; \<^verbatim>\<open>completeTask\<close> on its id sets
  \<^verbatim>\<open>completed\<close> and stamps \<^verbatim>\<open>completed_at\<close> with the clock reading; \<^verbatim>\<open>uncompleteTask\<close> then
  clears both, in the returned row and in the stored one.
\<close>

theorem task_completion_round_trip:
  assumes "outages s = []"
      and "\<forall>t\<in>set (crm_tasks s). t_id t < task_seq s"
      and "truthy_str (task_title task)"
      and "contact_exists s (nat_or_null (task_contactId task))"
  shows "\<exists>row j1 s1 completed j2 s2 reopened j3 s3.
           crm_addTask agentId now task s = (Inr (row, j1), s1) \<and>
           \<not> t_completed row \<and> t_completed_at row = None \<and>
           crm_completeTask agentId later (t_id row) s1 = (Inr (completed, j2), s2) \<and>
           completed = row\<lparr>t_completed := True, t_completed_at := Some later\<rparr> \<and>
           filter (\<lambda>t. t_id t = t_id row \<and> t_agent_id t = agentId) (crm_tasks s2) = [completed] \<and>
           crm_uncompleteTask agentId (t_id row) s2 = (Inr (reopened, j3), s3) \<and>
           \<not> t_completed reopened \<and> t_completed_at reopened = None \<and>
           filter (\<lambda>t. t_id t = t_id row \<and> t_agent_id t = agentId) (crm_tasks s3) = [reopened]"
proof -
  from assms(3) obtain title where title: "task_title task = Some title"
    by (auto simp: truthy_str_def split: option.splits)
  define row where "row =
        \<lparr>t_id = task_seq s, t_agent_id = agentId, t_contact_id = nat_or_null (task_contactId task),
         t_title = title, t_description = str_or_null (task_description task),
         t_due_at = task_dueAt task, t_assigned_to = str_or_null (task_assignedTo task),
         t_priority = (if truthy_str (task_priority task) then the (task_priority task)
                       else ''medium''),
         t_completed = False, t_completed_at = None, t_created_at = now\<rparr>"
  define s1 where "s1 = s\<lparr>requests := requests s @ [Insert ''crm_tasks''],
        task_seq := Suc (task_seq s), crm_tasks := crm_tasks s @ [row]\<rparr>"
  have add: "crm_addTask agentId now task s = (Inr (task_with_contact s row), s1)"
    using db_addTask_ok [OF assms(1) title assms(4), of agentId now] assms(3)
    by (simp add: crm_addTask_def row_def s1_def)
  have fresh: "filter (\<lambda>t. t_id t = task_seq s \<and> t_agent_id t = agentId) (crm_tasks s) = []"
    using assms(2) by (auto simp: filter_empty_conv)
  have one1: "filter (\<lambda>t. t_id t = t_id row \<and> t_agent_id t = agentId) (crm_tasks s1) = [row]"
    using fresh by (simp add: s1_def row_def)
  have o1: "outages s1 = []" using assms(1) by (simp add: s1_def)
  define completed where "completed = row\<lparr>t_completed := True, t_completed_at := Some later\<rparr>"
  define s2 where "s2 = s1\<lparr>requests := requests s1 @ [Update ''crm_tasks'' [''completed'', ''completed_at'']],
        crm_tasks := map (\<lambda>x. if t_id x = t_id row \<and> t_agent_id x = agentId
            then x\<lparr>t_completed := True, t_completed_at := Some later\<rparr> else x) (crm_tasks s1)\<rparr>"
  have comp: "crm_completeTask agentId later (t_id row) s1 = (Inr (task_with_contact s1 completed), s2)"
    using update_task_ok [OF o1 one1 _ completion_columns,
        of "\<lambda>t. t\<lparr>t_completed := True, t_completed_at := Some later\<rparr>"]
    by (simp add: crm_completeTask_def db_completeTask_def completed_def s2_def)
  have one2: "filter (\<lambda>t. t_id t = t_id row \<and> t_agent_id t = agentId) (crm_tasks s2) = [completed]"
    using one1 by (simp add: s2_def filter_task_update completed_def)
  have o2: "outages s2 = []" using o1 by (simp add: s2_def)
  define reopened where "reopened = completed\<lparr>t_completed := False, t_completed_at := None\<rparr>"
  define s3 where "s3 = s2\<lparr>requests := requests s2 @ [Update ''crm_tasks'' [''completed'', ''completed_at'']],
        crm_tasks := map (\<lambda>x. if t_id x = t_id row \<and> t_agent_id x = agentId
            then x\<lparr>t_completed := False, t_completed_at := None\<rparr> else x) (crm_tasks s2)\<rparr>"
  have unc: "crm_uncompleteTask agentId (t_id row) s2 = (Inr (task_with_contact s2 reopened), s3)"
    using update_task_ok [OF o2 one2 _ completion_columns,
        of "\<lambda>t. t\<lparr>t_completed := False, t_completed_at := None\<rparr>"]
    by (simp add: crm_uncompleteTask_def db_uncompleteTask_def reopened_def s3_def)
  have one3: "filter (\<lambda>t. t_id t = t_id row \<and> t_agent_id t = agentId) (crm_tasks s3) = [reopened]"
    using one2 by (simp add: s3_def filter_task_update reopened_def)
  have a1: "crm_addTask agentId now task s = (Inr (row, contact_of s (t_contact_id row)), s1)"
    using add by (simp add: task_with_contact_def)
  have a2: "crm_completeTask agentId later (t_id row) s1 =
      (Inr (completed, contact_of s1 (t_contact_id completed)), s2)"
    using comp by (simp add: task_with_contact_def)
  have a3: "crm_uncompleteTask agentId (t_id row) s2 =
      (Inr (reopened, contact_of s2 (t_contact_id reopened)), s3)"
    using unc by (simp add: task_with_contact_def)
  have r1: "\<not> t_completed row \<and> t_completed_at row = None" by (simp add: row_def)
  have r2: "completed = row\<lparr>t_completed := True, t_completed_at := Some later\<rparr>"
    by (simp add: completed_def)
  have r3: "\<not> t_completed reopened \<and> t_completed_at reopened = None"
    by (simp add: reopened_def)
  from a1 r1 a2 r2 one2 a3 r3 one3 show ?thesis by blast
qed

theorem task_completion_round_trip_witness:
  "outages scenario = [] \<and> crm_tasks scenario = [] \<and>
   truthy_str (task_title (empty_task\<lparr>task_title := Some ''X''\<rparr>)) \<and>
   (\<exists>row j1 s1 completed j2 s2 reopened j3 s3.
      crm_addTask ''t1'' 7 (empty_task\<lparr>task_title := Some ''X''\<rparr>) scenario =
        (Inr (row, j1), s1) \<and>
      \<not> t_completed row \<and> t_completed_at row = None \<and>
      crm_completeTask ''t1'' 9 (t_id row) s1 = (Inr (completed, j2), s2) \<and>
      completed = row\<lparr>t_completed := True, t_completed_at := Some 9\<rparr> \<and>
      filter (\<lambda>t. t_id t = t_id row \<and> t_agent_id t = ''t1'') (crm_tasks s2) = [completed] \<and>
      crm_uncompleteTask ''t1'' (t_id row) s2 = (Inr (reopened, j3), s3) \<and>
      \<not> t_completed reopened \<and> t_completed_at reopened = None \<and>
      filter (\<lambda>t. t_id t = t_id row \<and> t_agent_id t = ''t1'') (crm_tasks s3) = [reopened])"
proof -
  have h1: "outages scenario = []" by (simp add: scenario_eq)
  have e: "crm_tasks scenario = []" by (simp add: scenario_eq)
  then have h2: "\<forall>t\<in>set (crm_tasks scenario). t_id t < task_seq scenario" by simp
  have h3: "truthy_str (task_title (empty_task\<lparr>task_title := Some ''X''\<rparr>))"
    by (simp add: truthy_str_def)
  have h4: "contact_exists scenario
      (nat_or_null (task_contactId (empty_task\<lparr>task_title := Some ''X''\<rparr>)))"
    by (simp add: empty_task_def nat_or_null_def truthy_nat_def contact_exists_def)
  from task_completion_round_trip [OF h1 h2 h3 h4, of "''t1''" 7 9] h1 e h3
  show ?thesis by simp
qed


section \<open>The pipeline statistics\<close>

lemma sum_deals_sum_list: "sum_deals cs = sum_list (map deal cs)"
proof -
  have "foldl (\<lambda>sum c. sum + deal c) a cs = a + sum_list (map deal cs)" for a
    by (induction cs arbitrary: a) (simp_all add: add.assoc)
  then show ?thesis by (simp add: sum_deals_def)
qed

lemma count_by_row:
  "sum_list (map (\<lambda>st. length (filter (P st) cs)) sts) =
   sum_list (map (\<lambda>c. length (filter (\<lambda>st. P st c) sts)) cs)"
proof (induction cs)
  case Nil
  then show ?case by simp
next
  case (Cons c cs)
  have "sum_list (map (\<lambda>st. length (filter (P st) (c # cs))) sts) =
        sum_list (map (\<lambda>st. (if P st c then 1 else 0) + length (filter (P st) cs)) sts)"
    by (intro arg_cong [where f = sum_list] map_cong) auto
  also have "\<dots> = sum_list (map (\<lambda>st. if P st c then 1 else 0) sts) +
                   sum_list (map (\<lambda>st. length (filter (P st) cs)) sts)"
    by (simp add: sum_list_addf)
  also have "sum_list (map (\<lambda>st. if P st c then 1 else 0) sts) = length (filter (\<lambda>st. P st c) sts)"
    by (induction sts) auto
  finally show ?case using Cons.IH by simp
qed

lemma value_by_row:
  "sum_list (map (\<lambda>st. sum_list (map deal (filter (P st) cs))) sts) =
   sum_list (map (\<lambda>c. deal c * of_nat (length (filter (\<lambda>st. P st c) sts))) cs)"
proof (induction cs)
  case Nil
  then show ?case by simp
next
  case (Cons c cs)
  have "sum_list (map (\<lambda>st. sum_list (map deal (filter (P st) (c # cs)))) sts) =
        sum_list (map (\<lambda>st. (if P st c then deal c else 0) +
                            sum_list (map deal (filter (P st) cs))) sts)"
    by (intro arg_cong [where f = sum_list] map_cong) auto
  also have "\<dots> = sum_list (map (\<lambda>st. if P st c then deal c else 0) sts) +
                   sum_list (map (\<lambda>st. sum_list (map deal (filter (P st) cs))) sts)"
    by (simp add: sum_list_addf)
  also have "sum_list (map (\<lambda>st. if P st c then deal c else 0) sts) =
             deal c * of_nat (length (filter (\<lambda>st. P st c) sts))"
    by (induction sts) (auto simp: algebra_simps)
  finally show ?case using Cons.IH by simp
qed

lemma single_match:
  "distinct (map f xs) \<Longrightarrow> x \<in> set xs \<Longrightarrow> length (filter (\<lambda>y. f y = f x) xs) = 1"
proof (induction xs)
  case Nil
  then show ?case by simp
next
  case (Cons a xs)
  show ?case
  proof (cases "a = x")
    case True
    with Cons.prems have "filter (\<lambda>y. f y = f x) xs = []"
      by (force simp: filter_empty_conv image_iff)
    with True show ?thesis by simp
  next
    case False
    with Cons.prems have "x \<in> set xs" "f a \<noteq> f x" by auto
    with Cons show ?thesis by simp
  qed
qed

lemma partition_counts:
  assumes d: "distinct (map st_id sts)"
      and nz: "\<forall>r\<in>set sts. st_id r \<noteq> 0"
      and own: "\<forall>c\<in>set cs. truthy_nat (c_stage_id c) \<longrightarrow> (\<exists>r\<in>set sts. c_stage_id c = Some (st_id r))"
  shows "sum_list (map (\<lambda>st. length (filter (\<lambda>c. c_stage_id c = Some (st_id st)) cs)) sts) +
           length (filter (\<lambda>c. \<not> truthy_nat (c_stage_id c)) cs) = length cs"
    and "sum_list (map (\<lambda>st. sum_list (map deal (filter (\<lambda>c. c_stage_id c = Some (st_id st)) cs))) sts) +
           sum_list (map deal (filter (\<lambda>c. \<not> truthy_nat (c_stage_id c)) cs)) = sum_list (map deal cs)"
proof -
  have m: "length (filter (\<lambda>st. c_stage_id c = Some (st_id st)) sts) =
           (if truthy_nat (c_stage_id c) then 1 else 0)" if "c \<in> set cs" for c
  proof (cases "truthy_nat (c_stage_id c)")
    case True
    with own that obtain r where r: "r \<in> set sts" "c_stage_id c = Some (st_id r)" by blast
    from single_match [OF d r(1)] r(2) True show ?thesis
      by (simp add: eq_commute)
  next
    case False
    have "filter (\<lambda>st. c_stage_id c = Some (st_id st)) sts = []"
      using False nz by (auto simp: filter_empty_conv truthy_nat_def split: option.splits)
    with False show ?thesis by simp
  qed
  have "sum_list (map (\<lambda>st. length (filter (\<lambda>c. c_stage_id c = Some (st_id st)) cs)) sts) =
        sum_list (map (\<lambda>c. if truthy_nat (c_stage_id c) then 1 else 0) cs)"
    unfolding count_by_row [of "\<lambda>st c. c_stage_id c = Some (st_id st)"]
    by (intro arg_cong [where f = sum_list] map_cong) (simp_all add: m)
  moreover have "sum_list (map (\<lambda>c. if truthy_nat (c_stage_id c) then 1 else 0) xs) +
      length (filter (\<lambda>c. \<not> truthy_nat (c_stage_id c)) xs) = length xs" for xs :: "contact list"
    by (induction xs) auto
  ultimately show "sum_list (map (\<lambda>st. length (filter (\<lambda>c. c_stage_id c = Some (st_id st)) cs)) sts) +
           length (filter (\<lambda>c. \<not> truthy_nat (c_stage_id c)) cs) = length cs" by simp
  have "sum_list (map (\<lambda>st. sum_list (map deal (filter (\<lambda>c. c_stage_id c = Some (st_id st)) cs))) sts) =
        sum_list (map (\<lambda>c. if truthy_nat (c_stage_id c) then deal c else 0) cs)"
    unfolding value_by_row [of "\<lambda>st c. c_stage_id c = Some (st_id st)"]
    by (intro arg_cong [where f = sum_list] map_cong) (simp_all add: m)
  moreover have "sum_list (map (\<lambda>c. if truthy_nat (c_stage_id c) then deal c else 0) xs) +
      sum_list (map deal (filter (\<lambda>c. \<not> truthy_nat (c_stage_id c)) xs)) = sum_list (map deal xs)"
      for xs :: "contact list"
    by (induction xs) auto
  ultimately show "sum_list (map (\<lambda>st. sum_list (map deal (filter (\<lambda>c. c_stage_id c = Some (st_id st)) cs))) sts) +
           sum_list (map deal (filter (\<lambda>c. \<not> truthy_nat (c_stage_id c)) cs)) = sum_list (map deal cs)"
    by simp
qed

lemma db_getPipelineStats_Inr:
  assumes "db_getPipelineStats a s = (Inr stats, s')"
  shows "stats =
     (let contacts = filter (\<lambda>c. c_agent_id c = a \<and> c_is_active c) (crm_contacts s);
          pipeline = map (stage_bucket contacts)
                       (sort_key st_position (filter (\<lambda>r. st_agent_id r = a) (crm_stages s)));
          unstagedContacts = filter (\<lambda>c. \<not> truthy_nat (c_stage_id c)) contacts
      in \<lparr>stages =
            (if length unstagedContacts > 0
             then \<lparr>b_id = None, b_name = ''Unstaged'', b_color = Some ''#888888'', b_position = 0,
                   b_count = length unstagedContacts,
                   b_value = sum_deals unstagedContacts\<rparr> # pipeline
             else pipeline),
          totalContacts = length contacts,
          totalValue = sum_deals contacts\<rparr>)"
proof -
  obtain ok1 s1 where t1: "transport (Select ''crm_stages'') s = (ok1, s1)"
    by (cases "transport (Select ''crm_stages'') s") auto
  obtain ok2 s2 where t2: "transport (Select ''crm_contacts'') s1 = (ok2, s2)"
    by (cases "transport (Select ''crm_contacts'') s1") auto
  from assms t1 t2 transport_tables [OF t1] transport_tables [OF t2] show ?thesis
    by (auto simp: db_getPipelineStats_def db_listStages_def Let_def split: if_splits)
qed


text \<open>
  What holds of \<^verbatim>\<open>getPipelineStats\<close>. Take the stage ids of the tenant as the store hands
  them out (distinct, from 1), and let every active contact of the tenant that has a stage
  reference point to one of the tenant's own stages. Then whenever \<^verbatim>\<open>getPipelineStats\<close>
  returns, its buckets are the tenant's stages in position order, preceded by the bucket
  Unstaged at position 0 exactly when an active contact without a stage exists; each bucket
  counts the active contacts of its stage and sums their deal values, \<^verbatim>\<open>null\<close> as zero; the
  counts add up to \<^verbatim>\<open>totalContacts\<close> and the values to \<^verbatim>\<open>totalValue\<close>, both taken over the
  active contacts only. The deal values of the active contacts are taken to be whole
  amounts, for which the doubles of \<^verbatim>\<open>db.js\<close> add up without rounding.
\<close>

lemma getPipelineStats_totals_own_stages:
  assumes "crm_getPipelineStats agentId s = (Inr stats, s')"
      and "distinct (map st_id (filter (\<lambda>r. st_agent_id r = agentId) (crm_stages s)))"
      and "\<forall>r\<in>set (crm_stages s). st_agent_id r = agentId \<longrightarrow> st_id r \<noteq> 0"
      and "\<forall>c\<in>set (crm_contacts s).
             c_agent_id c = agentId \<and> c_is_active c \<and> truthy_nat (c_stage_id c) \<longrightarrow>
             (\<exists>r\<in>set (crm_stages s). st_agent_id r = agentId \<and> c_stage_id c = Some (st_id r))"
      and "whole_amounts (filter (\<lambda>c. c_agent_id c = agentId \<and> c_is_active c) (crm_contacts s))"
  shows "sum_list (map b_count (stages stats)) = totalContacts stats \<and>
         sum_list (map b_value (stages stats)) = totalValue stats \<and>
         totalContacts stats =
           length (filter (\<lambda>c. c_agent_id c = agentId \<and> c_is_active c) (crm_contacts s)) \<and>
         totalValue stats =
           sum_list (map deal (filter (\<lambda>c. c_agent_id c = agentId \<and> c_is_active c)
                                  (crm_contacts s))) \<and>
         map b_id (stages stats) =
           (if list_ex (\<lambda>c. c_agent_id c = agentId \<and> c_is_active c \<and> \<not> truthy_nat (c_stage_id c))
                 (crm_contacts s)
            then [None] else []) @
           map (\<lambda>r. Some (st_id r))
             (sort_key st_position (filter (\<lambda>r. st_agent_id r = agentId) (crm_stages s))) \<and>
         (\<forall>b\<in>set (stages stats).
            b_count b =
              length (filter (\<lambda>c. c_agent_id c = agentId \<and> c_is_active c \<and>
                                   (case b_id b of
                                      None \<Rightarrow> \<not> truthy_nat (c_stage_id c)
                                    | Some i \<Rightarrow> c_stage_id c = Some i)) (crm_contacts s)) \<and>
            b_value b =
              sum_list (map deal
                (filter (\<lambda>c. c_agent_id c = agentId \<and> c_is_active c \<and>
                             (case b_id b of
                                None \<Rightarrow> \<not> truthy_nat (c_stage_id c)
                              | Some i \<Rightarrow> c_stage_id c = Some i)) (crm_contacts s))) \<and>
            (b_id b = None \<longrightarrow> b_position b = 0 \<and> b_name b = ''Unstaged''))"
proof -
  define cs where "cs = filter (\<lambda>c. c_agent_id c = agentId \<and> c_is_active c) (crm_contacts s)"
  define sts where "sts = sort_key st_position (filter (\<lambda>r. st_agent_id r = agentId) (crm_stages s))"
  define un where "un = filter (\<lambda>c. \<not> truthy_nat (c_stage_id c)) cs"
  define ub where "ub = \<lparr>b_id = None, b_name = ''Unstaged'', b_color = Some ''#888888'',
     b_position = 0, b_count = length un, b_value = sum_deals un\<rparr>"
  from assms(1) have "db_getPipelineStats agentId s = (Inr stats, s')"
    by (simp add: crm_getPipelineStats_def)
  from db_getPipelineStats_Inr [OF this]
  have stats: "stats = \<lparr>stages = (if length un > 0 then ub # map (stage_bucket cs) sts
                                   else map (stage_bucket cs) sts),
                        totalContacts = length cs, totalValue = sum_deals cs\<rparr>"
    by (simp add: cs_def sts_def un_def ub_def Let_def)
  have d: "distinct (map st_id sts)"
    using assms(2) by (simp add: sts_def distinct_map)
  have nz: "\<forall>r\<in>set sts. st_id r \<noteq> 0" using assms(3) by (simp add: sts_def)
  have own: "\<forall>c\<in>set cs. truthy_nat (c_stage_id c) \<longrightarrow> (\<exists>r\<in>set sts. c_stage_id c = Some (st_id r))"
    using assms(4) by (auto simp: cs_def sts_def)
  note part = partition_counts [OF d nz own]
  have bc: "map b_count (map (stage_bucket cs) sts) =
            map (\<lambda>st. length (filter (\<lambda>c. c_stage_id c = Some (st_id st)) cs)) sts"
    by (simp add: stage_bucket_def Let_def)
  have bv: "map b_value (map (stage_bucket cs) sts) =
            map (\<lambda>st. sum_list (map deal (filter (\<lambda>c. c_stage_id c = Some (st_id st)) cs))) sts"
    by (simp add: stage_bucket_def Let_def sum_deals_sum_list)
  have un0: "length un = 0 \<Longrightarrow> sum_list (map deal un) = 0" by simp
  have counts: "sum_list (map b_count (stages stats)) = totalContacts stats"
    using part(1) bc by (auto simp add: stats ub_def un_def simp del: map_map)
  have vals: "sum_list (map b_value (stages stats)) = totalValue stats"
    using part(2) bv un0 by (auto simp add: stats ub_def un_def sum_deals_sum_list simp del: map_map)
  have ids: "map b_id (stages stats) =
           (if list_ex (\<lambda>c. c_agent_id c = agentId \<and> c_is_active c \<and> \<not> truthy_nat (c_stage_id c))
                 (crm_contacts s)
            then [None] else []) @ map (\<lambda>r. Some (st_id r)) sts"
  proof -
    have "(length un > 0) =
        list_ex (\<lambda>c. c_agent_id c = agentId \<and> c_is_active c \<and> \<not> truthy_nat (c_stage_id c))
                 (crm_contacts s)"
      by (auto simp: un_def cs_def list_ex_iff filter_empty_conv length_greater_0_conv)
    then show ?thesis
      by (simp add: stats ub_def stage_bucket_def Let_def comp_def)
  qed
  have ff: "filter (\<lambda>c. c_agent_id c = agentId \<and> c_is_active c \<and> Q c) (crm_contacts s) = filter Q cs"
    for Q by (simp add: cs_def conj_ac)
  have each: "b_count b = length (filter (\<lambda>c. case b_id b of
                                      None \<Rightarrow> \<not> truthy_nat (c_stage_id c)
                                    | Some i \<Rightarrow> c_stage_id c = Some i) cs) \<and>
              b_value b = sum_list (map deal (filter (\<lambda>c. case b_id b of
                                      None \<Rightarrow> \<not> truthy_nat (c_stage_id c)
                                    | Some i \<Rightarrow> c_stage_id c = Some i) cs)) \<and>
              (b_id b = None \<longrightarrow> b_position b = 0 \<and> b_name b = ''Unstaged'')"
    if "b \<in> set (stages stats)" for b
  proof -
    from that have "b = ub \<or> b \<in> stage_bucket cs ` set sts"
      by (auto simp: stats split: if_splits)
    then show ?thesis
      by (auto simp: ub_def un_def stage_bucket_def Let_def sum_deals_sum_list)
  qed
  from counts vals ids each show ?thesis
    by (simp add: ff stats sts_def [symmetric] cs_def [symmetric] sum_deals_sum_list)
qed

text \<open>The scenario of the specification gives the figures the specification expects.\<close>

lemma getPipelineStats_scenario:
  "distinct (map st_id (filter (\<lambda>r. st_agent_id r = ''t1'') (crm_stages scenario))) \<and>
   fst (crm_getPipelineStats ''t1'' scenario) =
     Inr \<lparr>stages =
            [\<lparr>b_id = None, b_name = ''Unstaged'', b_color = Some ''#888888'',
              b_position = 0, b_count = 1, b_value = 25\<rparr>,
             \<lparr>b_id = Some 1, b_name = ''Lead'', b_color = None, b_position = 1,
              b_count = 1, b_value = 100\<rparr>,
             \<lparr>b_id = Some 2, b_name = ''Won'', b_color = None, b_position = 2,
              b_count = 1, b_value = 50\<rparr>],
          totalContacts = 3, totalValue = 175\<rparr> \<and>
   sum_list (map b_count (stages (projr (fst (crm_getPipelineStats ''t1'' scenario))))) =
     totalContacts (projr (fst (crm_getPipelineStats ''t1'' scenario))) \<and>
   sum_list (map b_value (stages (projr (fst (crm_getPipelineStats ''t1'' scenario))))) =
     totalValue (projr (fst (crm_getPipelineStats ''t1'' scenario)))"
proof -
  define stats where "stats = \<lparr>stages =
            [\<lparr>b_id = None, b_name = ''Unstaged'', b_color = Some ''#888888'',
              b_position = 0, b_count = 1, b_value = 25\<rparr>,
             \<lparr>b_id = Some 1, b_name = ''Lead'', b_color = None, b_position = 1,
              b_count = 1, b_value = 100\<rparr>,
             \<lparr>b_id = Some 2, b_name = ''Won'', b_color = None, b_position = 2,
              b_count = 1, b_value = 50\<rparr>],
          totalContacts = 3, totalValue = 175\<rparr>"
  have "\<exists>s'. crm_getPipelineStats ''t1'' scenario = (Inr stats, s')"
    by (simp add: crm_getPipelineStats_def db_getPipelineStats_def stage_bucket_def sum_deals_def
          deal_def stats_def scenario_eq evaluation)
  then obtain s' where run: "crm_getPipelineStats ''t1'' scenario = (Inr stats, s')" by auto
  have h1: "distinct (map st_id (filter (\<lambda>r. st_agent_id r = ''t1'') (crm_stages scenario)))"
    by (simp add: scenario_eq)
  have h2: "\<forall>r\<in>set (crm_stages scenario). st_agent_id r = ''t1'' \<longrightarrow> st_id r \<noteq> 0"
    by (simp add: scenario_eq)
  have h3: "\<forall>c\<in>set (crm_contacts scenario).
             c_agent_id c = ''t1'' \<and> c_is_active c \<and> truthy_nat (c_stage_id c) \<longrightarrow>
             (\<exists>r\<in>set (crm_stages scenario). st_agent_id r = ''t1'' \<and> c_stage_id c = Some (st_id r))"
    by (simp add: scenario_eq truthy_nat_def)
  have h4: "whole_amounts (filter (\<lambda>c. c_agent_id c = ''t1'' \<and> c_is_active c)
             (crm_contacts scenario))"
    by (simp add: whole_amounts_def deal_def scenario_eq)
  from getPipelineStats_totals_own_stages [OF run h1 h2 h3 h4]
  have "sum_list (map b_count (stages stats)) = totalContacts stats \<and>
        sum_list (map b_value (stages stats)) = totalValue stats" by simp
  with run h1 show ?thesis by (simp add: stats_def)
qed

text \<open>
  Claim C2: for every mix of staged, unstaged and inactive contacts of a tenant, the counts of
  the buckets of \<^verbatim>\<open>getPipelineStats\<close> add up to \<^verbatim>\<open>totalContacts\<close> and their values to
  \<^verbatim>\<open>totalValue\<close>. The code breaks it for a contact staged in a stage of another tenant,
  which \<^verbatim>\<open>createContact\<close> accepts: tenant \<^verbatim>\<open>t2\<close> creates a stage (id 1), tenant \<^verbatim>\<open>t1\<close> creates
  a contact in stage 1 with deal value 40; the statistics of \<^verbatim>\<open>t1\<close> then count the contact in
  the totals and in no bucket.
\<close>

theorem getPipelineStats_foreign_stage:
  "fst (crm_getPipelineStats ''t1''
     (snd (crm_createContact ''t1'' 2
        (empty_contact\<lparr>contact_name := Some ''A'', contact_stageId := Some 1,
           contact_dealValue := Some 40\<rparr>)
        (snd (crm_createStage ''t2'' 1
           \<lparr>stage_name = Some ''Theirs'', stage_position = None, stage_color = None\<rparr>
           empty_store))))) =
   Inr \<lparr>stages = [], totalContacts = 1, totalValue = 40\<rparr>"
  by (simp add: crm_getPipelineStats_def db_getPipelineStats_def stage_bucket_def sum_deals_def
        deal_def crm_createStage_def db_createStage_def crm_createContact_def
        db_createContact_def evaluation)


section \<open>Isolation in a sealed store\<close>

text \<open>
  The agent filter of \<^verbatim>\<open>SupabaseDB\<close> does isolate the tenants as long as no row references
  a row of another tenant: each operation is shown isolated at a store whose references stay
  within the tenant, given that the ids it is passed as references do so too.
\<close>

subsection \<open>The view of one tenant\<close>

lemma own_fields [simp]:
  "crm_stages (own a s) = filter (\<lambda>r. st_agent_id r = a) (crm_stages s)"
  "crm_contacts (own a s) = filter (\<lambda>c. c_agent_id c = a) (crm_contacts s)"
  "crm_interactions (own a s) = filter (\<lambda>i. i_agent_id i = a) (crm_interactions s)"
  "crm_tasks (own a s) = filter (\<lambda>t. t_agent_id t = a) (crm_tasks s)"
  "stage_seq (own a s) = stage_seq s" "contact_seq (own a s) = contact_seq s"
  "interaction_seq (own a s) = interaction_seq s" "task_seq (own a s) = task_seq s"
  "outages (own a s) = outages s" "requests (own a s) = requests s"
  by (simp_all add: own_def)

lemma own_updates [simp]:
  "own a (s\<lparr>requests := rq\<rparr>) = (own a s)\<lparr>requests := rq\<rparr>"
  "own a (s\<lparr>outages := ou\<rparr>) = (own a s)\<lparr>outages := ou\<rparr>"
  "own a (s\<lparr>stage_seq := n\<rparr>) = (own a s)\<lparr>stage_seq := n\<rparr>"
  "own a (s\<lparr>contact_seq := n\<rparr>) = (own a s)\<lparr>contact_seq := n\<rparr>"
  "own a (s\<lparr>interaction_seq := n\<rparr>) = (own a s)\<lparr>interaction_seq := n\<rparr>"
  "own a (s\<lparr>task_seq := n\<rparr>) = (own a s)\<lparr>task_seq := n\<rparr>"
  "own a (s\<lparr>crm_stages := sts\<rparr>) = (own a s)\<lparr>crm_stages := filter (\<lambda>r. st_agent_id r = a) sts\<rparr>"
  "own a (s\<lparr>crm_contacts := cs\<rparr>) = (own a s)\<lparr>crm_contacts := filter (\<lambda>c. c_agent_id c = a) cs\<rparr>"
  "own a (s\<lparr>crm_interactions := ins\<rparr>) =
     (own a s)\<lparr>crm_interactions := filter (\<lambda>i. i_agent_id i = a) ins\<rparr>"
  "own a (s\<lparr>crm_tasks := ts\<rparr>) = (own a s)\<lparr>crm_tasks := filter (\<lambda>t. t_agent_id t = a) ts\<rparr>"
  by (simp_all add: own_def)

lemma others_updates [simp]:
  "others a (s\<lparr>requests := rq\<rparr>) = others a s"
  "others a (s\<lparr>outages := ou\<rparr>) = others a s"
  "others a (s\<lparr>stage_seq := n\<rparr>) = others a s"
  "others a (s\<lparr>contact_seq := n\<rparr>) = others a s"
  "others a (s\<lparr>interaction_seq := n\<rparr>) = others a s"
  "others a (s\<lparr>task_seq := n\<rparr>) = others a s"
  by (simp_all add: others_def)

lemma others_tables:
  "others a (s\<lparr>crm_stages := sts\<rparr>) = others a s \<longleftrightarrow>
     filter (\<lambda>r. st_agent_id r \<noteq> a) sts = filter (\<lambda>r. st_agent_id r \<noteq> a) (crm_stages s)"
  "others a (s\<lparr>crm_contacts := cs\<rparr>) = others a s \<longleftrightarrow>
     filter (\<lambda>c. c_agent_id c \<noteq> a) cs = filter (\<lambda>c. c_agent_id c \<noteq> a) (crm_contacts s)"
  "others a (s\<lparr>crm_interactions := ins\<rparr>) = others a s \<longleftrightarrow>
     filter (\<lambda>i. i_agent_id i \<noteq> a) ins = filter (\<lambda>i. i_agent_id i \<noteq> a) (crm_interactions s)"
  "others a (s\<lparr>crm_tasks := ts\<rparr>) = others a s \<longleftrightarrow>
     filter (\<lambda>t. t_agent_id t \<noteq> a) ts = filter (\<lambda>t. t_agent_id t \<noteq> a) (crm_tasks s)"
  by (simp_all add: others_def)

lemma store_eqI:
  fixes x y :: store
  assumes "crm_stages x = crm_stages y" "crm_contacts x = crm_contacts y"
    "crm_interactions x = crm_interactions y" "crm_tasks x = crm_tasks y"
    "stage_seq x = stage_seq y" "contact_seq x = contact_seq y"
    "interaction_seq x = interaction_seq y" "task_seq x = task_seq y"
    "outages x = outages y" "requests x = requests y"
  shows "x = y"
  using assms by (intro store.equality) simp_all

lemma transport_own:
  "transport r (own a s) = (fst (transport r s), own a (snd (transport r s)))"
  by (simp add: transport_def split: list.splits)

lemma transport_others: "others a (snd (transport r s)) = others a s"
  by (simp add: transport_def split: list.splits)

text \<open>
  An operation that sends one request and then works on the tables is isolated when the
  work on the tables is.
\<close>

lemma isolated_request:
  assumes f: "\<And>s. f s = (case transport r s of (ok, s') \<Rightarrow> if \<not> ok then (Inl e, s') else body s')"
      and body: "\<And>s1. crm_stages s1 = crm_stages s \<Longrightarrow> crm_contacts s1 = crm_contacts s \<Longrightarrow>
                   crm_interactions s1 = crm_interactions s \<Longrightarrow> crm_tasks s1 = crm_tasks s \<Longrightarrow>
                   isolated a body s1"
  shows "isolated a f s"
proof -
  obtain ok s1 where t: "transport r s = (ok, s1)" by (cases "transport r s") auto
  then have t': "transport r (own a s) = (ok, own a s1)" by (simp add: transport_own)
  from transport_tables [OF t] have "isolated a body s1" by (intro body) simp_all
  moreover from transport_others [of a r s] t have "others a s1 = others a s" by simp
  ultimately show ?thesis
    by (simp add: isolated_def f t t')
qed

text \<open>Two operations in sequence, the second run only when the first returns.\<close>

lemma isolated_then:
  assumes f: "isolated a f s"
      and g: "\<And>x s1. f s = (Inr x, s1) \<Longrightarrow> isolated a (g x) s1"
      and h: "\<And>s. h s = (case f s of (Inl e, s') \<Rightarrow> (Inl e, s') | (Inr x, s') \<Rightarrow> g x s')"
  shows "isolated a h s"
proof -
  obtain r s1 where fs: "f s = (r, s1)" by (cases "f s") auto
  with f have fo: "f (own a s) = (r, own a s1)" and o: "others a s1 = others a s"
    by (simp_all add: isolated_def prod_eq_iff)
  show ?thesis
  proof (cases r)
    case (Inl e)
    with fs fo o show ?thesis by (simp add: isolated_def h)
  next
    case (Inr x)
    with fs g have "isolated a (g x) s1" by simp
    with Inr fs fo o show ?thesis by (simp add: isolated_def h)
  qed
qed

lemma filter_own_row:
  "filter (\<lambda>x. k x \<and> g x = a) (filter (\<lambda>x. g x = a) xs) = filter (\<lambda>x. k x \<and> g x = a) xs"
  by (induction xs) auto

lemma list_ex_own_row:
  "list_ex (\<lambda>x. k x \<and> g x = a) (filter (\<lambda>x. g x = a) xs) = list_ex (\<lambda>x. k x \<and> g x = a) xs"
  by (induction xs) auto

lemma filter_update_own:
  assumes "\<And>x. g (f x) = g x"
  shows "filter (\<lambda>x. g x = a) (map (\<lambda>x. if k x \<and> g x = a then f x else x) xs) =
         map (\<lambda>x. if k x \<and> g x = a then f x else x) (filter (\<lambda>x. g x = a) xs)"
    and "filter (\<lambda>x. g x \<noteq> a) (map (\<lambda>x. if k x \<and> g x = a then f x else x) xs) =
         filter (\<lambda>x. g x \<noteq> a) xs"
  by (induction xs) (auto simp: assms)

lemma filter_delete_own:
  "filter (\<lambda>x. g x = a) (filter (\<lambda>x. \<not> (k x \<and> g x = a)) xs) =
     filter (\<lambda>x. \<not> (k x \<and> g x = a)) (filter (\<lambda>x. g x = a) xs)"
  "filter (\<lambda>x. g x \<noteq> a) (filter (\<lambda>x. \<not> (k x \<and> g x = a)) xs) = filter (\<lambda>x. g x \<noteq> a) xs"
  by (induction xs) auto

subsection \<open>The stage operations\<close>

lemma isolated_listStages: "isolated a (db_listStages a) s"
  by (rule isolated_request [OF db_listStages_def]) (simp add: isolated_def)

lemma isolated_createStage: "isolated a (db_createStage a now stage) s"
  by (rule isolated_request [OF db_createStage_def])
     (simp add: isolated_def others_def Let_def split: option.splits)

text \<open>
  A payload of \<^verbatim>\<open>updateStage\<close> that names \<^verbatim>\<open>agent_id\<close> hands the stage to another tenant,
  and one that names \<^verbatim>\<open>id\<close> is checked against the ids of all tenants; the update is
  isolated for the payloads that name neither.
\<close>

lemma fold_stage_assign_keys:
  "list_all (\<lambda>e. stage_column e \<noteq> ''id'' \<and> stage_column e \<noteq> ''agent_id'') es \<Longrightarrow>
     st_id (fold stage_assign es r) = st_id r \<and>
     st_agent_id (fold stage_assign es r) = st_agent_id r"
proof (induction es arbitrary: r)
  case Nil
  show ?case by simp
next
  case (Cons e es)
  then have "st_id (fold stage_assign es (stage_assign e r)) = st_id (stage_assign e r) \<and>
     st_agent_id (fold stage_assign es (stage_assign e r)) = st_agent_id (stage_assign e r)"
    by simp
  moreover from Cons.prems have "st_id (stage_assign e r) = st_id r \<and>
     st_agent_id (stage_assign e r) = st_agent_id r"
    by (cases e) simp_all
  ultimately show ?case by simp
qed

lemma isolated_guard:
  "isolated a body s \<Longrightarrow>
     isolated a (\<lambda>s'. case x of None \<Rightarrow> body s' | Some col \<Rightarrow> (Inl (E col), s')) s"
  by (cases x) (simp_all add: isolated_def)

lemma isolated_updateStage:
  assumes "list_all (\<lambda>e. stage_column e \<noteq> ''id'' \<and> stage_column e \<noteq> ''agent_id'') updates"
  shows "isolated a (db_updateStage a rid updates) s"
proof (rule isolated_request [OF db_updateStage_def], rule isolated_guard)
  fix s1 :: store
  note k = fold_stage_assign_keys [OF assms]
  have ka: "st_agent_id (fold stage_assign updates x) = st_agent_id x" for x
    by (simp add: k)
  note u = filter_update_own [of st_agent_id "fold stage_assign updates" a "\<lambda>x. st_id x = rid",
      OF ka]
  show "isolated a (\<lambda>s'. case filter (\<lambda>r. st_id r = rid \<and> st_agent_id r = a) (crm_stages s') of
        [r] \<Rightarrow>
          if st_id (fold stage_assign updates r) \<noteq> rid \<and>
             list_ex (\<lambda>x. st_id x = st_id (fold stage_assign updates r)) (crm_stages s')
          then (Inl (StoreError (UniqueViolation ''id'')), s')
          else if st_id (fold stage_assign updates r) \<noteq> rid \<and>
             list_ex (\<lambda>c. c_stage_id c = Some rid) (crm_contacts s')
          then (Inl (StoreError (ForeignKeyViolation ''stage_id'')), s')
          else (Inr (fold stage_assign updates r),
                s'\<lparr>crm_stages := map (\<lambda>x. if st_id x = rid \<and> st_agent_id x = a
                                          then fold stage_assign updates x else x) (crm_stages s')\<rparr>)
      | _ \<Rightarrow> (Inl (StoreError NoSingleRow), s')) s1"
  proof (cases "filter (\<lambda>r. st_id r = rid \<and> st_agent_id r = a) (crm_stages s1)")
    case Nil
    then show ?thesis by (simp add: isolated_def filter_own_row del: filter_filter)
  next
    case (Cons r rest)
    then have "r \<in> set (filter (\<lambda>r. st_id r = rid \<and> st_agent_id r = a) (crm_stages s1))"
      by simp
    then have "st_id (fold stage_assign updates r) = rid" by (simp add: k)
    with Cons show ?thesis
      by (cases rest)
        (simp_all add: isolated_def others_def filter_own_row u del: filter_filter)
  qed
qed

lemma isolated_deleteStage:
  assumes "\<forall>c\<in>set (crm_contacts s). stage_ref_within (c_agent_id c) s (c_stage_id c)"
  shows "isolated a (db_deleteStage a rid) s"
proof (rule isolated_request [OF db_deleteStage_def])
  fix s1 :: store
  assume t: "crm_stages s1 = crm_stages s" "crm_contacts s1 = crm_contacts s"
  let ?null = "\<lambda>c. if c_stage_id c = Some rid then c\<lparr>c_stage_id := None\<rparr> else c"
  have mine: "filter (\<lambda>c. c_agent_id c = a) (map ?null xs) =
              map ?null (filter (\<lambda>c. c_agent_id c = a) xs)" for xs
    by (induction xs) auto
  have theirs': "filter (\<lambda>c. c_agent_id c \<noteq> a) (map ?null xs) = filter (\<lambda>c. c_agent_id c \<noteq> a) xs"
    if "\<forall>c\<in>set xs. c_agent_id c \<noteq> a \<longrightarrow> c_stage_id c \<noteq> Some rid" for xs
    using that by (induction xs) auto
  have free: "\<forall>c\<in>set (crm_contacts s). c_agent_id c \<noteq> a \<longrightarrow> c_stage_id c \<noteq> Some rid"
    if ex: "list_ex (\<lambda>r. st_id r = rid \<and> st_agent_id r = a) (crm_stages s)"
  proof (intro ballI impI notI)
    fix c assume c: "c \<in> set (crm_contacts s)" "c_agent_id c \<noteq> a" "c_stage_id c = Some rid"
    with assms have "\<forall>r\<in>set (crm_stages s). st_id r = rid \<longrightarrow> st_agent_id r = c_agent_id c"
      by (auto simp: stage_ref_within_def)
    with ex c(2) show False by (auto simp: list_ex_iff)
  qed
  show "isolated a (\<lambda>s'. if list_ex (\<lambda>r. st_id r = rid \<and> st_agent_id r = a) (crm_stages s')
        then (Inr (), s'\<lparr>crm_stages := filter (\<lambda>r. \<not> (st_id r = rid \<and> st_agent_id r = a))
                                          (crm_stages s'),
                         crm_contacts := map ?null (crm_contacts s')\<rparr>)
        else (Inr (), s')) s1"
    using theirs' [OF free] t
    by (auto simp: isolated_def others_def list_ex_own_row mine intro!: store_eqI filter_cong)
qed

lemma isolated_reorder_loop: "isolated a (reorder_loop a ups) s"
proof (induction ups arbitrary: s)
  case Nil
  show ?case by (simp add: isolated_def)
next
  case (Cons ip ups)
  obtain i p where ip: "ip = (i, p)" by (cases ip)
  show ?case
    unfolding ip
    by (rule isolated_then [where f = "db_updateStage a i [S_position p]"
          and g = "\<lambda>_. reorder_loop a ups"])
       (simp_all add: isolated_updateStage Cons.IH)
qed

lemma isolated_reorderStages: "isolated a (db_reorderStages a stageIds) s"
  by (rule isolated_then [where f = "reorder_loop a (reorder_updates stageIds)"
        and g = "\<lambda>_. db_listStages a"])
     (simp_all add: isolated_reorder_loop isolated_listStages db_reorderStages_def)

subsection \<open>Embedded rows\<close>

lemma find_own:
  "\<forall>x\<in>set xs. P x \<longrightarrow> g x = a \<Longrightarrow> find P (filter (\<lambda>x. g x = a) xs) = find P xs"
  by (induction xs) auto

lemma list_ex_own:
  "\<forall>x\<in>set xs. P x \<longrightarrow> g x = a \<Longrightarrow> list_ex P (filter (\<lambda>x. g x = a) xs) = list_ex P xs"
  by (induction xs) auto

lemma with_stage_own:
  "stage_ref_within a s (c_stage_id c) \<Longrightarrow> with_stage (own a s) c = with_stage s c"
  by (auto simp: with_stage_def stage_ref_within_def intro!: arg_cong [where f = "map_option _"]
        find_own split: option.splits)

lemma stage_exists_own:
  "stage_ref_within a s ref \<Longrightarrow> stage_exists (own a s) ref = stage_exists s ref"
  by (auto simp: stage_exists_def stage_ref_within_def intro!: list_ex_own split: option.splits)

lemma contact_of_own:
  "contact_ref_within a s ref \<Longrightarrow> contact_of (own a s) ref = contact_of s ref"
  by (auto simp: contact_of_def contact_ref_within_def intro!: arg_cong [where f = "map_option _"]
        find_own split: option.splits)

lemma contact_exists_own:
  "contact_ref_within a s ref \<Longrightarrow> contact_exists (own a s) ref = contact_exists s ref"
  by (auto simp: contact_exists_def contact_ref_within_def intro!: list_ex_own split: option.splits)

lemma stage_ref_within_tables:
  "crm_stages s1 = crm_stages s \<Longrightarrow> stage_ref_within a s1 ref = stage_ref_within a s ref"
  by (simp add: stage_ref_within_def)

lemma contact_ref_within_tables:
  "crm_contacts s1 = crm_contacts s \<Longrightarrow> contact_ref_within a s1 ref = contact_ref_within a s ref"
  by (simp add: contact_ref_within_def)

lemma map_with_stage_own:
  assumes "\<forall>c\<in>set (crm_contacts s). stage_ref_within (c_agent_id c) s (c_stage_id c)"
      and "set rows \<subseteq> set (filter (\<lambda>c. c_agent_id c = a) (crm_contacts s))"
  shows "map (with_stage (own a s)) rows = map (with_stage s) rows"
  using assms by (intro map_cong refl with_stage_own) auto

lemma set_page: "set (page limit offset rows) \<subseteq> set rows"
  by (auto simp: page_def dest: in_set_takeD in_set_dropD)

subsection \<open>The contact operations\<close>

lemma contact_query_own:
  "contact_query a options (filter (\<lambda>c. c_agent_id c = a) rows) = contact_query a options rows"
  by (simp add: contact_query_def)

lemma contact_query_subset:
  "set (contact_query a options rows) \<subseteq> set (filter (\<lambda>c. c_agent_id c = a) rows)"
proof -
  have "set (contact_query a options rows) \<subseteq>
        set (sort_key (\<lambda>c. - int (c_updated_at c))
          (let q0 = filter (\<lambda>c. c_agent_id c = a) rows;
          q1 = (if truthy_nat (options_stageId options)
                then filter (\<lambda>c. c_stage_id c = options_stageId options) q0 else q0);
          q2 = (case options_isActive options of
                  None \<Rightarrow> q1
                | Some b \<Rightarrow> filter (\<lambda>c. c_is_active c = b) q1);
          q3 = (if truthy_str (options_assignedTo options)
                then filter (\<lambda>c. c_assigned_to c = options_assignedTo options) q2
                else q2);
          q4 = (case options_tags options of
                  None \<Rightarrow> q3
                | Some ts \<Rightarrow>
                    if length ts > 0
                    then filter (\<lambda>c. list_ex (\<lambda>x. x \<in> set ts) (c_tags c)) q3
                    else q3) in q4))"
    unfolding contact_query_def Let_def by (rule set_page)
  also have "\<dots> \<subseteq> set (filter (\<lambda>c. c_agent_id c = a) rows)"
    by (auto simp: Let_def split: option.splits if_splits)
  finally show ?thesis .
qed

lemma search_query_own:
  "search_query ilike a query limit (filter (\<lambda>c. c_agent_id c = a) rows) =
     search_query ilike a query limit rows"
  by (simp add: search_query_def)

lemma search_query_subset:
  "set (search_query ilike a query limit rows) \<subseteq> set (filter (\<lambda>c. c_agent_id c = a) rows)"
  by (auto simp: search_query_def Let_def dest: in_set_takeD)

lemma isolated_listContacts:
  assumes "\<forall>c\<in>set (crm_contacts s). stage_ref_within (c_agent_id c) s (c_stage_id c)"
  shows "isolated a (db_listContacts a options) s"
proof (rule isolated_request [OF db_listContacts_def])
  fix s1 :: store
  assume t: "crm_stages s1 = crm_stages s" "crm_contacts s1 = crm_contacts s"
  with assms have "\<forall>c\<in>set (crm_contacts s1). stage_ref_within (c_agent_id c) s1 (c_stage_id c)"
    by (simp add: stage_ref_within_def)
  from map_with_stage_own [OF this contact_query_subset, of a options]
  show "isolated a (\<lambda>s'. (Inr (map (with_stage s') (contact_query a options (crm_contacts s'))), s')) s1"
    by (simp add: isolated_def contact_query_own)
qed

lemma isolated_searchContacts:
  assumes "\<forall>c\<in>set (crm_contacts s). stage_ref_within (c_agent_id c) s (c_stage_id c)"
  shows "isolated a (db_searchContacts ilike a query limit) s"
proof (rule isolated_request [OF db_searchContacts_def])
  fix s1 :: store
  assume t: "crm_stages s1 = crm_stages s" "crm_contacts s1 = crm_contacts s"
  with assms have "\<forall>c\<in>set (crm_contacts s1). stage_ref_within (c_agent_id c) s1 (c_stage_id c)"
    by (simp add: stage_ref_within_def)
  from map_with_stage_own [OF this search_query_subset, of a ilike query limit]
  show "isolated a (\<lambda>s'. (Inr (map (with_stage s')
            (search_query ilike a query limit (crm_contacts s'))), s')) s1"
    by (simp add: isolated_def search_query_own)
qed

lemma single_row_within:
  assumes "\<forall>c\<in>set (crm_contacts s). stage_ref_within (c_agent_id c) s (c_stage_id c)"
      and "filter (\<lambda>c. c_id c = rid \<and> c_agent_id c = a) (crm_contacts s) = [c]"
  shows "stage_ref_within a s (c_stage_id c)"
proof -
  from assms(2) have "c \<in> set (filter (\<lambda>c. c_id c = rid \<and> c_agent_id c = a) (crm_contacts s))"
    by simp
  with assms(1) show ?thesis by auto
qed

lemma isolated_getContact:
  assumes "\<forall>c\<in>set (crm_contacts s). stage_ref_within (c_agent_id c) s (c_stage_id c)"
  shows "isolated a (db_getContact a rid) s"
proof (rule isolated_request [OF db_getContact_def])
  fix s1 :: store
  assume t: "crm_stages s1 = crm_stages s" "crm_contacts s1 = crm_contacts s"
  with assms have sealed: "\<forall>c\<in>set (crm_contacts s1). stage_ref_within (c_agent_id c) s1 (c_stage_id c)"
    by (simp add: stage_ref_within_def)
  show "isolated a (\<lambda>s'. case filter (\<lambda>c. c_id c = rid \<and> c_agent_id c = a) (crm_contacts s') of
      [c] \<Rightarrow> (Inr (with_stage s' c), s') | _ \<Rightarrow> (Inl (StoreError NoSingleRow), s')) s1"
  proof (cases "filter (\<lambda>c. c_id c = rid \<and> c_agent_id c = a) (crm_contacts s1)")
    case Nil
    then show ?thesis by (simp add: isolated_def filter_own_row del: filter_filter)
  next
    case (Cons c rest)
    show ?thesis
    proof (cases rest)
      case Nil
      with Cons single_row_within [OF sealed, of rid a c] show ?thesis
        by (simp add: isolated_def filter_own_row with_stage_own del: filter_filter)
    next
      case (Cons c' rest')
      with \<open>filter _ _ = c # rest\<close> show ?thesis
        by (simp add: isolated_def filter_own_row del: filter_filter)
    qed
  qed
qed

lemma isolated_createContact:
  assumes "stage_ref_within a s (nat_or_null (contact_stageId contact))"
  shows "isolated a (db_createContact a now contact) s"
proof (rule isolated_request [OF db_createContact_def])
  fix s1 :: store
  assume t: "crm_stages s1 = crm_stages s"
  with assms have w: "stage_ref_within a s1 (nat_or_null (contact_stageId contact))"
    by (simp add: stage_ref_within_def)
  have j: "with_stage (own a s1) c = with_stage s1 c"
    if "c_stage_id c = nat_or_null (contact_stageId contact)" for c
    using that w by (simp add: with_stage_own)
  show "isolated a (\<lambda>s'. let s'' = s'\<lparr>contact_seq := Suc (contact_seq s')\<rparr> in
             case contact_name contact of
               None \<Rightarrow> (Inl (StoreError (NotNullViolation ''name'')), s'')
             | Some n \<Rightarrow>
                 (let row =
                    \<lparr>c_id = contact_seq s',
                     c_agent_id = a,
                     c_name = n,
                     c_email = str_or_null (contact_email contact),
                     c_phone = str_or_null (contact_phone contact),
                     c_company = str_or_null (contact_company contact),
                     c_role = str_or_null (contact_role contact),
                     c_stage_id = nat_or_null (contact_stageId contact),
                     c_stage_entered_at =
                       (if truthy_nat (contact_stageId contact) then Some now else None),
                     c_source = str_or_null (contact_source contact),
                     c_source_detail = str_or_null (contact_sourceDetail contact),
                     c_assigned_to = str_or_null (contact_assignedTo contact),
                     c_tags = (case contact_tags contact of None \<Rightarrow> [] | Some ts \<Rightarrow> ts),
                     c_custom_fields =
                       (case contact_customFields contact of None \<Rightarrow> [] | Some m \<Rightarrow> m),
                     c_deal_value = rat_or_null (contact_dealValue contact),
                     c_currency =
                       (if truthy_str (contact_currency contact)
                        then the (contact_currency contact) else ''AUD''),
                     c_is_active = (contact_isActive contact \<noteq> Some False),
                     c_lost_reason = None,
                     c_created_at = now,
                     c_updated_at = now,
                     c_last_contact_at = None\<rparr>
                  in if \<not> stage_exists s' (c_stage_id row)
                     then (Inl (StoreError (ForeignKeyViolation ''stage_id'')), s'')
                     else (Inr (with_stage s' row),
                           s''\<lparr>crm_contacts := crm_contacts s' @ [row]\<rparr>))) s1"
    using stage_exists_own [OF w]
    by (simp add: isolated_def others_def Let_def j split: option.splits)
qed

lemma fold_assign_stage:
  "c_stage_id (fold assign es c) = c_stage_id c \<or>
   E_stageId (c_stage_id (fold assign es c)) \<in> set es"
proof (induction es arbitrary: c)
  case Nil
  show ?case by simp
next
  case (Cons e es)
  from Cons.IH [of "assign e c"] show ?case by (cases e) auto
qed

lemma updateData_stage:
  "c_stage_id (updateData now es c) = c_stage_id c \<or>
   E_stageId (c_stage_id (updateData now es c)) \<in> set es"
  using fold_assign_stage [of es "c\<lparr>c_updated_at := now\<rparr>"] by (simp add: updateData_def)

text \<open>A single-row update of \<^verbatim>\<open>crm_contacts\<close> with a payload that keeps the agent id.\<close>

lemma isolated_contact_update:
  fixes s1 :: store
  assumes sealed: "\<forall>c\<in>set (crm_contacts s1). stage_ref_within (c_agent_id c) s1 (c_stage_id c)"
      and agent: "\<And>x. c_agent_id (payload x) = c_agent_id x"
      and ref: "\<And>c. c \<in> set (crm_contacts s1) \<Longrightarrow> c_agent_id c = a \<Longrightarrow>
                  stage_ref_within a s1 (c_stage_id (payload c))"
  shows "isolated a (\<lambda>s'. case filter (\<lambda>c. c_id c = rid \<and> c_agent_id c = a) (crm_contacts s') of
           [c] \<Rightarrow>
             if c_stage_id (payload c) \<noteq> c_stage_id c \<and> \<not> stage_exists s' (c_stage_id (payload c))
             then (Inl (StoreError (ForeignKeyViolation ''stage_id'')), s')
             else (Inr (with_stage s' (payload c)),
                   s'\<lparr>crm_contacts :=
                        map (\<lambda>x. if c_id x = rid \<and> c_agent_id x = a then payload x else x)
                          (crm_contacts s')\<rparr>)
         | _ \<Rightarrow> (Inl (StoreError NoSingleRow), s')) s1"
proof -
  note u = filter_update_own [of c_agent_id payload a "\<lambda>x. c_id x = rid", OF agent]
  show ?thesis
  proof (cases "filter (\<lambda>c. c_id c = rid \<and> c_agent_id c = a) (crm_contacts s1)")
    case Nil
    then show ?thesis by (simp add: isolated_def filter_own_row del: filter_filter)
  next
    case (Cons c rest)
    show ?thesis
    proof (cases rest)
      case Nil
      from Cons have "c \<in> set (filter (\<lambda>c. c_id c = rid \<and> c_agent_id c = a) (crm_contacts s1))"
        by simp
      then have "stage_ref_within a s1 (c_stage_id (payload c))" using ref [of c] by auto
      with Cons Nil show ?thesis
        by (simp add: isolated_def others_def filter_own_row u with_stage_own stage_exists_own
              del: filter_filter)
    next
      case (Cons c' rest')
      with \<open>filter _ _ = c # rest\<close> show ?thesis
        by (simp add: isolated_def filter_own_row del: filter_filter)
    qed
  qed
qed

lemma isolated_updateContact:
  assumes "\<forall>c\<in>set (crm_contacts s). stage_ref_within (c_agent_id c) s (c_stage_id c)"
      and "\<forall>v. E_stageId v \<in> set updates \<longrightarrow> stage_ref_within a s v"
  shows "isolated a (db_updateContact a now rid updates) s"
proof (rule isolated_request [OF db_updateContact_def], rule isolated_guard)
  fix s1 :: store
  assume t: "crm_stages s1 = crm_stages s" "crm_contacts s1 = crm_contacts s"
  with assms have sealed: "\<forall>c\<in>set (crm_contacts s1). stage_ref_within (c_agent_id c) s1 (c_stage_id c)"
    and arg: "\<forall>v. E_stageId v \<in> set updates \<longrightarrow> stage_ref_within a s1 v"
    by (simp_all add: stage_ref_within_def)
  show "isolated a (\<lambda>s'. case filter (\<lambda>c. c_id c = rid \<and> c_agent_id c = a) (crm_contacts s') of
           [c] \<Rightarrow>
             if c_stage_id (updateData now updates c) \<noteq> c_stage_id c \<and>
                \<not> stage_exists s' (c_stage_id (updateData now updates c))
             then (Inl (StoreError (ForeignKeyViolation ''stage_id'')), s')
             else (Inr (with_stage s' (updateData now updates c)),
                   s'\<lparr>crm_contacts :=
                        map (\<lambda>x. if c_id x = rid \<and> c_agent_id x = a
                                 then updateData now updates x else x)
                          (crm_contacts s')\<rparr>)
         | _ \<Rightarrow> (Inl (StoreError NoSingleRow), s')) s1"
  proof (rule isolated_contact_update [OF sealed])
    show "c_agent_id (updateData now updates x) = c_agent_id x" for x
      by (simp add: updateData_keys)
    show "stage_ref_within a s1 (c_stage_id (updateData now updates c))"
      if "c \<in> set (crm_contacts s1)" "c_agent_id c = a" for c
      using updateData_stage [of now updates c] sealed arg that by auto
  qed
qed

lemma isolated_moveContactStage:
  assumes "\<forall>c\<in>set (crm_contacts s). stage_ref_within (c_agent_id c) s (c_stage_id c)"
      and "stage_ref_within a s stageId"
  shows "isolated a (db_moveContactStage a now rid stageId) s"
proof (rule isolated_request [OF db_moveContactStage_def])
  fix s1 :: store
  assume t: "crm_stages s1 = crm_stages s" "crm_contacts s1 = crm_contacts s"
  with assms have sealed: "\<forall>c\<in>set (crm_contacts s1). stage_ref_within (c_agent_id c) s1 (c_stage_id c)"
    and arg: "stage_ref_within a s1 stageId"
    by (simp_all add: stage_ref_within_def)
  have eq: "c_stage_id (move_payload now stageId c) = stageId" for c
    by (simp add: move_payload_def)
  have "isolated a (\<lambda>s'. case filter (\<lambda>c. c_id c = rid \<and> c_agent_id c = a) (crm_contacts s') of
           [c] \<Rightarrow>
             if c_stage_id (move_payload now stageId c) \<noteq> c_stage_id c \<and>
                \<not> stage_exists s' (c_stage_id (move_payload now stageId c))
             then (Inl (StoreError (ForeignKeyViolation ''stage_id'')), s')
             else (Inr (with_stage s' (move_payload now stageId c)),
                   s'\<lparr>crm_contacts :=
                        map (\<lambda>x. if c_id x = rid \<and> c_agent_id x = a
                                 then move_payload now stageId x else x)
                          (crm_contacts s')\<rparr>)
         | _ \<Rightarrow> (Inl (StoreError NoSingleRow), s')) s1"
    by (rule isolated_contact_update [OF sealed]) (simp_all add: move_payload_def arg)
  then show "isolated a (\<lambda>s'. case filter (\<lambda>c. c_id c = rid \<and> c_agent_id c = a) (crm_contacts s') of
           [c] \<Rightarrow>
             if stageId \<noteq> c_stage_id c \<and> \<not> stage_exists s' stageId
             then (Inl (StoreError (ForeignKeyViolation ''stage_id'')), s')
             else (Inr (with_stage s' (move_payload now stageId c)),
                   s'\<lparr>crm_contacts :=
                        map (\<lambda>x. if c_id x = rid \<and> c_agent_id x = a
                                 then move_payload now stageId x else x)
                          (crm_contacts s')\<rparr>)
         | _ \<Rightarrow> (Inl (StoreError NoSingleRow), s')) s1"
    unfolding eq .
qed

lemma isolated_deleteContact:
  assumes "\<forall>i\<in>set (crm_interactions s). contact_ref_within (i_agent_id i) s (i_contact_id i)"
      and "\<forall>t\<in>set (crm_tasks s). contact_ref_within (t_agent_id t) s (t_contact_id t)"
  shows "isolated a (db_deleteContact a rid) s"
proof (rule isolated_request [OF db_deleteContact_def])
  fix s1 :: store
  assume t: "crm_contacts s1 = crm_contacts s" "crm_interactions s1 = crm_interactions s"
    "crm_tasks s1 = crm_tasks s"
  have free_i: "i_contact_id i \<noteq> Some rid"
    if "list_ex (\<lambda>c. c_id c = rid \<and> c_agent_id c = a) (crm_contacts s)"
      "i \<in> set (crm_interactions s)" "i_agent_id i \<noteq> a" for i
  proof
    assume "i_contact_id i = Some rid"
    with assms(1) that(2) have "\<forall>c\<in>set (crm_contacts s). c_id c = rid \<longrightarrow> c_agent_id c = i_agent_id i"
      by (auto simp: contact_ref_within_def)
    with that(1,3) show False by (auto simp: list_ex_iff)
  qed
  have free_t: "t_contact_id x \<noteq> Some rid"
    if "list_ex (\<lambda>c. c_id c = rid \<and> c_agent_id c = a) (crm_contacts s)"
      "x \<in> set (crm_tasks s)" "t_agent_id x \<noteq> a" for x
  proof
    assume "t_contact_id x = Some rid"
    with assms(2) that(2) have "\<forall>c\<in>set (crm_contacts s). c_id c = rid \<longrightarrow> c_agent_id c = t_agent_id x"
      by (auto simp: contact_ref_within_def)
    with that(1,3) show False by (auto simp: list_ex_iff)
  qed
  show "isolated a (\<lambda>s'. if list_ex (\<lambda>c. c_id c = rid \<and> c_agent_id c = a) (crm_contacts s')
          then (Inr (),
                s'\<lparr>crm_contacts :=
                     filter (\<lambda>c. \<not> (c_id c = rid \<and> c_agent_id c = a)) (crm_contacts s'),
                   crm_interactions :=
                     filter (\<lambda>i. i_contact_id i \<noteq> Some rid) (crm_interactions s'),
                   crm_tasks := filter (\<lambda>t. t_contact_id t \<noteq> Some rid) (crm_tasks s')\<rparr>)
          else (Inr (), s')) s1"
    using t free_i free_t
    by (auto simp: isolated_def others_def list_ex_own_row intro!: store_eqI filter_cong)
qed

subsection \<open>The interaction operations\<close>

lemma with_contact_own:
  "contact_ref_within a s (i_contact_id i) \<Longrightarrow> with_contact (own a s) i = with_contact s i"
  by (simp add: with_contact_def contact_of_own)

lemma interaction_query_own:
  "interaction_query a options (filter (\<lambda>i. i_agent_id i = a) rows) =
     interaction_query a options rows"
  by (simp add: interaction_query_def)

lemma interaction_query_subset:
  "set (interaction_query a options rows) \<subseteq> set (filter (\<lambda>i. i_agent_id i = a) rows)"
  by (auto simp: interaction_query_def Let_def dest: in_set_takeD split: if_splits)

lemma isolated_listInteractions:
  assumes "\<forall>i\<in>set (crm_interactions s). contact_ref_within (i_agent_id i) s (i_contact_id i)"
  shows "isolated a (db_listInteractions a options) s"
proof (rule isolated_request [OF db_listInteractions_def])
  fix s1 :: store
  assume t: "crm_contacts s1 = crm_contacts s" "crm_interactions s1 = crm_interactions s"
  with assms have sealed:
    "\<forall>i\<in>set (crm_interactions s1). contact_ref_within (i_agent_id i) s1 (i_contact_id i)"
    by (simp add: contact_ref_within_def)
  have "map (with_contact (own a s1)) (interaction_query a options (crm_interactions s1)) =
        map (with_contact s1) (interaction_query a options (crm_interactions s1))"
    using sealed interaction_query_subset [of a options "crm_interactions s1"]
    by (intro map_cong refl with_contact_own) auto
  then show "isolated a (\<lambda>s'. (Inr (map (with_contact s')
            (interaction_query a options (crm_interactions s'))), s')) s1"
    by (simp add: isolated_def interaction_query_own)
qed

lemma isolated_insert_interaction:
  assumes "contact_ref_within a s (interaction_contactId interaction)"
  shows "isolated a (insert_interaction a now interaction) s"
proof (rule isolated_request [OF insert_interaction_def])
  fix s1 :: store
  assume t: "crm_contacts s1 = crm_contacts s"
  with assms have w: "contact_ref_within a s1 (interaction_contactId interaction)"
    by (simp add: contact_ref_within_def)
  have j: "with_contact (own a s1) i = with_contact s1 i"
    if "i_contact_id i = interaction_contactId interaction" for i
    using that w by (simp add: with_contact_own)
  show "isolated a (\<lambda>s'. let s'' = s'\<lparr>interaction_seq := Suc (interaction_seq s')\<rparr> in
             case interaction_type interaction of
               None \<Rightarrow> (Inl (StoreError (NotNullViolation ''type'')), s'')
             | Some ty \<Rightarrow>
                 (case interaction_createdBy interaction of
                    None \<Rightarrow> (Inl (StoreError (NotNullViolation ''created_by'')), s'')
                  | Some by \<Rightarrow>
                      (let row =
                         \<lparr>i_id = interaction_seq s',
                          i_agent_id = a,
                          i_contact_id = interaction_contactId interaction,
                          i_type = ty,
                          i_subject = str_or_null (interaction_subject interaction),
                          i_content = str_or_null (interaction_content interaction),
                          i_created_by = by,
                          i_created_by_type =
                            (if truthy_str (interaction_createdByType interaction)
                             then the (interaction_createdByType interaction) else ''agent''),
                          i_scheduled_at = interaction_scheduledAt interaction,
                          i_completed_at = interaction_completedAt interaction,
                          i_metadata =
                            (case interaction_metadata interaction of
                               None \<Rightarrow> [] | Some m \<Rightarrow> m),
                          i_created_at = now\<rparr>
                       in if \<not> contact_exists s' (i_contact_id row)
                          then (Inl (StoreError (ForeignKeyViolation ''contact_id'')), s'')
                          else (Inr (with_contact s' row),
                                s''\<lparr>crm_interactions := crm_interactions s' @ [row]\<rparr>)))) s1"
    using contact_exists_own [OF w]
    by (simp add: isolated_def others_def Let_def j split: option.splits)
qed

lemma isolated_touch_contact:
  assumes "\<forall>c\<in>set (crm_contacts s). stage_ref_within (c_agent_id c) s (c_stage_id c)"
  shows "isolated a (touch_contact a now contactId) s"
proof (cases contactId)
  case None
  obtain ok s1 where t: "transport
      (Update ''crm_contacts'' (updateData_columns [E_lastContactAt (Some now)])) s = (ok, s1)"
    by (cases "transport
      (Update ''crm_contacts'' (updateData_columns [E_lastContactAt (Some now)])) s") auto
  with transport_own [of "Update ''crm_contacts'' (updateData_columns [E_lastContactAt (Some now)])" a s]
    transport_others [of a "Update ''crm_contacts'' (updateData_columns [E_lastContactAt (Some now)])" s]
  show ?thesis
    using None by (simp add: isolated_def touch_contact_def)
next
  case (Some cid)
  have "isolated a (db_updateContact a now cid [E_lastContactAt (Some now)]) s"
    by (rule isolated_updateContact [OF assms]) simp
  with Some show ?thesis by (simp add: touch_contact_def isolated_def)
qed

lemma isolated_addInteraction:
  assumes "\<forall>c\<in>set (crm_contacts s). stage_ref_within (c_agent_id c) s (c_stage_id c)"
      and "contact_ref_within a s (interaction_contactId interaction)"
  shows "isolated a (db_addInteraction a now interaction) s"
proof (rule isolated_then [where f = "insert_interaction a now interaction"
      and g = "\<lambda>data s'. case touch_contact a now (interaction_contactId interaction) s' of
             (Inl e, s'') \<Rightarrow> (Inl e, s'')
           | (Inr _, s'') \<Rightarrow> (Inr data, s'')"])
  show "isolated a (insert_interaction a now interaction) s"
    by (rule isolated_insert_interaction [OF assms(2)])
  show "db_addInteraction a now interaction s =
       (case insert_interaction a now interaction s of
          (Inl e, s') \<Rightarrow> (Inl e, s')
        | (Inr x, s') \<Rightarrow>
            (case touch_contact a now (interaction_contactId interaction) s' of
               (Inl e, s'') \<Rightarrow> (Inl e, s'')
             | (Inr _, s'') \<Rightarrow> (Inr x, s''))) " for s
    by (simp add: db_addInteraction_def)
next
  fix x s1
  assume i: "insert_interaction a now interaction s = (Inr x, s1)"
  from insert_interaction_Inr [OF i]
  have "crm_contacts s1 = crm_contacts s" "crm_stages s1 = crm_stages s" by simp_all
  with assms(1) have "\<forall>c\<in>set (crm_contacts s1). stage_ref_within (c_agent_id c) s1 (c_stage_id c)"
    by (simp add: stage_ref_within_def)
  then have "isolated a (touch_contact a now (interaction_contactId interaction)) s1"
    by (rule isolated_touch_contact)
  then show "isolated a (\<lambda>s'. case touch_contact a now (interaction_contactId interaction) s' of
             (Inl e, s'') \<Rightarrow> (Inl e, s'')
           | (Inr _, s'') \<Rightarrow> (Inr x, s'')) s1"
    by (rule isolated_then [where g = "\<lambda>_ s''. (Inr x, s'')"]) (simp_all add: isolated_def)
qed

lemma fold_interaction_assign_keys:
  "i_agent_id (fold interaction_assign es i) = i_agent_id i \<and>
   i_contact_id (fold interaction_assign es i) = i_contact_id i"
proof (induction es arbitrary: i)
  case Nil
  show ?case by simp
next
  case (Cons e es)
  from Cons.IH [of "interaction_assign e i"] show ?case by (cases e) simp_all
qed

lemma isolated_updateInteraction:
  assumes "\<forall>i\<in>set (crm_interactions s). contact_ref_within (i_agent_id i) s (i_contact_id i)"
  shows "isolated a (db_updateInteraction a rid updates) s"
proof (rule isolated_request [OF db_updateInteraction_def], rule isolated_guard)
  fix s1 :: store
  assume t: "crm_contacts s1 = crm_contacts s" "crm_interactions s1 = crm_interactions s"
  with assms have sealed:
    "\<forall>i\<in>set (crm_interactions s1). contact_ref_within (i_agent_id i) s1 (i_contact_id i)"
    by (simp add: contact_ref_within_def)
  note u = filter_update_own [of i_agent_id "fold interaction_assign updates" a "\<lambda>x. i_id x = rid"]
  show "isolated a (\<lambda>s'. case filter (\<lambda>i. i_id i = rid \<and> i_agent_id i = a) (crm_interactions s') of
               [i] \<Rightarrow>
                 (Inr (with_contact s' (fold interaction_assign updates i)),
                  s'\<lparr>crm_interactions :=
                       map (\<lambda>x. if i_id x = rid \<and> i_agent_id x = a
                                then fold interaction_assign updates x else x)
                         (crm_interactions s')\<rparr>)
             | _ \<Rightarrow> (Inl (StoreError NoSingleRow), s')) s1"
  proof (cases "filter (\<lambda>i. i_id i = rid \<and> i_agent_id i = a) (crm_interactions s1)")
    case Nil
    then show ?thesis by (simp add: isolated_def filter_own_row del: filter_filter)
  next
    case (Cons i rest)
    show ?thesis
    proof (cases rest)
      case Nil
      from Cons have "i \<in> set (filter (\<lambda>i. i_id i = rid \<and> i_agent_id i = a) (crm_interactions s1))"
        by simp
      with sealed have "contact_ref_within a s1 (i_contact_id (fold interaction_assign updates i))"
        by (auto simp: fold_interaction_assign_keys)
      with Cons Nil show ?thesis
        by (simp add: isolated_def others_def filter_own_row u with_contact_own
              fold_interaction_assign_keys del: filter_filter)
    next
      case (Cons i' rest')
      with \<open>filter _ _ = i # rest\<close> show ?thesis
        by (simp add: isolated_def filter_own_row del: filter_filter)
    qed
  qed
qed

lemma isolated_deleteInteraction: "isolated a (db_deleteInteraction a rid) s"
  by (rule isolated_request [OF db_deleteInteraction_def])
    (auto simp: isolated_def others_def intro!: store_eqI filter_cong)

subsection \<open>The task operations\<close>

lemma task_with_contact_own:
  "contact_ref_within a s (t_contact_id t) \<Longrightarrow>
     task_with_contact (own a s) t = task_with_contact s t"
  by (simp add: task_with_contact_def contact_of_own)

lemma task_query_own:
  "task_query a options (filter (\<lambda>t. t_agent_id t = a) rows) = task_query a options rows"
  by (simp add: task_query_def)

lemma task_query_subset:
  "set (task_query a options rows) \<subseteq> set (filter (\<lambda>t. t_agent_id t = a) rows)"
  by (auto simp: task_query_def Let_def dest: in_set_takeD split: if_splits option.splits)

lemma overdue_query_own:
  "overdue_query a now (filter (\<lambda>t. t_agent_id t = a) rows) = overdue_query a now rows"
  by (auto simp: overdue_query_def intro!: arg_cong [where f = "sort_key _"] filter_cong)

lemma overdue_query_subset:
  "set (overdue_query a now rows) \<subseteq> set (filter (\<lambda>t. t_agent_id t = a) rows)"
  by (auto simp: overdue_query_def)

lemma map_task_with_contact_own:
  assumes "\<forall>t\<in>set (crm_tasks s). contact_ref_within (t_agent_id t) s (t_contact_id t)"
      and "set rows \<subseteq> set (filter (\<lambda>t. t_agent_id t = a) (crm_tasks s))"
  shows "map (task_with_contact (own a s)) rows = map (task_with_contact s) rows"
  using assms by (intro map_cong refl task_with_contact_own) auto

lemma isolated_listTasks:
  assumes "\<forall>t\<in>set (crm_tasks s). contact_ref_within (t_agent_id t) s (t_contact_id t)"
  shows "isolated a (db_listTasks a options) s"
proof (rule isolated_request [OF db_listTasks_def])
  fix s1 :: store
  assume t: "crm_contacts s1 = crm_contacts s" "crm_tasks s1 = crm_tasks s"
  with assms have "\<forall>t\<in>set (crm_tasks s1). contact_ref_within (t_agent_id t) s1 (t_contact_id t)"
    by (simp add: contact_ref_within_def)
  from map_task_with_contact_own [OF this task_query_subset, of a options]
  show "isolated a (\<lambda>s'. (Inr (map (task_with_contact s')
            (task_query a options (crm_tasks s'))), s')) s1"
    by (simp add: isolated_def task_query_own)
qed

lemma isolated_getOverdueTask:
  assumes "\<forall>t\<in>set (crm_tasks s). contact_ref_within (t_agent_id t) s (t_contact_id t)"
  shows "isolated a (db_getOverdueTask a now) s"
proof (rule isolated_request [OF db_getOverdueTask_def])
  fix s1 :: store
  assume t: "crm_contacts s1 = crm_contacts s" "crm_tasks s1 = crm_tasks s"
  with assms have "\<forall>t\<in>set (crm_tasks s1). contact_ref_within (t_agent_id t) s1 (t_contact_id t)"
    by (simp add: contact_ref_within_def)
  from map_task_with_contact_own [OF this overdue_query_subset, of a now]
  show "isolated a (\<lambda>s'. (Inr (map (task_with_contact s')
            (overdue_query a now (crm_tasks s'))), s')) s1"
    by (simp add: isolated_def overdue_query_own)
qed

lemma isolated_addTask:
  assumes "contact_ref_within a s (nat_or_null (task_contactId task))"
  shows "isolated a (db_addTask a now task) s"
proof (rule isolated_request [OF db_addTask_def])
  fix s1 :: store
  assume t: "crm_contacts s1 = crm_contacts s"
  with assms have w: "contact_ref_within a s1 (nat_or_null (task_contactId task))"
    by (simp add: contact_ref_within_def)
  have j: "task_with_contact (own a s1) x = task_with_contact s1 x"
    if "t_contact_id x = nat_or_null (task_contactId task)" for x
    using that w by (simp add: task_with_contact_own)
  show "isolated a (\<lambda>s'. let s'' = s'\<lparr>task_seq := Suc (task_seq s')\<rparr> in
             case task_title task of
               None \<Rightarrow> (Inl (StoreError (NotNullViolation ''title'')), s'')
             | Some title \<Rightarrow>
                 (let row =
                    \<lparr>t_id = task_seq s',
                     t_agent_id = a,
                     t_contact_id = nat_or_null (task_contactId task),
                     t_title = title,
                     t_description = str_or_null (task_description task),
                     t_due_at = task_dueAt task,
                     t_assigned_to = str_or_null (task_assignedTo task),
                     t_priority =
                       (if truthy_str (task_priority task)
                        then the (task_priority task) else ''medium''),
                     t_completed = False,
                     t_completed_at = None,
                     t_created_at = now\<rparr>
                  in if \<not> contact_exists s' (t_contact_id row)
                     then (Inl (StoreError (ForeignKeyViolation ''contact_id'')), s'')
                     else (Inr (task_with_contact s' row),
                           s''\<lparr>crm_tasks := crm_tasks s' @ [row]\<rparr>))) s1"
    using contact_exists_own [OF w]
    by (simp add: isolated_def others_def Let_def j split: option.splits)
qed

text \<open>A single-row update of \<^verbatim>\<open>crm_tasks\<close> with a payload that keeps the agent id.\<close>

lemma isolated_update_task:
  assumes sealed: "\<forall>t\<in>set (crm_tasks s). contact_ref_within (t_agent_id t) s (t_contact_id t)"
      and agent: "\<And>x. t_agent_id (payload x) = t_agent_id x"
      and ref: "\<And>t. t \<in> set (crm_tasks s) \<Longrightarrow> t_agent_id t = a \<Longrightarrow>
                  contact_ref_within a s (t_contact_id (payload t))"
  shows "isolated a (update_task a rid columns payload) s"
proof (rule isolated_request [OF update_task_def], rule isolated_guard)
  fix s1 :: store
  assume t: "crm_contacts s1 = crm_contacts s" "crm_tasks s1 = crm_tasks s"
  note u = filter_update_own [of t_agent_id payload a "\<lambda>x. t_id x = rid", OF agent]
  show "isolated a (\<lambda>s'. case filter (\<lambda>t. t_id t = rid \<and> t_agent_id t = a) (crm_tasks s') of
               [t] \<Rightarrow>
                 if t_contact_id (payload t) \<noteq> t_contact_id t \<and>
                    \<not> contact_exists s' (t_contact_id (payload t))
                 then (Inl (StoreError (ForeignKeyViolation ''contact_id'')), s')
                 else (Inr (task_with_contact s' (payload t)),
                       s'\<lparr>crm_tasks :=
                            map (\<lambda>x. if t_id x = rid \<and> t_agent_id x = a
                                     then payload x else x) (crm_tasks s')\<rparr>)
             | _ \<Rightarrow> (Inl (StoreError NoSingleRow), s')) s1"
  proof (cases "filter (\<lambda>t. t_id t = rid \<and> t_agent_id t = a) (crm_tasks s1)")
    case Nil
    then show ?thesis by (simp add: isolated_def filter_own_row del: filter_filter)
  next
    case (Cons x rest)
    show ?thesis
    proof (cases rest)
      case Nil
      from Cons have "x \<in> set (filter (\<lambda>t. t_id t = rid \<and> t_agent_id t = a) (crm_tasks s1))"
        by simp
      then have "contact_ref_within a s (t_contact_id (payload x))"
        using ref [of x] t by auto
      then have "contact_ref_within a s1 (t_contact_id (payload x))"
        using t by (simp add: contact_ref_within_def)
      with Cons Nil show ?thesis
        by (simp add: isolated_def others_def filter_own_row u task_with_contact_own
              contact_exists_own del: filter_filter)
    next
      case (Cons x' rest')
      with \<open>filter _ _ = x # rest\<close> show ?thesis
        by (simp add: isolated_def filter_own_row del: filter_filter)
    qed
  qed
qed

lemma isolated_completeTask:
  assumes "\<forall>t\<in>set (crm_tasks s). contact_ref_within (t_agent_id t) s (t_contact_id t)"
  shows "isolated a (db_completeTask a now rid) s"
  unfolding db_completeTask_def using assms
  by (intro isolated_update_task) auto

lemma isolated_uncompleteTask:
  assumes "\<forall>t\<in>set (crm_tasks s). contact_ref_within (t_agent_id t) s (t_contact_id t)"
  shows "isolated a (db_uncompleteTask a rid) s"
  unfolding db_uncompleteTask_def using assms
  by (intro isolated_update_task) auto

lemma fold_task_assign_agent: "t_agent_id (fold task_assign es t) = t_agent_id t"
proof (induction es arbitrary: t)
  case Nil
  show ?case by simp
next
  case (Cons e es)
  from Cons.IH [of "task_assign e t"] show ?case by (cases e) simp_all
qed

lemma fold_task_assign_contact:
  "t_contact_id (fold task_assign es t) = t_contact_id t \<or>
   T_contactId (t_contact_id (fold task_assign es t)) \<in> set es"
proof (induction es arbitrary: t)
  case Nil
  show ?case by simp
next
  case (Cons e es)
  from Cons.IH [of "task_assign e t"] show ?case by (cases e) auto
qed

lemma isolated_updateTask:
  assumes sealed: "\<forall>t\<in>set (crm_tasks s). contact_ref_within (t_agent_id t) s (t_contact_id t)"
      and arg: "\<forall>v. T_contactId v \<in> set updates \<longrightarrow> contact_ref_within a s v"
  shows "isolated a (db_updateTask a rid updates) s"
  unfolding db_updateTask_def
proof (rule isolated_update_task [OF sealed])
  show "t_agent_id (fold task_assign updates x) = t_agent_id x" for x
    by (rule fold_task_assign_agent)
  show "contact_ref_within a s (t_contact_id (fold task_assign updates t))"
    if "t \<in> set (crm_tasks s)" "t_agent_id t = a" for t
    using fold_task_assign_contact [of updates t] sealed arg that by auto
qed

lemma isolated_deleteTask: "isolated a (db_deleteTask a rid) s"
  by (rule isolated_request [OF db_deleteTask_def])
    (auto simp: isolated_def others_def intro!: store_eqI filter_cong)

subsection \<open>The statistics\<close>

lemma isolated_getPipelineStats: "isolated a (db_getPipelineStats a) s"
proof (rule isolated_then [where f = "db_listStages a"
      and g = "\<lambda>stage_rows s1. case transport (Select ''crm_contacts'') s1 of
             (ok, s2) \<Rightarrow>
               if \<not> ok then (Inl (StoreError Unavailable), s2)
               else
                 (let contacts = filter (\<lambda>c. c_agent_id c = a \<and> c_is_active c)
                                   (crm_contacts s2);
                      pipeline = map (stage_bucket contacts) stage_rows;
                      unstagedContacts = filter (\<lambda>c. \<not> truthy_nat (c_stage_id c)) contacts
                  in (Inr \<lparr>stages =
                             (if length unstagedContacts > 0
                              then \<lparr>b_id = None, b_name = ''Unstaged'',
                                    b_color = Some ''#888888'', b_position = 0,
                                    b_count = length unstagedContacts,
                                    b_value = sum_deals unstagedContacts\<rparr> # pipeline
                              else pipeline),
                           totalContacts = length contacts,
                           totalValue = sum_deals contacts\<rparr>, s2))"])
  show "isolated a (db_listStages a) s" by (rule isolated_listStages)
  show "db_getPipelineStats a s =
       (case db_listStages a s of
          (Inl e, s') \<Rightarrow> (Inl e, s')
        | (Inr x, s') \<Rightarrow>
            (case transport (Select ''crm_contacts'') s' of
             (ok, s2) \<Rightarrow>
               if \<not> ok then (Inl (StoreError Unavailable), s2)
               else
                 (let contacts = filter (\<lambda>c. c_agent_id c = a \<and> c_is_active c)
                                   (crm_contacts s2);
                      pipeline = map (stage_bucket contacts) x;
                      unstagedContacts = filter (\<lambda>c. \<not> truthy_nat (c_stage_id c)) contacts
                  in (Inr \<lparr>stages =
                             (if length unstagedContacts > 0
                              then \<lparr>b_id = None, b_name = ''Unstaged'',
                                    b_color = Some ''#888888'', b_position = 0,
                                    b_count = length unstagedContacts,
                                    b_value = sum_deals unstagedContacts\<rparr> # pipeline
                              else pipeline),
                           totalContacts = length contacts,
                           totalValue = sum_deals contacts\<rparr>, s2))))" for s
    by (simp add: db_getPipelineStats_def)
next
  fix x s1
  have own: "filter (\<lambda>c. c_agent_id c = a \<and> c_is_active c) (filter (\<lambda>c. c_agent_id c = a) cs) =
             filter (\<lambda>c. c_agent_id c = a \<and> c_is_active c) cs" for cs :: "contact list"
    by (induction cs) auto
  show "isolated a (\<lambda>s1. case transport (Select ''crm_contacts'') s1 of
             (ok, s2) \<Rightarrow>
               if \<not> ok then (Inl (StoreError Unavailable), s2)
               else
                 (let contacts = filter (\<lambda>c. c_agent_id c = a \<and> c_is_active c)
                                   (crm_contacts s2);
                      pipeline = map (stage_bucket contacts) x;
                      unstagedContacts = filter (\<lambda>c. \<not> truthy_nat (c_stage_id c)) contacts
                  in (Inr \<lparr>stages =
                             (if length unstagedContacts > 0
                              then \<lparr>b_id = None, b_name = ''Unstaged'',
                                    b_color = Some ''#888888'', b_position = 0,
                                    b_count = length unstagedContacts,
                                    b_value = sum_deals unstagedContacts\<rparr> # pipeline
                              else pipeline),
                           totalContacts = length contacts,
                           totalValue = sum_deals contacts\<rparr>, s2))) s1"
    by (rule isolated_request [OF refl])
      (simp add: isolated_def own Let_def del: filter_filter)
qed

lemma isolated_getActivityStats: "isolated a (db_getActivityStats a now days) s"
proof -
  obtain ok1 s1 where t1: "transport (Select ''crm_interactions'') s = (ok1, s1)"
    by (cases "transport (Select ''crm_interactions'') s") auto
  obtain ok2 s2 where t2: "transport (Select ''crm_tasks'') s1 = (ok2, s2)"
    by (cases "transport (Select ''crm_tasks'') s1") auto
  obtain ok3 s3 where t3: "transport (Select ''crm_contacts'') s2 = (ok3, s3)"
    by (cases "transport (Select ''crm_contacts'') s2") auto
  from t1 have o1: "transport (Select ''crm_interactions'') (own a s) = (ok1, own a s1)"
    by (simp add: transport_own)
  from t2 have o2: "transport (Select ''crm_tasks'') (own a s1) = (ok2, own a s2)"
    by (simp add: transport_own)
  from t3 have o3: "transport (Select ''crm_contacts'') (own a s2) = (ok3, own a s3)"
    by (simp add: transport_own)
  from transport_others [of a "Select ''crm_interactions''" s]
    transport_others [of a "Select ''crm_tasks''" s1]
    transport_others [of a "Select ''crm_contacts''" s2] t1 t2 t3
  have frame: "others a s3 = others a s" by simp
  have own: "filter (\<lambda>x. g x = a \<and> k x) (filter (\<lambda>x. g x = a) xs) =
             filter (\<lambda>x. g x = a \<and> k x) xs" for g :: "'r \<Rightarrow> string" and k xs
    by (induction xs) auto
  show ?thesis
    by (simp add: isolated_def db_getActivityStats_def t1 t2 t3 o1 o2 o3 frame own Let_def
          del: filter_filter)
qed

subsection \<open>Summary\<close>

text \<open>
  The empty store and the store of the scenario are sealed. In a sealed store every read
  under tenant \<open>a\<close> is isolated, and so is every write whose reference arguments stay within
  \<open>a\<close> and, for \<^verbatim>\<open>updateStage\<close>, whose payload names neither \<^verbatim>\<open>id\<close> nor \<^verbatim>\<open>agent_id\<close>. The stage
  id that tenant \<^verbatim>\<open>t1\<close> passes in the example of the next section does not stay within
  \<^verbatim>\<open>t1\<close>. That a store stays sealed from one call to the next is not shown here.
\<close>

lemma sealed_empty_store: "sealed empty_store"
  by (simp add: sealed_def empty_store_def)

lemma sealed_scenario: "sealed scenario"
  by (simp add: sealed_def stage_ref_within_def scenario_eq)

lemma isolated_reads:
  assumes "sealed s"
  shows "isolated a (db_listStages a) s"
    and "isolated a (db_listContacts a options) s"
    and "isolated a (db_getContact a rid) s"
    and "isolated a (db_searchContacts ilike a query limit) s"
    and "isolated a (db_listInteractions a ioptions) s"
    and "isolated a (db_listTasks a toptions) s"
    and "isolated a (db_getOverdueTask a now) s"
    and "isolated a (db_getPipelineStats a) s"
    and "isolated a (db_getActivityStats a now days) s"
  using assms
  by (simp_all add: sealed_def isolated_listStages isolated_listContacts isolated_getContact
        isolated_searchContacts isolated_listInteractions isolated_listTasks
        isolated_getOverdueTask isolated_getPipelineStats isolated_getActivityStats)

lemma isolated_writes:
  assumes "sealed s"
  shows "isolated a (db_createStage a now stage) s"
    and "list_all (\<lambda>e. stage_column e \<noteq> ''id'' \<and> stage_column e \<noteq> ''agent_id'') patch \<Longrightarrow>
           isolated a (db_updateStage a rid patch) s"
    and "isolated a (db_deleteStage a rid) s"
    and "isolated a (db_reorderStages a stageIds) s"
    and "stage_ref_within a s (nat_or_null (contact_stageId contact)) \<Longrightarrow>
           isolated a (db_createContact a now contact) s"
    and "\<forall>v. E_stageId v \<in> set updates \<longrightarrow> stage_ref_within a s v \<Longrightarrow>
           isolated a (db_updateContact a now rid updates) s"
    and "stage_ref_within a s stageId \<Longrightarrow> isolated a (db_moveContactStage a now rid stageId) s"
    and "isolated a (db_deleteContact a rid) s"
    and "contact_ref_within a s (interaction_contactId interaction) \<Longrightarrow>
           isolated a (db_addInteraction a now interaction) s"
    and "isolated a (db_updateInteraction a rid iupdates) s"
    and "isolated a (db_deleteInteraction a rid) s"
    and "contact_ref_within a s (nat_or_null (task_contactId task)) \<Longrightarrow>
           isolated a (db_addTask a now task) s"
    and "isolated a (db_completeTask a now rid) s"
    and "isolated a (db_uncompleteTask a rid) s"
    and "\<forall>v. T_contactId v \<in> set tupdates \<longrightarrow> contact_ref_within a s v \<Longrightarrow>
           isolated a (db_updateTask a rid tupdates) s"
    and "isolated a (db_deleteTask a rid) s"
  using assms
  by (simp_all add: sealed_def isolated_createStage isolated_updateStage isolated_deleteStage
        isolated_reorderStages isolated_createContact isolated_updateContact
        isolated_moveContactStage isolated_deleteContact isolated_addInteraction
        isolated_updateInteraction isolated_deleteInteraction isolated_addTask
        isolated_completeTask isolated_uncompleteTask isolated_updateTask isolated_deleteTask)

lemma foreign_stage_not_within:
  "\<not> stage_ref_within ''t1''
       (snd (crm_createStage ''t2'' 1
          \<lparr>stage_name = Some ''Secret'', stage_position = None, stage_color = Some ''#000000''\<rparr>
          empty_store))
       (Some 1)"
  by (simp add: stage_ref_within_def crm_createStage_def db_createStage_def evaluation)


section \<open>Tenant isolation\<close>

text \<open>
  Claim C1: no operation under a tenant returns, or is affected by, data created under
  another tenant. Every query of \<^verbatim>\<open>SupabaseDB\<close> filters or stamps \<^verbatim>\<open>agent_id\<close>, but the rows
  a contact, interaction or task references are looked up by the foreign key alone, and no
  operation checks the owner of an id it is given as a reference. Tenant \<^verbatim>\<open>t2\<close> creates the
  stage Secret (id 1); tenant \<^verbatim>\<open>t1\<close> creates a contact with \<^verbatim>\<open>stageId\<close> 1. The call returns
  the name and colour of the stage of \<^verbatim>\<open>t2\<close>, \<^verbatim>\<open>listContacts\<close> of \<^verbatim>\<open>t1\<close> returns them again,
  and when \<^verbatim>\<open>t2\<close> deletes its stage the contact of \<^verbatim>\<open>t1\<close> loses its stage reference.
\<close>

theorem tenant_isolation_broken_by_reference:
  "map_sum (\<lambda>e. e) (\<lambda>v. (c_agent_id (fst v), c_stage_id (fst v), snd v))
     (fst (crm_createContact ''t1'' 2
        (empty_contact\<lparr>contact_name := Some ''A'', contact_stageId := Some 1\<rparr>)
        (snd (crm_createStage ''t2'' 1
           \<lparr>stage_name = Some ''Secret'', stage_position = None, stage_color = Some ''#000000''\<rparr>
           empty_store)))) =
   Inr (''t1'', Some 1, Some (''Secret'', Some ''#000000'')) \<and>
   map_sum (\<lambda>e. e) (map snd)
     (fst (db_listContacts ''t1'' empty_options
        (snd (crm_createContact ''t1'' 2
           (empty_contact\<lparr>contact_name := Some ''A'', contact_stageId := Some 1\<rparr>)
           (snd (crm_createStage ''t2'' 1
              \<lparr>stage_name = Some ''Secret'', stage_position = None,
               stage_color = Some ''#000000''\<rparr>
              empty_store)))))) =
   Inr [Some (''Secret'', Some ''#000000'')] \<and>
   map_sum (\<lambda>e. e) (\<lambda>v. c_stage_id (fst v))
     (fst (db_getContact ''t1'' 1
        (snd (db_deleteStage ''t2'' 1
           (snd (crm_createContact ''t1'' 2
              (empty_contact\<lparr>contact_name := Some ''A'', contact_stageId := Some 1\<rparr>)
              (snd (crm_createStage ''t2'' 1
                 \<lparr>stage_name = Some ''Secret'', stage_position = None,
                  stage_color = Some ''#000000''\<rparr>
                 empty_store)))))))) =
   Inr None"
  by (simp add: crm_createStage_def db_createStage_def crm_createContact_def
        db_createContact_def db_listContacts_def contact_query_def db_getContact_def
        db_deleteStage_def page_def evaluation)

end
